theory Spec2Isabelle
  imports Main
begin

section \<open>Values of the TypeScript program\<close>

text \<open>
  The model file is \<^verbatim>\<open>extensions/models/minecraft_server.ts\<close>. A JavaScript string is
  modelled as a \<^typ>\<open>string\<close>: a list of code units below 256 (the Latin-1 range), which
  covers every command, marker and player name the program handles.
  \<open>null\<close> is \<open>Null\<close>, and an absent field of a result object is \<open>None\<close>.

  A JavaScript number is an IEEE 754 double. The numbers of this program come from
  \<open>parseInt\<close>, from adding one and from literals, so each is an integer, an infinity or
  \<open>NaN\<close>: \<open>Number i\<close> is the double whose value is the integer \<open>i\<close> (only integers that
  are doubles occur under \<open>Number\<close>), and \<open>NegZero\<close> is \<open>-0\<close>.
\<close>

datatype 'a nullable = Null | Val 'a

datatype number = NaN | Number int | NegZero | Infinity | NegInfinity

record exec_result =
  code :: int
  stdout :: string
  stderr :: string

text \<open>\<open>GlobalArgs\<close>: the configuration every method reads from \<open>context.globalArgs\<close>.\<close>

record global_args =
  sshHost :: "string nullable"
  sshUser :: string
  tmuxSession :: string
  serverDir :: string
  startScript :: string
  logPath :: string
  serverName :: string

text \<open>
  \<open>ServerSchema\<close>: every field is optional; \<open>online\<close> and \<open>max\<close> are nullable as well.
  The field \<open>max\<close> is named \<open>max'\<close> here. \<open>timestamp\<close> holds the clock reading from
  which \<open>new Date().toISOString()\<close> is formatted.
\<close>

record server_data =
  success :: "bool option"
  skipped :: "bool option"
  alreadyStopped :: "bool option"
  timedOut :: "bool option"
  ip :: "string nullable option"
  serverRunning :: "bool option"
  serverReady :: "bool option"
  online :: "number nullable option"
  max' :: "number nullable option"
  players :: "string list option"
  timestamp :: "nat option"

definition no_data :: server_data where
  "no_data = \<lparr>success = None, skipped = None, alreadyStopped = None, timedOut = None,
     ip = None, serverRunning = None, serverReady = None, online = None, max' = None,
     players = None, timestamp = None\<rparr>"

section \<open>String primitives\<close>

text \<open>The white space that \<open>String.prototype.trim\<close> and \<open>parseInt\<close> skip, below 256.\<close>

definition isWhiteSpace :: "char \<Rightarrow> bool" where
  "isWhiteSpace c =
     (c = CHR 0x09 \<or> c = CHR 0x0A \<or> c = CHR 0x0B \<or> c = CHR 0x0C \<or> c = CHR 0x0D \<or>
      c = CHR 0x20 \<or> c = CHR 0xA0)"

definition trim :: "string \<Rightarrow> string" where
  "trim s = rev (dropWhile isWhiteSpace (rev (dropWhile isWhiteSpace s)))"

text \<open>\<open>\d\<close>: the ten ASCII digits.\<close>

definition isDigit :: "char \<Rightarrow> bool" where
  "isDigit c = (48 \<le> (of_char c :: nat) \<and> (of_char c :: nat) \<le> 57)"

text \<open>The line terminators that \<open>.\<close> does not match, below 256.\<close>

definition isLineTerminator :: "char \<Rightarrow> bool" where
  "isLineTerminator c = (c = CHR 0x0A \<or> c = CHR 0x0D)"

text \<open>The mathematical integer that a run of decimal digits denotes.\<close>

definition digitsValue :: "string \<Rightarrow> int" where
  "digitsValue ds = foldl (\<lambda>a c. 10 * a + ((of_char c :: int) - 48)) 0 ds"

text \<open>
  The double nearest to a non-negative integer \<open>v\<close>, ties to the even significand, as
  an integer again; \<open>None\<close> when the rounded value does not fit and the result is
  infinite. \<open>excessBits v\<close> is the number of low bits that do not fit into the 53 bits
  of the significand. Every integer below \<open>2^53\<close> is a double.
\<close>

function excessBits :: "int \<Rightarrow> nat" where
  "excessBits v = (if v < 2 ^ 53 then 0 else Suc (excessBits (v div 2)))"
  by pat_completeness auto
termination
  by (relation "measure nat") auto

declare excessBits.simps [simp del]

definition roundDouble :: "int \<Rightarrow> int option" where
  "roundDouble v =
     (let e = excessBits v;
          q = v div 2 ^ e;
          r = v mod 2 ^ e;
          q' = (if 2 ^ e < 2 * r \<or> (2 * r = 2 ^ e \<and> odd q) then q + 1 else q)
      in if q' * 2 ^ e < 2 ^ 1024 then Some (q' * 2 ^ e) else None)"

text \<open>The Number value for a non-negative mathematical integer, and unary minus.\<close>

definition asNumber :: "int \<Rightarrow> number" where
  "asNumber v = (case roundDouble v of Some d \<Rightarrow> Number d | None \<Rightarrow> Infinity)"

definition negate :: "number \<Rightarrow> number" where
  "negate x =
     (case x of
        NaN \<Rightarrow> NaN
      | Number i \<Rightarrow> (if i = 0 then NegZero else Number (- i))
      | NegZero \<Rightarrow> Number 0
      | Infinity \<Rightarrow> NegInfinity
      | NegInfinity \<Rightarrow> Infinity)"

text \<open>
  \<open>parseInt(s, 10)\<close>: skip leading white space, read an optional sign, then the longest
  run of decimal digits; \<open>NaN\<close> when there is no digit, otherwise the Number value of
  the signed integer the digits denote (the engine rounds the exact value).
\<close>

definition parseInt :: "string \<Rightarrow> number" where
  "parseInt s =
     (let t = dropWhile isWhiteSpace s;
          neg = (case t of [] \<Rightarrow> False | c # _ \<Rightarrow> c = CHR ''-'');
          u = (case t of [] \<Rightarrow> [] | c # r \<Rightarrow> if c = CHR ''+'' \<or> c = CHR ''-'' then r else t);
          ds = takeWhile isDigit u
      in if ds = [] then NaN
         else if neg then negate (asNumber (digitsValue ds)) else asNumber (digitsValue ds))"

text \<open>\<open>x || 0\<close> on a number: \<open>NaN\<close>, \<open>0\<close> and \<open>-0\<close> are falsy.\<close>

definition orZero :: "number \<Rightarrow> number" where
  "orZero x = (if x = NaN \<or> x = Number 0 \<or> x = NegZero then Number 0 else x)"

text \<open>\<open>x + 1\<close> on a number: the sum is rounded to a double again.\<close>

definition plusOne :: "number \<Rightarrow> number" where
  "plusOne x =
     (case x of
        NaN \<Rightarrow> NaN
      | NegZero \<Rightarrow> Number 1
      | Infinity \<Rightarrow> Infinity
      | NegInfinity \<Rightarrow> NegInfinity
      | Number i \<Rightarrow> if 0 \<le> i + 1 then asNumber (i + 1) else negate (asNumber (- (i + 1))))"

text \<open>The decimal digits of a natural number, as the program prints its constants.\<close>

fun showNat :: "nat \<Rightarrow> string" where
  "showNat n =
     (if n < 10 then [char_of (48 + n)] else showNat (n div 10) @ [char_of (48 + n mod 10)])"

declare showNat.simps [simp del]

text \<open>
  A number inside a template literal is converted by \<open>Number::toString\<close>. For a positive
  integer \<open>v\<close> it takes the fewest digits \<open>s\<close> (\<open>k\<close> of them) and the exponent \<open>n\<close> such that
  \<open>s * 10^(n-k)\<close> reads back as \<open>v\<close>, the closest such \<open>s\<close> if there are several, and
  prints the digits followed by \<open>n - k\<close> zeros when \<open>n\<close> is at most 21, and in exponent form
  otherwise. Below \<open>2^53\<close> every integer is a double and nothing shorter than its own
  digits reads back as it, so the digits of \<open>v\<close> are printed. \<open>digitsOf\<close> gives the
  decimal digits of a non-negative integer.
\<close>

function digitsOf :: "int \<Rightarrow> string" where
  "digitsOf v =
     (if v < 10 then [char_of (48 + v)] else digitsOf (v div 10) @ [char_of (48 + v mod 10)])"
  by pat_completeness auto
termination
  by (relation "measure nat") auto

declare digitsOf.simps [simp del]

definition readsBack :: "int \<Rightarrow> nat \<Rightarrow> nat \<Rightarrow> int \<Rightarrow> bool" where
  "readsBack v k n s \<longleftrightarrow>
     10 ^ (k - 1) \<le> s \<and> s < 10 ^ k \<and> roundDouble (s * 10 ^ (n - k)) = Some v"

text \<open>
  The digit strings of length \<open>k\<close> that read back as \<open>v\<close>, each with its exponent: the
  multiples of \<open>10^(n-k)\<close> next to \<open>v\<close> on either side, for the two possible \<open>n\<close>.
\<close>

definition candidates :: "int \<Rightarrow> nat \<Rightarrow> (int \<times> nat) list" where
  "candidates v k =
     concat (map (\<lambda>n. map (\<lambda>s. (s, n))
                    (filter (readsBack v k n) [v div 10 ^ (n - k), v div 10 ^ (n - k) + 1]))
               [length (digitsOf v), length (digitsOf v) + 1])"

definition distance :: "int \<Rightarrow> nat \<Rightarrow> int \<times> nat \<Rightarrow> int" where
  "distance v k c = \<bar>fst c * 10 ^ (snd c - k) - v\<bar>"

fun closest :: "int \<Rightarrow> nat \<Rightarrow> int \<times> nat \<Rightarrow> (int \<times> nat) list \<Rightarrow> int \<times> nat" where
  "closest v k b [] = b"
| "closest v k b (c # cs) =
     closest v k (if distance v k c < distance v k b \<or>
                     (distance v k c = distance v k b \<and> even (fst c)) then c else b) cs"

definition shortest :: "int \<Rightarrow> int \<times> nat \<times> nat" where
  "shortest v =
     (case List.find (\<lambda>k. candidates v k \<noteq> []) [1..<length (digitsOf v)] of
        Some k \<Rightarrow> (case closest v k (hd (candidates v k)) (tl (candidates v k)) of
                     (s, n) \<Rightarrow> (s, n, k))
      | None \<Rightarrow> (v, length (digitsOf v), length (digitsOf v)))"

definition showDouble :: "int \<Rightarrow> string" where
  "showDouble v =
     (if v < 2 ^ 53 then digitsOf v
      else (case shortest v of
              (s, n, k) \<Rightarrow>
                if n \<le> 21 then digitsOf s @ replicate (n - k) (CHR ''0'')
                else if k = 1 then digitsOf s @ ''e+'' @ digitsOf (int (n - 1))
                else hd (digitsOf s) # CHR ''.'' # tl (digitsOf s) @ ''e+'' @ digitsOf (int (n - 1))))"

definition showNumber :: "number \<Rightarrow> string" where
  "showNumber x =
     (case x of
        NaN \<Rightarrow> ''NaN''
      | NegZero \<Rightarrow> ''0''
      | Infinity \<Rightarrow> ''Infinity''
      | NegInfinity \<Rightarrow> ''-Infinity''
      | Number i \<Rightarrow> if i < 0 then CHR ''-'' # showDouble (- i) else showDouble i)"

definition showHost :: "string nullable \<Rightarrow> string" where
  "showHost h = (case h of Null \<Rightarrow> ''null'' | Val s \<Rightarrow> s)"

text \<open>\<open>s.split(c)\<close> for a one-character separator: never the empty list.\<close>

fun split_on :: "char \<Rightarrow> string \<Rightarrow> string list" where
  "split_on c [] = [[]]"
| "split_on c (x # xs) =
     (if x = c then [] # split_on c xs
      else (case split_on c xs of [] \<Rightarrow> [[x]] | y # ys \<Rightarrow> (x # y) # ys))"

text \<open>\<open>s.replace(/[^a-zA-Z0-9_]/g, "")\<close> keeps exactly the characters of the class.\<close>

definition isWordChar :: "char \<Rightarrow> bool" where
  "isWordChar c =
     (let n = (of_char c :: nat)
      in (97 \<le> n \<and> n \<le> 122) \<or> (65 \<le> n \<and> n \<le> 90) \<or> (48 \<le> n \<and> n \<le> 57) \<or> n = 95)"

definition sanitize :: "string \<Rightarrow> string" where
  "sanitize playerName = filter isWordChar playerName"

section \<open>The player-list pattern\<close>

text \<open>
  \<open>/There are (\d+) of a max of (\d+) players online:(.*)/\<close> without flags.
  \<open>dropLiteral\<close> consumes a literal; \<open>matchAt\<close> tries the pattern at the start of its
  argument. Each \<open>\d+\<close> is followed by a literal that starts with a space, so giving back
  digits can never help and the greedy run is the only candidate; \<open>(.*)\<close> runs to the
  next line terminator. \<open>matchPlayerList\<close> is \<open>String.prototype.match\<close>: the leftmost
  start position that matches, with the three groups.
\<close>

fun dropLiteral :: "string \<Rightarrow> string \<Rightarrow> string option" where
  "dropLiteral [] s = Some s"
| "dropLiteral (c # cs) [] = None"
| "dropLiteral (c # cs) (x # xs) = (if c = x then dropLiteral cs xs else None)"

definition matchAt :: "string \<Rightarrow> (string \<times> string \<times> string) option" where
  "matchAt s =
     (case dropLiteral ''There are '' s of
        None \<Rightarrow> None
      | Some s1 \<Rightarrow>
          if takeWhile isDigit s1 = [] then None
          else (case dropLiteral '' of a max of '' (dropWhile isDigit s1) of
             None \<Rightarrow> None
           | Some s2 \<Rightarrow>
               if takeWhile isDigit s2 = [] then None
               else (case dropLiteral '' players online:'' (dropWhile isDigit s2) of
                  None \<Rightarrow> None
                | Some s3 \<Rightarrow>
                    Some (takeWhile isDigit s1, takeWhile isDigit s2,
                          takeWhile (\<lambda>c. \<not> isLineTerminator c) s3))))"

fun matchPlayerList :: "string \<Rightarrow> (string \<times> string \<times> string) option" where
  "matchPlayerList [] = matchAt []"
| "matchPlayerList (x # xs) =
     (case matchAt (x # xs) of Some m \<Rightarrow> Some m | None \<Rightarrow> matchPlayerList xs)"

text \<open>
  \<open>playerStr ? playerStr.split(",").map(p => p.trim()).filter(Boolean) : []\<close> with
  \<open>playerStr = match[3].trim()\<close>.
\<close>

definition parsePlayers :: "string \<Rightarrow> string list" where
  "parsePlayers m3 =
     (let playerStr = trim m3
      in if playerStr = [] then []
         else filter (\<lambda>p. p \<noteq> []) (map trim (split_on (CHR '','') playerStr)))"

section \<open>The remote host, the clock and the record of effects\<close>

text \<open>
  Every effect of a method is appended to \<open>trace\<close>, oldest first: a remote command with
  the result it returned, a timed sleep, a call of \<open>waitForSsh\<close> or of
  \<open>writeMetricsFiles\<close>, and the resource written. \<open>clock\<close> is \<open>Date.now()\<close> in
  milliseconds.
\<close>

datatype event =
    Exec "string nullable" string string exec_result
  | Sleep nat
  | WaitForSsh "string nullable" string bool
  | WriteMetricsFiles "string nullable" string string string server_data
  | WriteResource string string server_data

record world =
  clock :: nat
  trace :: "event list"

text \<open>
  What the program cannot decide itself. \<open>lib/ssh.ts\<close> is not among the sources, so
  \<open>isValidSshHost\<close>, the behaviour of \<open>waitForSsh\<close> (its answer and how long it took) and
  whether the \<open>sshExec\<close> calls of \<open>writeMetricsFiles\<close> throw are parameters. \<open>respond\<close>
  is the remote host's answer to a command of \<open>sshExecRaw\<close>, which may depend on the
  time and on everything done so far; \<open>latency\<close> is how long the round trip takes and
  \<open>oversleep\<close> how much later than asked a timer fires.
\<close>

record env =
  isValidSshHost :: "string nullable \<Rightarrow> bool"
  respond :: "world \<Rightarrow> string nullable \<Rightarrow> string \<Rightarrow> string \<Rightarrow> exec_result"
  latency :: "world \<Rightarrow> string nullable \<Rightarrow> string \<Rightarrow> string \<Rightarrow> nat"
  oversleep :: "world \<Rightarrow> nat \<Rightarrow> nat"
  sshWait :: "world \<Rightarrow> string nullable \<Rightarrow> string \<Rightarrow> bool \<times> nat"
  metricsWrite :: "world \<Rightarrow> server_data \<Rightarrow> string option \<times> nat"

text \<open>A method returns the data of the resource it wrote, or throws an \<open>Error\<close>.\<close>

datatype outcome = Returned server_data | Threw string

definition sshExecRaw ::
  "env \<Rightarrow> string nullable \<Rightarrow> string \<Rightarrow> string \<Rightarrow> world \<Rightarrow> exec_result \<times> world" where
  "sshExecRaw e h u cmd w =
     (let r = respond e w h u cmd
      in (r, \<lparr>clock = clock w + latency e w h u cmd, trace = trace w @ [Exec h u cmd r]\<rparr>))"

text \<open>\<open>await new Promise(r => setTimeout(r, ms))\<close>\<close>

definition sleep :: "env \<Rightarrow> nat \<Rightarrow> world \<Rightarrow> world" where
  "sleep e ms w = \<lparr>clock = clock w + ms + oversleep e w ms, trace = trace w @ [Sleep ms]\<rparr>"

definition waitForSsh :: "env \<Rightarrow> string nullable \<Rightarrow> string \<Rightarrow> world \<Rightarrow> bool \<times> world" where
  "waitForSsh e h u w =
     (case sshWait e w h u of
        (ok, ms) \<Rightarrow> (ok, \<lparr>clock = clock w + ms, trace = trace w @ [WaitForSsh h u ok]\<rparr>))"

text \<open>
  \<open>writeMetricsFiles\<close> of \<open>lib/metrics.ts\<close> formats the data and sends it through two
  \<open>sshExec\<close> calls; it is recorded as one event with the data it was given, and its
  result is the message of the error it threw, if any.
\<close>

definition writeMetricsFiles ::
  "env \<Rightarrow> string nullable \<Rightarrow> string \<Rightarrow> string \<Rightarrow> string \<Rightarrow> server_data \<Rightarrow> world
     \<Rightarrow> string option \<times> world" where
  "writeMetricsFiles e h u gameType name d w =
     (case metricsWrite e w d of
        (err, ms) \<Rightarrow>
          (err, \<lparr>clock = clock w + ms, trace = trace w @ [WriteMetricsFiles h u gameType name d]\<rparr>))"

text \<open>\<open>context.writeResource(spec, name, data)\<close> followed by \<open>return { dataHandles: [handle] }\<close>\<close>

definition writeResource :: "string \<Rightarrow> string \<Rightarrow> server_data \<Rightarrow> world \<Rightarrow> outcome \<times> world" where
  "writeResource spec name d w = (Returned d, w\<lparr>trace := trace w @ [WriteResource spec name d]\<rparr>)"

section \<open>The command lines\<close>

definition hasSessionCmd :: "global_args \<Rightarrow> string" where
  "hasSessionCmd g =
     ''tmux has-session -t '' @ tmuxSession g @ '' 2>/dev/null && echo exists || echo missing''"

definition sendKeysCmd :: "global_args \<Rightarrow> string \<Rightarrow> string" where
  "sendKeysCmd g keys =
     ''tmux send-keys -t '' @ tmuxSession g @ '' '' @ [CHR 0x27] @ keys @ [CHR 0x27] @ '' Enter''"

definition killSessionCmd :: "global_args \<Rightarrow> string" where
  "killSessionCmd g = ''tmux kill-session -t '' @ tmuxSession g @ '' 2>/dev/null || true''"

definition javaCheckCmd :: string where
  "javaCheckCmd = ''pgrep -f java > /dev/null 2>&1 && echo running || echo stopped''"

definition javaPidCmd :: string where
  "javaPidCmd = ''pgrep -f '' @ [CHR 0x27] @ ''java.*neoforge'' @ [CHR 0x27] @ '' || pgrep -f java''"

definition killCheckCmd :: "string \<Rightarrow> string" where
  "killCheckCmd originalPid =
     ''kill -0 '' @ originalPid @ '' 2>/dev/null && echo running || echo stopped''"

definition wcCmd :: "global_args \<Rightarrow> string" where
  "wcCmd g = ''wc -l < '' @ logPath g"

definition tailCmd :: "global_args \<Rightarrow> number \<Rightarrow> string" where
  "tailCmd g lineCount = ''tail -n +'' @ showNumber (plusOne lineCount) @ '' '' @ logPath g"

definition startLogPath :: "global_args \<Rightarrow> string" where
  "startLogPath g = ''/tmp/mc-start-'' @ tmuxSession g @ ''.log''"

definition truncateCmd :: "string \<Rightarrow> string" where
  "truncateCmd path = ''truncate -s 0 '' @ path @ '' 2>/dev/null || true''"

definition newSessionCmd :: "global_args \<Rightarrow> string" where
  "newSessionCmd g =
     ''tmux new-session -d -s '' @ tmuxSession g @ '' -c '' @ serverDir g @ '' '' @ [CHR 0x27] @
     ''bash '' @ startScript g @ '' 2>&1 | tee '' @ startLogPath g @ [CHR 0x27]"

definition readyCheckCmd :: "global_args \<Rightarrow> string" where
  "readyCheckCmd g =
     ''grep -q '' @ [CHR 0x27, CHR 0x5C] @ '']: Done ('' @ [CHR 0x27] @ '' '' @ logPath g @
     '' 2>/dev/null && echo READY || echo WAITING''"

definition aliveCheckCmd :: "global_args \<Rightarrow> string" where
  "aliveCheckCmd g =
     ''tmux has-session -t '' @ tmuxSession g @ '' 2>/dev/null && echo alive || echo dead''"

definition catStartLogCmd :: "global_args \<Rightarrow> string" where
  "catStartLogCmd g =
     ''cat '' @ startLogPath g @ '' 2>/dev/null || echo '' @ [CHR 0x22] @ ''(no output)'' @ [CHR 0x22]"

section \<open>The methods\<close>

subsection \<open>say, op, deop, warnShutdown\<close>

definition respSkipped :: "bool \<Rightarrow> server_data" where
  "respSkipped b = no_data\<lparr>success := Some True, skipped := Some b\<rparr>"

definition say :: "env \<Rightarrow> global_args \<Rightarrow> string \<Rightarrow> world \<Rightarrow> outcome \<times> world" where
  "say e g message w =
     (if message = [] then (Threw ''message is required'', w)
      else if \<not> isValidSshHost e (sshHost g)
      then writeResource ''server'' (serverName g) (respSkipped True) w
      else (case sshExecRaw e (sshHost g) (sshUser g) (hasSessionCmd g) w of
        (tmuxCheck, w1) \<Rightarrow>
          if trim (stdout tmuxCheck) \<noteq> ''exists''
          then writeResource ''server'' (serverName g) (respSkipped True) w1
          else (case sshExecRaw e (sshHost g) (sshUser g) (sendKeysCmd g (''say '' @ message)) w1 of
            (sent, w2) \<Rightarrow> writeResource ''server'' (serverName g) (respSkipped False) w2)))"

definition op :: "env \<Rightarrow> global_args \<Rightarrow> string \<Rightarrow> world \<Rightarrow> outcome \<times> world" where
  "op e g playerName w =
     (if playerName = [] then (Threw ''playerName is required'', w)
      else if \<not> isValidSshHost e (sshHost g)
      then writeResource ''server'' (serverName g) (respSkipped True) w
      else (case sshExecRaw e (sshHost g) (sshUser g) (hasSessionCmd g) w of
        (tmuxCheck, w1) \<Rightarrow>
          if trim (stdout tmuxCheck) \<noteq> ''exists''
          then writeResource ''server'' (serverName g) (respSkipped True) w1
          else (case sshExecRaw e (sshHost g) (sshUser g)
                       (sendKeysCmd g (''op '' @ sanitize playerName)) w1 of
            (sent, w2) \<Rightarrow> writeResource ''server'' (serverName g) (respSkipped False) w2)))"

definition deop :: "env \<Rightarrow> global_args \<Rightarrow> string \<Rightarrow> world \<Rightarrow> outcome \<times> world" where
  "deop e g playerName w =
     (if playerName = [] then (Threw ''playerName is required'', w)
      else if \<not> isValidSshHost e (sshHost g)
      then writeResource ''server'' (serverName g) (respSkipped True) w
      else (case sshExecRaw e (sshHost g) (sshUser g) (hasSessionCmd g) w of
        (tmuxCheck, w1) \<Rightarrow>
          if trim (stdout tmuxCheck) \<noteq> ''exists''
          then writeResource ''server'' (serverName g) (respSkipped True) w1
          else (case sshExecRaw e (sshHost g) (sshUser g)
                       (sendKeysCmd g (''deop '' @ sanitize playerName)) w1 of
            (sent, w2) \<Rightarrow> writeResource ''server'' (serverName g) (respSkipped False) w2)))"

text \<open>The \<open>for\<close> loop of \<open>warnShutdown\<close>: \<open>n\<close> broadcasts, one after the other.\<close>

fun broadcastWarning :: "env \<Rightarrow> global_args \<Rightarrow> nat \<Rightarrow> world \<Rightarrow> world" where
  "broadcastWarning e g 0 w = w"
| "broadcastWarning e g (Suc n) w =
     broadcastWarning e g n
       (snd (sshExecRaw e (sshHost g) (sshUser g)
               (sendKeysCmd g ''say == SERVER SHUTTING DOWN IN 30 SECONDS =='') w))"

definition warnShutdown :: "env \<Rightarrow> global_args \<Rightarrow> world \<Rightarrow> outcome \<times> world" where
  "warnShutdown e g w =
     (if \<not> isValidSshHost e (sshHost g)
      then writeResource ''server'' (serverName g) (respSkipped True) w
      else (case sshExecRaw e (sshHost g) (sshUser g) (hasSessionCmd g) w of
        (tmuxCheck, w1) \<Rightarrow>
          if trim (stdout tmuxCheck) \<noteq> ''exists''
          then writeResource ''server'' (serverName g) (respSkipped True) w1
          else writeResource ''server'' (serverName g) (respSkipped False)
                 (sleep e 30000 (broadcastWarning e g 3 w1))))"

subsection \<open>stopMinecraftServer\<close>

definition respAlreadyStopped :: "world \<Rightarrow> server_data" where
  "respAlreadyStopped w =
     no_data\<lparr>success := Some True, alreadyStopped := Some True, timedOut := Some False,
       timestamp := Some (clock w)\<rparr>"

text \<open>
  The \<open>while (Date.now() < pollDeadline)\<close> loop: sleep three seconds, ask whether the pid
  is alive, leave at the first \<open>stopped\<close>.
\<close>

function pidLoop :: "env \<Rightarrow> global_args \<Rightarrow> string \<Rightarrow> nat \<Rightarrow> world \<Rightarrow> world" where
  "pidLoop e g originalPid pollDeadline w =
     (if clock w < pollDeadline
      then (case sshExecRaw e (sshHost g) (sshUser g) (killCheckCmd originalPid) (sleep e 3000 w) of
        (check, w2) \<Rightarrow>
          if trim (stdout check) = ''stopped'' then w2
          else pidLoop e g originalPid pollDeadline w2)
      else w)"
  by pat_completeness auto
termination
  by (relation "measure (\<lambda>(e, g, originalPid, pollDeadline, w). pollDeadline - clock w)")
     (auto simp: sshExecRaw_def sleep_def Let_def)

declare pidLoop.simps [simp del]

definition stopMinecraftServer :: "env \<Rightarrow> global_args \<Rightarrow> world \<Rightarrow> outcome \<times> world" where
  "stopMinecraftServer e g w =
     (if \<not> isValidSshHost e (sshHost g)
      then writeResource ''server'' (serverName g) (respAlreadyStopped w) w
      else (case sshExecRaw e (sshHost g) (sshUser g) ''echo ok'' w of
        (reachable, w1) \<Rightarrow>
          if code reachable \<noteq> 0
          then writeResource ''server'' (serverName g) (respAlreadyStopped w1) w1
          else (case sshExecRaw e (sshHost g) (sshUser g) (hasSessionCmd g) w1 of
            (tmuxCheck, w2) \<Rightarrow>
              (case sshExecRaw e (sshHost g) (sshUser g) javaCheckCmd w2 of
                (javaCheck, w3) \<Rightarrow>
                  let tmuxExists = (trim (stdout tmuxCheck) = ''exists'');
                      javaRunning = (trim (stdout javaCheck) = ''running'')
                  in if \<not> tmuxExists \<and> \<not> javaRunning
                     then writeResource ''server'' (serverName g) (respAlreadyStopped w3) w3
                     else
                       let w4 = (if tmuxExists
                                 then snd (sshExecRaw e (sshHost g) (sshUser g)
                                             (sendKeysCmd g ''stop'') w3)
                                 else w3)
                       in (case sshExecRaw e (sshHost g) (sshUser g) javaPidCmd w4 of
                         (javaPid, w5) \<Rightarrow>
                           let originalPid =
                                 (case split_on (CHR 0x0A) (trim (stdout javaPid)) of
                                    [] \<Rightarrow> ''undefined'' | l # ls \<Rightarrow> l);
                               pollTimeout = 90;
                               pollStart = clock w5;
                               pollDeadline = pollStart + pollTimeout * 1000;
                               w6 = pidLoop e g originalPid pollDeadline w5;
                               timedOut' = (clock w6 \<ge> pollDeadline)
                           in (case sshExecRaw e (sshHost g) (sshUser g) (killSessionCmd g) w6 of
                             (killed, w7) \<Rightarrow>
                               writeResource ''server'' (serverName g)
                                 (no_data\<lparr>success := Some True, alreadyStopped := Some False,
                                    timedOut := Some timedOut', ip := Some (sshHost g),
                                    timestamp := Some (clock w7)\<rparr>) w7))))))"

subsection \<open>status\<close>

definition respNotRunning :: "world \<Rightarrow> server_data" where
  "respNotRunning w = no_data\<lparr>serverRunning := Some False, timestamp := Some (clock w)\<rparr>"

text \<open>
  The result built from the freshly read log lines: the match of the player-list pattern,
  or the undetermined result when nothing matches.
\<close>

definition statusReport :: "string \<Rightarrow> nat \<Rightarrow> server_data" where
  "statusReport newLines now =
     (case matchPlayerList newLines of
        Some (m1, m2, m3) \<Rightarrow>
          no_data\<lparr>serverRunning := Some True, online := Some (Val (parseInt m1)),
            max' := Some (Val (parseInt m2)), players := Some (parsePlayers m3),
            timestamp := Some now\<rparr>
      | None \<Rightarrow>
          no_data\<lparr>serverRunning := Some True, online := Some Null, max' := Some Null,
            players := Some [], timestamp := Some now\<rparr>)"

definition status :: "env \<Rightarrow> global_args \<Rightarrow> world \<Rightarrow> outcome \<times> world" where
  "status e g w =
     (if \<not> isValidSshHost e (sshHost g)
      then writeResource ''server'' (serverName g) (respNotRunning w) w
      else (case sshExecRaw e (sshHost g) (sshUser g) ''echo ok'' w of
        (reachable, w1) \<Rightarrow>
          if code reachable \<noteq> 0
          then writeResource ''server'' (serverName g) (respNotRunning w1) w1
          else (case sshExecRaw e (sshHost g) (sshUser g) (hasSessionCmd g) w1 of
            (tmuxCheck, w2) \<Rightarrow>
              if trim (stdout tmuxCheck) \<noteq> ''exists''
              then writeResource ''server'' (serverName g) (respNotRunning w2) w2
              else (case sshExecRaw e (sshHost g) (sshUser g) (wcCmd g) w2 of
                (wcResult, w3) \<Rightarrow>
                  let lineCount = orZero (parseInt (trim (stdout wcResult)))
                  in (case sshExecRaw e (sshHost g) (sshUser g) (sendKeysCmd g ''list'') w3 of
                    (sent, w4) \<Rightarrow>
                      (case sshExecRaw e (sshHost g) (sshUser g) (tailCmd g lineCount)
                              (sleep e 2000 w4) of
                        (tailResult, w6) \<Rightarrow>
                          writeResource ''server'' (serverName g)
                            (statusReport (stdout tailResult) (clock w6)) w6))))))"

subsection \<open>startMinecraftServer\<close>

text \<open>
  The readiness loop. Its result is \<open>Inr serverReady\<close> (a primed name is a local
  variable whose name is also a field of the result) when the loop is left by \<open>break\<close>
  or by its condition, and \<open>Inl message\<close> when it throws.
\<close>

function readyLoop :: "env \<Rightarrow> global_args \<Rightarrow> nat \<Rightarrow> world \<Rightarrow> (string + bool) \<times> world" where
  "readyLoop e g readyDeadline w =
     (if clock w < readyDeadline
      then (case sshExecRaw e (sshHost g) (sshUser g) (readyCheckCmd g) w of
        (logCheck, w1) \<Rightarrow>
          if trim (stdout logCheck) = ''READY'' then (Inr True, w1)
          else (case sshExecRaw e (sshHost g) (sshUser g) (aliveCheckCmd g) w1 of
            (tmuxAlive, w2) \<Rightarrow>
              if trim (stdout tmuxAlive) = ''dead''
              then (case sshExecRaw e (sshHost g) (sshUser g) (catStartLogCmd g) w2 of
                (startOutput, w3) \<Rightarrow>
                  (Inl (''Server process exited before becoming ready. start.sh output:'' @
                        [CHR 0x0A] @ stdout startOutput), w3))
              else readyLoop e g readyDeadline (sleep e (5 * 1000) w2)))
      else (Inr False, w))"
  by pat_completeness auto
termination
  by (relation "measure (\<lambda>(e, g, readyDeadline, w). readyDeadline - clock w)")
     (auto simp: sshExecRaw_def sleep_def Let_def)

declare readyLoop.simps [simp del]

definition startMinecraftServer :: "env \<Rightarrow> global_args \<Rightarrow> world \<Rightarrow> outcome \<times> world" where
  "startMinecraftServer e g w =
     (if \<not> isValidSshHost e (sshHost g)
      then (Threw ''sshHost is required - is the VM running?'', w)
      else (case waitForSsh e (sshHost g) (sshUser g) w of
        (sshReady, w1) \<Rightarrow>
          if \<not> sshReady
          then (Threw (''SSH not reachable on '' @ showHost (sshHost g) @ '' after 60s''), w1)
          else (case sshExecRaw e (sshHost g) (sshUser g) (killSessionCmd g) w1 of
            (killed, w2) \<Rightarrow>
              (case sshExecRaw e (sshHost g) (sshUser g) (truncateCmd (logPath g)) w2 of
                (t1, w3) \<Rightarrow>
                  (case sshExecRaw e (sshHost g) (sshUser g) (truncateCmd (startLogPath g)) w3 of
                    (t2, w4) \<Rightarrow>
                      (case sshExecRaw e (sshHost g) (sshUser g) (newSessionCmd g) w4 of
                        (startResult, w5) \<Rightarrow>
                          if code startResult \<noteq> 0
                          then (Threw (''Failed to start tmux session: '' @ stderr startResult), w5)
                          else
                            let readyTimeout = 900;
                                readyStart = clock w5;
                                readyDeadline = readyStart + readyTimeout * 1000
                            in (case readyLoop e g readyDeadline w5 of
                                  (Inl msg, w6) \<Rightarrow> (Threw msg, w6)
                                | (Inr serverReady', w6) \<Rightarrow>
                                    if \<not> serverReady'
                                    then (case sshExecRaw e (sshHost g) (sshUser g)
                                                 (catStartLogCmd g) w6 of
                                      (startOutput, w7) \<Rightarrow>
                                        (Threw (''Minecraft server did not become ready within '' @
                                                showNat readyTimeout @ ''s. start.sh output:'' @
                                                [CHR 0x0A] @ stdout startOutput), w7))
                                    else writeResource ''server'' (serverName g)
                                           (no_data\<lparr>success := Some True, ip := Some (sshHost g),
                                              serverReady := Some True,
                                              timestamp := Some (clock w6)\<rparr>) w6)))))))"

subsection \<open>collectMetrics\<close>

definition metricsData :: "bool \<Rightarrow> number \<Rightarrow> number nullable \<Rightarrow> string list \<Rightarrow> server_data" where
  "metricsData running on mx ps =
     no_data\<lparr>serverRunning := Some running, online := Some (Val on), max' := Some mx,
       players := Some ps\<rparr>"

text \<open>The four values computed from the match (or from its absence).\<close>

definition metricsReport :: "string \<Rightarrow> server_data" where
  "metricsReport newLines =
     (let match = matchPlayerList newLines;
          online' = (case match of Some (m1, m2, m3) \<Rightarrow> parseInt m1 | None \<Rightarrow> Number 0);
          mx = (case match of Some (m1, m2, m3) \<Rightarrow> Val (parseInt m2) | None \<Rightarrow> Null);
          playerStr = (case match of Some (m1, m2, m3) \<Rightarrow> trim m3 | None \<Rightarrow> []);
          players' = (if playerStr = [] then []
                      else filter (\<lambda>p. p \<noteq> []) (map trim (split_on (CHR '','') playerStr)))
      in metricsData True online' mx players')"

definition collectMetrics :: "env \<Rightarrow> global_args \<Rightarrow> world \<Rightarrow> outcome \<times> world" where
  "collectMetrics e g w =
     (if \<not> isValidSshHost e (sshHost g)
      then writeResource ''metrics'' (serverName g)
             ((metricsData False (Number 0) Null [])\<lparr>timestamp := Some (clock w)\<rparr>) w
      else (case sshExecRaw e (sshHost g) (sshUser g) ''echo ok'' w of
        (reachable, w1) \<Rightarrow>
          if code reachable \<noteq> 0
          then writeResource ''metrics'' (serverName g)
                 ((metricsData False (Number 0) Null [])\<lparr>timestamp := Some (clock w1)\<rparr>) w1
          else (case sshExecRaw e (sshHost g) (sshUser g) (hasSessionCmd g) w1 of
            (tmuxCheck, w2) \<Rightarrow>
              if trim (stdout tmuxCheck) \<noteq> ''exists''
              then (case writeMetricsFiles e (sshHost g) (sshUser g) ''minecraft'' (serverName g)
                           (metricsData False (Number 0) Null []) w2 of
                      (Some err, w3) \<Rightarrow> (Threw err, w3)
                    | (None, w3) \<Rightarrow>
                        writeResource ''metrics'' (serverName g)
                          ((metricsData False (Number 0) Null [])\<lparr>timestamp := Some (clock w3)\<rparr>)
                          w3)
              else (case sshExecRaw e (sshHost g) (sshUser g) (wcCmd g) w2 of
                (wcResult, w3) \<Rightarrow>
                  let lineCount = orZero (parseInt (trim (stdout wcResult)))
                  in (case sshExecRaw e (sshHost g) (sshUser g) (sendKeysCmd g ''list'') w3 of
                    (sent, w4) \<Rightarrow>
                      (case sshExecRaw e (sshHost g) (sshUser g) (tailCmd g lineCount)
                              (sleep e 2000 w4) of
                        (tailResult, w6) \<Rightarrow>
                          (case writeMetricsFiles e (sshHost g) (sshUser g) ''minecraft''
                                  (serverName g) (metricsReport (stdout tailResult)) w6 of
                             (Some err, w7) \<Rightarrow> (Threw err, w7)
                           | (None, w7) \<Rightarrow>
                               writeResource ''metrics'' (serverName g)
                                 ((metricsReport (stdout tailResult))
                                    \<lparr>timestamp := Some (clock w7)\<rparr>) w7)))))))"

section \<open>Notions used in the statements\<close>

text \<open>\<open>trimEnd\<close> is the second half of \<open>trim\<close>: the white space at the end is removed.\<close>

definition trimEnd :: "string \<Rightarrow> string" where
  "trimEnd s = rev (dropWhile isWhiteSpace (rev s))"

text \<open>
  The pattern as the specification words it: \<open>s\<close> starts with
  \<open>There are n of a max of m players online:rest\<close>, where \<open>n\<close> and \<open>m\<close> are non-empty
  runs of digits and \<open>rest\<close> is the remainder of the line.
\<close>

definition playerListAt :: "string \<Rightarrow> string \<Rightarrow> string \<Rightarrow> string \<Rightarrow> bool" where
  "playerListAt s n m rest =
     (let p = ''There are '' @ n @ '' of a max of '' @ m @ '' players online:'' @ rest
      in n \<noteq> [] \<and> list_all isDigit n \<and> m \<noteq> [] \<and> list_all isDigit m \<and>
         list_all (\<lambda>c. \<not> isLineTerminator c) rest \<and>
         take (length p) s = p \<and>
         (case drop (length p) s of [] \<Rightarrow> True | c # r \<Rightarrow> isLineTerminator c))"

text \<open>A log tail with the answer to \<open>list\<close>, and one without.\<close>

definition demoLog :: string where
  "demoLog = ''[12:00:00] [Server thread/INFO]: There are 2 of a max of 20 players online: Alice, Bob''"

definition demoNoise :: string where
  "demoNoise = ''Unknown command. Type /help for help''"

text \<open>The effects a run added to the record: those of \<open>w'\<close> after those of \<open>w\<close>.\<close>

definition newEvents :: "world \<Rightarrow> world \<Rightarrow> event list" where
  "newEvents w w' = drop (length (trace w)) (trace w')"

text \<open>
  A clock on which only the timed sleeps take time: remote commands return at once and
  every timer fires exactly when asked.
\<close>

definition idealClock :: "env \<Rightarrow> bool" where
  "idealClock e \<longleftrightarrow>
     (\<forall>w h u c. latency e w h u c = 0) \<and> (\<forall>w ms. oversleep e w ms = 0)"

text \<open>The answers, trimmed, that the pid-liveness checks of a run received, in order.\<close>

fun pollAnswers :: "event list \<Rightarrow> string list" where
  "pollAnswers [] = []"
| "pollAnswers (Exec h u c r # evs) =
     (if take 8 c = ''kill -0 '' then trim (stdout r) # pollAnswers evs else pollAnswers evs)"
| "pollAnswers (Sleep ms # evs) = pollAnswers evs"
| "pollAnswers (WaitForSsh h u b # evs) = pollAnswers evs"
| "pollAnswers (WriteMetricsFiles h u gt n d # evs) = pollAnswers evs"
| "pollAnswers (WriteResource s n d # evs) = pollAnswers evs"

subsection \<open>Sample hosts\<close>

definition demoArgs :: global_args where
  "demoArgs = \<lparr>sshHost = Val ''10.0.0.5'', sshUser = ''root'', tmuxSession = ''mons'',
     serverDir = ''~/mons'', startScript = ''./startserver.sh'',
     logPath = ''~/mons/logs/latest.log'', serverName = ''server''\<rparr>"

definition demoWorld :: world where
  "demoWorld = \<lparr>clock = 0, trace = []\<rparr>"

text \<open>One possible \<open>isValidSshHost\<close>: a host is given and is not the empty string.\<close>

definition isConfigured :: "string nullable \<Rightarrow> bool" where
  "isConfigured h = (case h of Null \<Rightarrow> False | Val s \<Rightarrow> s \<noteq> [])"

definition out :: "string \<Rightarrow> exec_result" where
  "out s = \<lparr>code = 0, stdout = s @ [CHR 0x0A], stderr = []\<rparr>"

text \<open>
  A host on which the server runs in its session. The log shows the ready marker from
  \<open>readyAt\<close> on, the session is gone from \<open>sessionGoneAt\<close> on, the java process from
  \<open>pidGoneAt\<close> on (milliseconds on the clock), and \<open>listAnswer\<close> is what the log gains
  after \<open>list\<close>.
\<close>

definition serverRespond ::
  "nat \<Rightarrow> nat \<Rightarrow> nat \<Rightarrow> string \<Rightarrow> world \<Rightarrow> string nullable \<Rightarrow> string \<Rightarrow> string \<Rightarrow> exec_result" where
  "serverRespond readyAt sessionGoneAt pidGoneAt listAnswer w h u c =
     (if c = ''echo ok'' then out ''ok''
      else if c = hasSessionCmd demoArgs
        then out (if clock w < sessionGoneAt then ''exists'' else ''missing'')
      else if c = aliveCheckCmd demoArgs
        then out (if clock w < sessionGoneAt then ''alive'' else ''dead'')
      else if c = readyCheckCmd demoArgs
        then out (if clock w < readyAt then ''WAITING'' else ''READY'')
      else if c = killCheckCmd ''4242''
        then out (if clock w < pidGoneAt then ''running'' else ''stopped'')
      else if c = javaCheckCmd then out ''running''
      else if c = javaPidCmd then out ''4242''
      else if c = wcCmd demoArgs then out ''41''
      else if c = tailCmd demoArgs (Number 41) then out listAnswer
      else if c = catStartLogCmd demoArgs then out ''Starting server''
      else out [])"

definition demoServer :: "nat \<Rightarrow> nat \<Rightarrow> nat \<Rightarrow> string \<Rightarrow> env" where
  "demoServer readyAt sessionGoneAt pidGoneAt listAnswer =
     \<lparr>isValidSshHost = isConfigured,
      respond = serverRespond readyAt sessionGoneAt pidGoneAt listAnswer,
      latency = (\<lambda>w h u c. 0), oversleep = (\<lambda>w ms. 0),
      sshWait = (\<lambda>w h u. (True, 0)), metricsWrite = (\<lambda>w d. (None, 0))\<rparr>"

text \<open>A host that cannot be reached, and a reachable host with no session and no java.\<close>

definition downHost :: env where
  "downHost =
     \<lparr>isValidSshHost = isConfigured,
      respond = (\<lambda>w h u c. \<lparr>code = 255, stdout = [], stderr = ''connection timed out''\<rparr>),
      latency = (\<lambda>w h u c. 10000), oversleep = (\<lambda>w ms. 0),
      sshWait = (\<lambda>w h u. (False, 60000)), metricsWrite = (\<lambda>w d. (None, 0))\<rparr>"

definition idleHost :: env where
  "idleHost =
     \<lparr>isValidSshHost = isConfigured,
      respond = (\<lambda>w h u c. if c = ''echo ok'' then out ''ok''
                           else if c = hasSessionCmd demoArgs then out ''missing''
                           else out ''stopped''),
      latency = (\<lambda>w h u c. 40), oversleep = (\<lambda>w ms. 1),
      sshWait = (\<lambda>w h u. (True, 500)), metricsWrite = (\<lambda>w d. (None, 0))\<rparr>"

text \<open>The sample configuration with no host.\<close>

definition noHostArgs :: global_args where
  "noHostArgs = demoArgs\<lparr>sshHost := Null\<rparr>"

text \<open>A log tail whose answer to \<open>list\<close> names a count above \<open>2^53\<close>.\<close>

definition manyLog :: string where
  "manyLog = ''There are 9007199254740993 of a max of 20 players online: Alice''"

text \<open>
  The sample host with a log of as many lines as \<open>wc\<close> prints in \<open>count\<close>, and the sample
  host on which every liveness check of the pid takes 44 seconds.
\<close>

definition longLogHost :: "string \<Rightarrow> env" where
  "longLogHost count =
     \<lparr>isValidSshHost = isConfigured,
      respond = (\<lambda>w h u c. if c = ''echo ok'' then out ''ok''
                           else if c = hasSessionCmd demoArgs then out ''exists''
                           else if c = wcCmd demoArgs then out count
                           else out []),
      latency = (\<lambda>w h u c. 0), oversleep = (\<lambda>w ms. 0),
      sshWait = (\<lambda>w h u. (True, 0)), metricsWrite = (\<lambda>w d. (None, 0))\<rparr>"


section \<open>Trimming and splitting\<close>

lemma dropLiteral_Some: "dropLiteral l s = Some t \<longleftrightarrow> s = l @ t"
  by (induction l s rule: dropLiteral.induct) auto

lemma trimEnd_Cons:
  "rev (dropWhile P (rev (x # xs))) = (if \<forall>y\<in>set (x # xs). P y then [] else x # rev (dropWhile P (rev xs)))"
  by (auto simp: dropWhile_append)

lemma split_on_ne: "split_on c s \<noteq> []"
  by (induction s) (auto split: list.splits)

lemma split_on_none: "c \<notin> set s \<Longrightarrow> split_on c s = [s]"
  by (induction s) auto

lemma split_on_single: "split_on c s = [y] \<Longrightarrow> y = s"
proof (induction s arbitrary: y)
  case Nil
  then show ?case by simp
next
  case (Cons x xs)
  obtain z zs where sp: "split_on c xs = z # zs"
    using split_on_ne[of c xs] by (cases "split_on c xs") auto
  show ?case
  proof (cases "x = c")
    case True
    with Cons.prems sp show ?thesis by simp
  next
    case False
    with Cons.prems sp have "zs = []" "y = x # z" by auto
    with Cons.IH[of z] sp show ?thesis by simp
  qed
qed

lemma trim_alt: "trim s = trimEnd (dropWhile isWhiteSpace s)"
  by (simp add: trim_def trimEnd_def)

lemma trimEnd_simps:
  "trimEnd [] = []"
  "trimEnd (x # xs) = (if \<forall>y\<in>set (x # xs). isWhiteSpace y then [] else x # trimEnd xs)"
  unfolding trimEnd_def by (simp, rule trimEnd_Cons)

lemma trimEnd_all: "\<forall>y\<in>set s. isWhiteSpace y \<Longrightarrow> trimEnd s = []"
  by (cases s) (auto simp: trimEnd_simps)

lemma trimEnd_eq_Nil: "trimEnd s = [] \<longleftrightarrow> (\<forall>y\<in>set s. isWhiteSpace y)"
  by (cases s) (auto simp: trimEnd_simps)

lemma trimEnd_ws: "(\<forall>y\<in>set (trimEnd s). isWhiteSpace y) \<longleftrightarrow> (\<forall>y\<in>set s. isWhiteSpace y)"
  by (induction s) (auto simp: trimEnd_simps)

lemma trimEnd_idem: "trimEnd (trimEnd s) = trimEnd s"
  by (induction s) (auto simp: trimEnd_simps trimEnd_ws)

lemma trim_commute: "dropWhile isWhiteSpace (trimEnd s) = trimEnd (dropWhile isWhiteSpace s)"
proof (induction s)
  case Nil
  then show ?case by (simp add: trimEnd_simps)
next
  case (Cons x xs)
  show ?case
  proof (cases "\<forall>y\<in>set (x # xs). isWhiteSpace y")
    case True
    then have "dropWhile isWhiteSpace (x # xs) = []" by simp
    moreover have "trimEnd (x # xs) = []" using True by (simp add: trimEnd_simps)
    ultimately show ?thesis by (simp only: trimEnd_simps dropWhile.simps)
  next
    case False
    show ?thesis
    proof (cases "isWhiteSpace x")
      case True
      with False Cons show ?thesis by (auto simp: trimEnd_simps)
    next
      case nw: False
      then show ?thesis by (simp add: trimEnd_simps)
    qed
  qed
qed

lemma trim_trimEnd: "trim (trimEnd s) = trim s"
  by (simp add: trim_alt trim_commute trimEnd_idem)

lemma trim_dropWhile: "trim (dropWhile isWhiteSpace s) = trim s"
  by (simp add: trim_alt)

lemma trim_eq_Nil: "trim s = [] \<longleftrightarrow> (\<forall>y\<in>set s. isWhiteSpace y)"
  by (induction s) (auto simp: trim_alt trimEnd_eq_Nil)

lemma split_on_trimEnd:
  assumes "\<not> isWhiteSpace c"
  shows "split_on c (trimEnd s) = butlast (split_on c s) @ [trimEnd (last (split_on c s))]"
proof (induction s)
  case Nil
  then show ?case by (simp add: trimEnd_simps)
next
  case (Cons x xs)
  show ?case
  proof (cases "\<forall>y\<in>set (x # xs). isWhiteSpace y")
    case True
    then have "c \<notin> set (x # xs)" using assms by auto
    then have a: "split_on c (x # xs) = [x # xs]" by (rule split_on_none)
    have b: "trimEnd (x # xs) = []" using True by (simp add: trimEnd_simps)
    show ?thesis unfolding a by (simp add: b)
  next
    case False
    then have te: "trimEnd (x # xs) = x # trimEnd xs" by (simp add: trimEnd_simps)
    obtain y ys where sp: "split_on c xs = y # ys"
      using split_on_ne[of c xs] by (cases "split_on c xs") auto
    show ?thesis
    proof (cases "x = c")
      case True
      then show ?thesis using Cons sp te by (simp add: split_on_ne)
    next
      case xc: False
      show ?thesis
      proof (cases ys)
        case Nil
        have "y = xs" using sp Nil by (simp add: split_on_single)
        with False have "\<not> (\<forall>y\<in>set (x # y). isWhiteSpace y)" by simp
        then show ?thesis using Nil Cons.IH sp te xc by (simp add: trimEnd_simps)
      next
        case (Cons z zs)
        then show ?thesis using Cons.IH sp te xc by simp
      qed
    qed
  qed
qed

lemma split_on_dropWhile:
  assumes "\<not> isWhiteSpace c"
  shows "split_on c (dropWhile isWhiteSpace s) =
         dropWhile isWhiteSpace (hd (split_on c s)) # tl (split_on c s)"
proof (induction s)
  case Nil
  then show ?case by simp
next
  case (Cons x xs)
  obtain y ys where sp: "split_on c xs = y # ys"
    using split_on_ne[of c xs] by (cases "split_on c xs") auto
  show ?case
  proof (cases "isWhiteSpace x")
    case True
    then have "x \<noteq> c" using assms by auto
    then show ?thesis using True Cons sp by simp
  next
    case False
    then show ?thesis using sp by simp
  qed
qed

lemma map_butlast_last:
  "l \<noteq> [] \<Longrightarrow> (\<And>x. f (g x) = f x) \<Longrightarrow> map f (butlast l @ [g (last l)]) = map f l"
  by (induction l) auto

lemma map_trim_split_trim:
  assumes "\<not> isWhiteSpace c"
  shows "map trim (split_on c (trim s)) = map trim (split_on c s)"
proof -
  have ne: "split_on c t \<noteq> []" for t by (rule split_on_ne)
  have "map trim (split_on c (trimEnd (dropWhile isWhiteSpace s))) =
        map trim (split_on c (dropWhile isWhiteSpace s))"
    unfolding split_on_trimEnd[OF assms]
    by (rule map_butlast_last) (simp_all add: ne trim_trimEnd)
  also have "\<dots> = map trim (split_on c s)"
  proof -
    obtain y ys where sp: "split_on c s = y # ys"
      using ne[of s] by (cases "split_on c s") auto
    show ?thesis unfolding split_on_dropWhile[OF assms] sp
      by (simp add: trim_dropWhile)
  qed
  finally show ?thesis unfolding trim_alt[of s, symmetric] .
qed

lemma comma_not_ws: "\<not> isWhiteSpace (CHR '','')"
  by (simp add: isWhiteSpace_def)

lemma parsePlayers_eq:
  "parsePlayers m3 = filter (\<lambda>p. p \<noteq> []) (map trim (split_on (CHR '','') m3))"
proof (cases "trim m3 = []")
  case True
  then have ws: "\<forall>y\<in>set m3. isWhiteSpace y" by (simp add: trim_eq_Nil)
  then have "CHR '','' \<notin> set m3" using comma_not_ws by blast
  then have sp: "split_on (CHR '','') m3 = [m3]" by (rule split_on_none)
  show ?thesis unfolding parsePlayers_def Let_def sp using True by simp
next
  case False
  from map_trim_split_trim[OF comma_not_ws, of m3] have eq:
    "map trim (split_on (CHR '','') (trim m3)) = map trim (split_on (CHR '','') m3)" .
  show ?thesis unfolding parsePlayers_def Let_def eq using False by simp
qed

section \<open>The player-list pattern matches what the specification describes\<close>

lemma space_not_digit: "\<not> isDigit (CHR '' '')"
  by (simp add: isDigit_def)

lemma takeWhile_digits:
  "list_all isDigit n \<Longrightarrow> takeWhile isDigit (n @ CHR '' '' # t) = n"
  by (induction n) (simp_all add: space_not_digit)

lemma dropWhile_digits:
  "list_all isDigit n \<Longrightarrow> dropWhile isDigit (n @ CHR '' '' # t) = CHR '' '' # t"
  by (induction n) (simp_all add: space_not_digit)

lemma takeWhile_rest:
  "list_all (\<lambda>c. \<not> isLineTerminator c) rest \<Longrightarrow>
   (case post of [] \<Rightarrow> True | c # r \<Rightarrow> isLineTerminator c) \<Longrightarrow>
   takeWhile (\<lambda>c. \<not> isLineTerminator c) (rest @ post) = rest"
  by (induction rest) (auto split: list.splits)

lemma matchAt_intro:
  assumes "playerListAt s n m rest"
  shows "matchAt s = Some (n, m, rest)"
proof -
  define post where "post = drop (length (''There are '' @ n @ '' of a max of '' @ m @ '' players online:'' @ rest)) s"
  from assms have n: "n \<noteq> []" "list_all isDigit n" and m: "m \<noteq> []" "list_all isDigit m"
    and r: "list_all (\<lambda>c. \<not> isLineTerminator c) rest"
    and tk: "take (length (''There are '' @ n @ '' of a max of '' @ m @ '' players online:'' @ rest)) s
             = ''There are '' @ n @ '' of a max of '' @ m @ '' players online:'' @ rest"
    and p: "(case post of [] \<Rightarrow> True | c # r \<Rightarrow> isLineTerminator c)"
    unfolding playerListAt_def Let_def post_def by blast+
  have "s = take (length (''There are '' @ n @ '' of a max of '' @ m @ '' players online:'' @ rest)) s @ post"
    unfolding post_def by simp
  then have s: "s = ''There are '' @ n @ '' of a max of '' @ m @ '' players online:'' @ rest @ post"
    unfolding tk by simp
  have d1: "dropLiteral ''There are '' s = Some (n @ '' of a max of '' @ m @ '' players online:'' @ rest @ post)"
    by (subst s) simp
  have t1: "takeWhile isDigit (n @ '' of a max of '' @ m @ '' players online:'' @ rest @ post) = n"
    using takeWhile_digits[OF n(2)] by simp
  have w1: "dropWhile isDigit (n @ '' of a max of '' @ m @ '' players online:'' @ rest @ post)
            = '' of a max of '' @ m @ '' players online:'' @ rest @ post"
    using dropWhile_digits[OF n(2)] by simp
  have d2: "dropLiteral '' of a max of '' ('' of a max of '' @ m @ '' players online:'' @ rest @ post)
            = Some (m @ '' players online:'' @ rest @ post)"
    by simp
  have t2: "takeWhile isDigit (m @ '' players online:'' @ rest @ post) = m"
    using takeWhile_digits[OF m(2)] by simp
  have w2: "dropWhile isDigit (m @ '' players online:'' @ rest @ post) = '' players online:'' @ rest @ post"
    using dropWhile_digits[OF m(2)] by simp
  have d3: "dropLiteral '' players online:'' ('' players online:'' @ rest @ post) = Some (rest @ post)"
    by simp
  show ?thesis
    unfolding matchAt_def d1 option.case t1 w1 d2 t2 w2 d3
    using n(1) m(1) takeWhile_rest[OF r p] by simp
qed

lemma dropWhile_head:
  "(case dropWhile (\<lambda>c. \<not> Q c) xs of [] \<Rightarrow> True | c # r \<Rightarrow> Q c)"
  by (induction xs) auto

lemma matchAt_elim:
  assumes "matchAt s = Some (n, m, rest)"
  shows "playerListAt s n m rest"
proof -
  from assms obtain s1 where d1: "dropLiteral ''There are '' s = Some s1"
    unfolding matchAt_def by (auto split: option.splits)
  with assms have n: "takeWhile isDigit s1 \<noteq> []"
    unfolding matchAt_def by (auto split: option.splits if_splits)
  from assms d1 n obtain s2 where d2: "dropLiteral '' of a max of '' (dropWhile isDigit s1) = Some s2"
    unfolding matchAt_def by (auto split: option.splits)
  with assms d1 n have m: "takeWhile isDigit s2 \<noteq> []"
    unfolding matchAt_def by (auto split: option.splits if_splits)
  from assms d1 n d2 m obtain s3 where d3: "dropLiteral '' players online:'' (dropWhile isDigit s2) = Some s3"
    unfolding matchAt_def by (auto split: option.splits)
  from assms d1 n d2 m d3 have eqs: "n = takeWhile isDigit s1" "m = takeWhile isDigit s2"
    "rest = takeWhile (\<lambda>c. \<not> isLineTerminator c) s3"
    unfolding matchAt_def by auto
  define post where "post = dropWhile (\<lambda>c. \<not> isLineTerminator c) s3"
  have e1: "s = ''There are '' @ s1" using d1 by (simp only: dropLiteral_Some)
  have e2: "dropWhile isDigit s1 = '' of a max of '' @ s2" using d2 by (simp only: dropLiteral_Some)
  have e3: "dropWhile isDigit s2 = '' players online:'' @ s3" using d3 by (simp only: dropLiteral_Some)
  have "s1 = n @ dropWhile isDigit s1" unfolding eqs by simp
  then have f1: "s1 = n @ '' of a max of '' @ s2" unfolding e2 .
  have "s2 = m @ dropWhile isDigit s2" unfolding eqs by simp
  then have f2: "s2 = m @ '' players online:'' @ s3" unfolding e3 .
  have f3: "s3 = rest @ post" unfolding eqs post_def by simp
  define p where "p = ''There are '' @ n @ '' of a max of '' @ m @ '' players online:'' @ rest"
  have s: "s = p @ post"
    unfolding p_def using e1 f1 f2 f3 by simp
  have p: "(case post of [] \<Rightarrow> True | c # r \<Rightarrow> isLineTerminator c)"
    unfolding post_def by (rule dropWhile_head)
  have dn: "list_all isDigit n" "list_all isDigit m" "list_all (\<lambda>c. \<not> isLineTerminator c) rest"
    unfolding eqs list_all_iff by (auto dest: set_takeWhileD)
  have tk: "take (length p) s = p" unfolding s by simp
  have dr: "drop (length p) s = post" unfolding s by simp
  show ?thesis
    unfolding playerListAt_def Let_def p_def[symmetric] tk dr
    using n m dn p eqs by simp
qed

lemma matchPlayerList_first:
  "k \<le> length s \<Longrightarrow> matchAt (drop k s) = Some r \<Longrightarrow> (\<forall>i<k. matchAt (drop i s) = None)
   \<Longrightarrow> matchPlayerList s = Some r"
proof (induction s arbitrary: k)
  case Nil
  then show ?case by simp
next
  case (Cons x xs)
  show ?case
  proof (cases k)
    case 0
    with Cons.prems show ?thesis by simp
  next
    case (Suc k')
    with Cons.prems have a: "matchAt (x # xs) = None" by auto
    have "\<forall>i<k'. matchAt (drop i xs) = None"
    proof (intro allI impI)
      fix i assume "i < k'"
      then have "Suc i < k" using Suc by simp
      with Cons.prems(3) have "matchAt (drop (Suc i) (x # xs)) = None" by blast
      then show "matchAt (drop i xs) = None" by simp
    qed
    with Cons.IH[of k'] Cons.prems Suc have "matchPlayerList xs = Some r" by simp
    with a show ?thesis by simp
  qed
qed

lemma matchPlayerList_none:
  "(\<forall>i\<le>length s. matchAt (drop i s) = None) \<Longrightarrow> matchPlayerList s = None"
proof (induction s)
  case Nil
  then show ?case by simp
next
  case (Cons x xs)
  from Cons.prems have a: "matchAt (x # xs) = None" by (metis drop0 le0)
  have "\<forall>i\<le>length xs. matchAt (drop i xs) = None"
  proof (intro allI impI)
    fix i assume "i \<le> length xs"
    then have "Suc i \<le> length (x # xs)" by simp
    with Cons.prems have "matchAt (drop (Suc i) (x # xs)) = None" by blast
    then show "matchAt (drop i xs) = None" by simp
  qed
  with Cons.IH a show ?case by simp
qed

lemma digit_plain: "isDigit c \<Longrightarrow> \<not> isWhiteSpace c \<and> c \<noteq> CHR ''+'' \<and> c \<noteq> CHR ''-''"
  by (auto simp: isDigit_def isWhiteSpace_def)

lemma parseInt_digits:
  assumes "n \<noteq> []" "list_all isDigit n"
  shows "parseInt n = asNumber (digitsValue n)"
proof -
  from assms obtain c r where n: "n = c # r" by (cases n) auto
  with assms have c: "isDigit c" by simp
  have tw: "takeWhile isDigit n = n" using assms(2) by (simp add: list_all_iff)
  have dw: "dropWhile isWhiteSpace n = n" using digit_plain[OF c] n by simp
  show ?thesis
    unfolding parseInt_def dw Let_def using digit_plain[OF c] tw assms(1) n by simp
qed

lemma matchPlayerList_None_D:
  "matchPlayerList s = None \<Longrightarrow> matchAt (drop i s) = None"
proof (induction s arbitrary: i)
  case Nil
  then show ?case by simp
next
  case (Cons x xs)
  then have a: "matchAt (x # xs) = None" and b: "matchPlayerList xs = None"
    by (auto split: option.splits)
  show ?case
  proof (cases i)
    case 0
    with a show ?thesis by simp
  next
    case (Suc j)
    with Cons.IH[OF b, of j] show ?thesis by simp
  qed
qed

lemma status_returns: "\<exists>d. fst (status e g w) = Returned d"
  unfolding status_def writeResource_def Let_def
  by (auto split: prod.splits)

section \<open>Numbers below \<open>2^53\<close>\<close>

lemma roundDouble_small: "v < 2 ^ 53 \<Longrightarrow> roundDouble v = Some v"
proof -
  assume a: "v < 2 ^ 53"
  then have e: "excessBits v = 0" by (subst excessBits.simps) simp
  have "v < (2::int) ^ 1024" using a by (rule less_trans) simp
  then show ?thesis unfolding roundDouble_def e Let_def by simp
qed

lemma asNumber_small: "v < 2 ^ 53 \<Longrightarrow> asNumber v = Number v"
  by (simp add: asNumber_def roundDouble_small)

lemma digitsValue_foldl:
  "0 \<le> a \<Longrightarrow> list_all isDigit ds \<Longrightarrow>
   0 \<le> foldl (\<lambda>a c. 10 * a + ((of_char c :: int) - 48)) a ds"
proof (induction ds arbitrary: a)
  case Nil
  then show ?case by simp
next
  case (Cons c ds)
  from Cons.prems(2) have "48 \<le> (of_char c :: nat)" by (simp add: isDigit_def)
  then have "48 \<le> (of_char c :: int)" by (metis of_char_of of_nat_le_iff of_nat_numeral of_nat_of_char)
  with Cons.prems(1) have "0 \<le> 10 * a + ((of_char c :: int) - 48)" by simp
  with Cons.IH[of "10 * a + ((of_char c :: int) - 48)"] Cons.prems(2) show ?case by simp
qed

lemma digitsValue_nonneg: "list_all isDigit ds \<Longrightarrow> 0 \<le> digitsValue ds"
  unfolding digitsValue_def by (rule digitsValue_foldl) simp_all

lemma orZero_Number: "orZero (Number i) = Number i"
  by (simp add: orZero_def)

lemma plusOne_small: "0 \<le> i \<Longrightarrow> i + 1 < 2 ^ 53 \<Longrightarrow> plusOne (Number i) = Number (i + 1)"
  by (simp add: plusOne_def asNumber_small)

lemma showNumber_small: "0 \<le> i \<Longrightarrow> i < 2 ^ 53 \<Longrightarrow> showNumber (Number i) = digitsOf i"
  by (simp add: showNumber_def showDouble_def)

text \<open>
  The text after \<open>tail -n +\<close> when \<open>wc\<close> printed a count below \<open>2^53 - 1\<close>: the digits of
  the count plus one; and when it printed no number: \<open>1\<close>.
\<close>

lemma tail_from_count:
  assumes "c \<noteq> []" "list_all isDigit c" "digitsValue c + 1 < 2 ^ 53"
  shows "showNumber (plusOne (orZero (parseInt c))) = digitsOf (digitsValue c + 1)"
proof -
  have nn: "0 \<le> digitsValue c" using assms(2) by (rule digitsValue_nonneg)
  from assms(3) have lt: "digitsValue c < 2 ^ 53" by simp
  have "parseInt c = Number (digitsValue c)"
    unfolding parseInt_digits[OF assms(1,2)] using lt by (rule asNumber_small)
  then show ?thesis
    using nn assms(3) by (simp add: orZero_Number plusOne_small showNumber_small)
qed

lemma digitsOf_1: "digitsOf 1 = ''1''"
  by code_simp

lemma tail_from_nothing:
  assumes "parseInt c = NaN"
  shows "showNumber (plusOne (orZero (parseInt c))) = ''1''"
proof -
  have "plusOne (orZero NaN) = Number 1"
    by (simp add: orZero_def plusOne_def asNumber_small)
  then show ?thesis unfolding assms by (simp add: showNumber_small digitsOf_1)
qed

text \<open>Readings of the two definitions above \<open>2^53\<close>, as the engine gives them.\<close>

lemma parseInt_rounds: "parseInt ''9007199254740993'' = Number 9007199254740992"
  by code_simp

lemma tail_text_exponent:
  "showNumber (plusOne (orZero (parseInt ''1000000000000000000000''))) = ''1e+21''"
  by code_simp

lemma tail_text_absorbed:
  "showNumber (plusOne (orZero (parseInt ''9007199254740992''))) = ''9007199254740992''"
  by code_simp

section \<open>Effects of the primitive operations\<close>

lemmas cmd_defs = hasSessionCmd_def sendKeysCmd_def killSessionCmd_def javaCheckCmd_def javaPidCmd_def
  killCheckCmd_def wcCmd_def tailCmd_def startLogPath_def truncateCmd_def newSessionCmd_def
  readyCheckCmd_def aliveCheckCmd_def catStartLogCmd_def

lemmas demo_defs = demoServer_def serverRespond_def demoArgs_def demoWorld_def out_def
  isConfigured_def trim_def isWhiteSpace_def

lemma sshExecRaw_simps [simp]:
  "fst (sshExecRaw e h u c w) = respond e w h u c"
  "trace (snd (sshExecRaw e h u c w)) = trace w @ [Exec h u c (respond e w h u c)]"
  "clock (snd (sshExecRaw e h u c w)) = clock w + latency e w h u c"
  by (simp_all add: sshExecRaw_def Let_def)

lemma sleep_simps [simp]:
  "trace (sleep e ms w) = trace w @ [Sleep ms]"
  "clock (sleep e ms w) = clock w + ms + oversleep e w ms"
  by (simp_all add: sleep_def)

lemma writeResource_simps [simp]:
  "fst (writeResource s n d w) = Returned d"
  "trace (snd (writeResource s n d w)) = trace w @ [WriteResource s n d]"
  "clock (snd (writeResource s n d w)) = clock w"
  by (simp_all add: writeResource_def)

lemma newEvents_append [simp]: "trace w' = trace w @ evs \<Longrightarrow> newEvents w w' = evs"
  by (simp add: newEvents_def)

lemma newEvents_same [simp]: "newEvents w w = []"
  by (simp add: newEvents_def)

text \<open>One remote command: its result and the world after it, under names.\<close>

lemma exec_step:
  obtains r w' where "sshExecRaw e h u c w = (r, w')"
    and "trace w' = trace w @ [Exec h u c r]"
    and "clock w' = clock w + latency e w h u c"
    and "r = respond e w h u c"
proof -
  have "sshExecRaw e h u c w = (respond e w h u c, snd (sshExecRaw e h u c w))"
    by (simp add: sshExecRaw_def Let_def)
  moreover have "trace (snd (sshExecRaw e h u c w)) = trace w @ [Exec h u c (respond e w h u c)]"
    by simp
  moreover have "clock (snd (sshExecRaw e h u c w)) = clock w + latency e w h u c"
    by simp
  ultimately show thesis
    using that[of "respond e w h u c" "snd (sshExecRaw e h u c w)"] by blast
qed

lemma exec_in_list:
  "Exec h u c r \<in> set [Exec h1 u1 c1 r1] \<longleftrightarrow> h = h1 \<and> u = u1 \<and> c = c1 \<and> r = r1"
  by auto
section \<open>The query operations step by step\<close>

lemma demo_valid: "isValidSshHost (demoServer a b c l) (sshHost demoArgs)"
  by (simp add: demoServer_def demoArgs_def isConfigured_def)

lemma demo_respond:
  "respond (demoServer a b c l) w h u ''echo ok'' = out ''ok''"
  "respond (demoServer a b c l) w h u (hasSessionCmd demoArgs) =
     out (if clock w < b then ''exists'' else ''missing'')"
  "respond (demoServer a b c l) w h u (aliveCheckCmd demoArgs) =
     out (if clock w < b then ''alive'' else ''dead'')"
  "respond (demoServer a b c l) w h u (readyCheckCmd demoArgs) =
     out (if clock w < a then ''WAITING'' else ''READY'')"
  "respond (demoServer a b c l) w h u (killCheckCmd ''4242'') =
     out (if clock w < c then ''running'' else ''stopped'')"
  "respond (demoServer a b c l) w h u javaCheckCmd = out ''running''"
  "respond (demoServer a b c l) w h u javaPidCmd = out ''4242''"
  "respond (demoServer a b c l) w h u (wcCmd demoArgs) = out ''41''"
  "respond (demoServer a b c l) w h u (tailCmd demoArgs (Number 41)) = out l"
  "respond (demoServer a b c l) w h u (catStartLogCmd demoArgs) = out ''Starting server''"
  "respond (demoServer a b c l) w h u (sendKeysCmd demoArgs keys) = out []"
  "respond (demoServer a b c l) w h u (killSessionCmd demoArgs) = out []"
  "respond (demoServer a b c l) w h u (newSessionCmd demoArgs) = out []"
  "respond (demoServer a b c l) w h u (truncateCmd p) = out []"
  by (simp_all add: demoServer_def serverRespond_def demoArgs_def cmd_defs)

lemma demo_clock:
  "latency (demoServer a b c l) w h u cmd = 0"
  "oversleep (demoServer a b c l) w ms = 0"
  "sshWait (demoServer a b c l) w h u = (True, 0)"
  "metricsWrite (demoServer a b c l) w d = (None, 0)"
  by (simp_all add: demoServer_def)

lemma trim_out: 
  "trim (stdout (out ''ok'')) = ''ok''"
  "trim (stdout (out ''exists'')) = ''exists''"
  "trim (stdout (out ''missing'')) = ''missing''"
  "trim (stdout (out ''alive'')) = ''alive''"
  "trim (stdout (out ''dead'')) = ''dead''"
  "trim (stdout (out ''WAITING'')) = ''WAITING''"
  "trim (stdout (out ''READY'')) = ''READY''"
  "trim (stdout (out ''running'')) = ''running''"
  "trim (stdout (out ''stopped'')) = ''stopped''"
  "trim (stdout (out ''4242'')) = ''4242''"
  "trim (stdout (out ''41'')) = ''41''"
  "code (out s) = 0"
  by (simp_all add: out_def trim_def isWhiteSpace_def)

lemma status_unfold:
  obtains r0 w1 r1 w2 rw w3 rl w4 rt w6 where
    "r0 = respond e w (sshHost g) (sshUser g) ''echo ok''"
    "trace w1 = trace w @ [Exec (sshHost g) (sshUser g) ''echo ok'' r0]"
    "clock w1 = clock w + latency e w (sshHost g) (sshUser g) ''echo ok''"
    "r1 = respond e w1 (sshHost g) (sshUser g) (hasSessionCmd g)"
    "trace w2 = trace w1 @ [Exec (sshHost g) (sshUser g) (hasSessionCmd g) r1]"
    "clock w2 = clock w1 + latency e w1 (sshHost g) (sshUser g) (hasSessionCmd g)"
    "rw = respond e w2 (sshHost g) (sshUser g) (wcCmd g)"
    "trace w3 = trace w2 @ [Exec (sshHost g) (sshUser g) (wcCmd g) rw]"
    "clock w3 = clock w2 + latency e w2 (sshHost g) (sshUser g) (wcCmd g)"
    "rl = respond e w3 (sshHost g) (sshUser g) (sendKeysCmd g ''list'')"
    "trace w4 = trace w3 @ [Exec (sshHost g) (sshUser g) (sendKeysCmd g ''list'') rl]"
    "clock w4 = clock w3 + latency e w3 (sshHost g) (sshUser g) (sendKeysCmd g ''list'')"
    "rt = respond e (sleep e 2000 w4) (sshHost g) (sshUser g)
            (tailCmd g (orZero (parseInt (trim (stdout rw)))))"
    "trace w6 = trace w4 @ [Sleep 2000, Exec (sshHost g) (sshUser g)
            (tailCmd g (orZero (parseInt (trim (stdout rw))))) rt]"
    "clock w6 = clock (sleep e 2000 w4) + latency e (sleep e 2000 w4) (sshHost g) (sshUser g)
            (tailCmd g (orZero (parseInt (trim (stdout rw)))))"
    "status e g w =
     (if \<not> isValidSshHost e (sshHost g)
        then writeResource ''server'' (serverName g) (respNotRunning w) w
      else if code r0 \<noteq> 0
        then writeResource ''server'' (serverName g) (respNotRunning w1) w1
      else if trim (stdout r1) \<noteq> ''exists''
        then writeResource ''server'' (serverName g) (respNotRunning w2) w2
      else writeResource ''server'' (serverName g) (statusReport (stdout rt) (clock w6)) w6)"
    "collectMetrics e g w =
     (if \<not> isValidSshHost e (sshHost g)
        then writeResource ''metrics'' (serverName g)
               ((metricsData False (Number 0) Null [])\<lparr>timestamp := Some (clock w)\<rparr>) w
      else if code r0 \<noteq> 0
        then writeResource ''metrics'' (serverName g)
               ((metricsData False (Number 0) Null [])\<lparr>timestamp := Some (clock w1)\<rparr>) w1
      else if trim (stdout r1) \<noteq> ''exists''
        then (case writeMetricsFiles e (sshHost g) (sshUser g) ''minecraft'' (serverName g)
                     (metricsData False (Number 0) Null []) w2 of
                (Some err, w3) \<Rightarrow> (Threw err, w3)
              | (None, w3) \<Rightarrow>
                  writeResource ''metrics'' (serverName g)
                    ((metricsData False (Number 0) Null [])\<lparr>timestamp := Some (clock w3)\<rparr>) w3)
      else (case writeMetricsFiles e (sshHost g) (sshUser g) ''minecraft'' (serverName g)
                     (metricsReport (stdout rt)) w6 of
                (Some err, w7) \<Rightarrow> (Threw err, w7)
              | (None, w7) \<Rightarrow>
                  writeResource ''metrics'' (serverName g)
                    ((metricsReport (stdout rt))\<lparr>timestamp := Some (clock w7)\<rparr>) w7))"
proof -
  let ?H = "sshHost g" and ?U = "sshUser g"
  obtain r0 w1 where s0: "sshExecRaw e ?H ?U ''echo ok'' w = (r0, w1)"
    and t0: "trace w1 = trace w @ [Exec ?H ?U ''echo ok'' r0]"
    and c0: "clock w1 = clock w + latency e w ?H ?U ''echo ok''"
    and v0: "r0 = respond e w ?H ?U ''echo ok''"
    by (rule exec_step)
  obtain r1 w2 where s1: "sshExecRaw e ?H ?U (hasSessionCmd g) w1 = (r1, w2)"
    and t1: "trace w2 = trace w1 @ [Exec ?H ?U (hasSessionCmd g) r1]"
    and c1: "clock w2 = clock w1 + latency e w1 ?H ?U (hasSessionCmd g)"
    and v1: "r1 = respond e w1 ?H ?U (hasSessionCmd g)"
    by (rule exec_step)
  obtain rw w3 where s2: "sshExecRaw e ?H ?U (wcCmd g) w2 = (rw, w3)"
    and t2: "trace w3 = trace w2 @ [Exec ?H ?U (wcCmd g) rw]"
    and c2: "clock w3 = clock w2 + latency e w2 ?H ?U (wcCmd g)"
    and v2: "rw = respond e w2 ?H ?U (wcCmd g)"
    by (rule exec_step)
  obtain rl w4 where s3: "sshExecRaw e ?H ?U (sendKeysCmd g ''list'') w3 = (rl, w4)"
    and t3: "trace w4 = trace w3 @ [Exec ?H ?U (sendKeysCmd g ''list'') rl]"
    and c3: "clock w4 = clock w3 + latency e w3 ?H ?U (sendKeysCmd g ''list'')"
    and v3: "rl = respond e w3 ?H ?U (sendKeysCmd g ''list'')"
    by (rule exec_step)
  define lc where "lc = orZero (parseInt (trim (stdout rw)))"
  obtain rt w6 where s4: "sshExecRaw e ?H ?U (tailCmd g lc) (sleep e 2000 w4) = (rt, w6)"
    and t4: "trace w6 = trace (sleep e 2000 w4) @ [Exec ?H ?U (tailCmd g lc) rt]"
    and c4: "clock w6 = clock (sleep e 2000 w4) + latency e (sleep e 2000 w4) ?H ?U (tailCmd g lc)"
    and v4: "rt = respond e (sleep e 2000 w4) ?H ?U (tailCmd g lc)"
    by (rule exec_step)
  have t4': "trace w6 = trace w4 @ [Sleep 2000, Exec ?H ?U (tailCmd g lc) rt]"
    using t4 by simp
  have st: "status e g w =
     (if \<not> isValidSshHost e ?H then writeResource ''server'' (serverName g) (respNotRunning w) w
      else if code r0 \<noteq> 0 then writeResource ''server'' (serverName g) (respNotRunning w1) w1
      else if trim (stdout r1) \<noteq> ''exists''
        then writeResource ''server'' (serverName g) (respNotRunning w2) w2
      else writeResource ''server'' (serverName g) (statusReport (stdout rt) (clock w6)) w6)"
    unfolding status_def s0 prod.case s1 s2 Let_def lc_def[symmetric] s3 s4 by (rule refl)
  have cm: "collectMetrics e g w =
     (if \<not> isValidSshHost e (sshHost g)
        then writeResource ''metrics'' (serverName g)
               ((metricsData False (Number 0) Null [])\<lparr>timestamp := Some (clock w)\<rparr>) w
      else if code r0 \<noteq> 0
        then writeResource ''metrics'' (serverName g)
               ((metricsData False (Number 0) Null [])\<lparr>timestamp := Some (clock w1)\<rparr>) w1
      else if trim (stdout r1) \<noteq> ''exists''
        then (case writeMetricsFiles e (sshHost g) (sshUser g) ''minecraft'' (serverName g)
                     (metricsData False (Number 0) Null []) w2 of
                (Some err, w3) \<Rightarrow> (Threw err, w3)
              | (None, w3) \<Rightarrow>
                  writeResource ''metrics'' (serverName g)
                    ((metricsData False (Number 0) Null [])\<lparr>timestamp := Some (clock w3)\<rparr>) w3)
      else (case writeMetricsFiles e (sshHost g) (sshUser g) ''minecraft'' (serverName g)
                     (metricsReport (stdout rt)) w6 of
                (Some err, w7) \<Rightarrow> (Threw err, w7)
              | (None, w7) \<Rightarrow>
                  writeResource ''metrics'' (serverName g)
                    ((metricsReport (stdout rt))\<lparr>timestamp := Some (clock w7)\<rparr>) w7))"
    unfolding collectMetrics_def s0 prod.case s1 s2 Let_def lc_def[symmetric] s3 s4 by (rule refl)
  show thesis
    by (rule that[OF v0 t0 c0 v1 t1 c1 v2 t2 c2 v3 t3 c3 v4[unfolded lc_def] t4'[unfolded lc_def]
          c4[unfolded lc_def] st cm])
qed
lemma metrics_then_write:
  obtains rest where
    "trace (snd (case writeMetricsFiles e h u gt n d w of
                   (Some err, w3) \<Rightarrow> (Threw err, w3)
                 | (None, w3) \<Rightarrow> writeResource s n (d\<lparr>timestamp := Some (clock w3)\<rparr>) w3))
       = trace w @ WriteMetricsFiles h u gt n d # rest"
    "\<forall>ev\<in>set rest. \<exists>d'. ev = WriteResource s n d'"
    "\<forall>d'. fst (case writeMetricsFiles e h u gt n d w of
                   (Some err, w3) \<Rightarrow> (Threw err, w3)
                 | (None, w3) \<Rightarrow> writeResource s n (d\<lparr>timestamp := Some (clock w3)\<rparr>) w3)
             = Returned d' \<longrightarrow> (\<exists>t. d' = d\<lparr>timestamp := Some t\<rparr>)"
    "\<forall>err. fst (case writeMetricsFiles e h u gt n d w of
                   (Some err, w3) \<Rightarrow> (Threw err, w3)
                 | (None, w3) \<Rightarrow> writeResource s n (d\<lparr>timestamp := Some (clock w3)\<rparr>) w3)
             = Threw err \<longrightarrow> fst (metricsWrite e w d) = Some err"
proof (cases "metricsWrite e w d")
  case (Pair err ms)
  show thesis
  proof (cases err)
    case None
    with Pair show thesis
      by (intro that[of "[WriteResource s n (d\<lparr>timestamp := Some (clock w + ms)\<rparr>)]"])
         (auto simp: writeMetricsFiles_def writeResource_def)
  next
    case (Some m)
    with Pair show thesis
      by (intro that[of "[]"]) (auto simp: writeMetricsFiles_def)
  qed
qed

lemma metricsReport_unmatched:
  "matchPlayerList t = None \<Longrightarrow> metricsReport t = metricsData True (Number 0) Null []"
  by (simp add: metricsReport_def)

lemma statusReport_unmatched:
  "matchPlayerList t = None \<Longrightarrow>
   statusReport t now = no_data\<lparr>serverRunning := Some True, online := Some Null,
     max' := Some Null, players := Some [], timestamp := Some now\<rparr>"
  by (simp add: statusReport_def)

lemma list_cmd_distinct:
  "sendKeysCmd g ''list'' \<noteq> ''echo ok''" "sendKeysCmd g ''list'' \<noteq> hasSessionCmd g"
  "tailCmd g n \<noteq> ''echo ok''" "tailCmd g n \<noteq> hasSessionCmd g" "tailCmd g n \<noteq> wcCmd g"
  "tailCmd g n \<noteq> sendKeysCmd g keys"
  by (simp_all add: cmd_defs)

text \<open>The effects of \<open>status\<close>, branch by branch.\<close>

lemma status_events:
  obtains
    (gate) "newEvents w (snd (status e g w)) =
              [WriteResource ''server'' (serverName g) (respNotRunning w)]"
  | (unreachable) r0 d where "newEvents w (snd (status e g w)) =
              [Exec (sshHost g) (sshUser g) ''echo ok'' r0, WriteResource ''server'' (serverName g) d]"
  | (missing) r0 r1 d where "newEvents w (snd (status e g w)) =
              [Exec (sshHost g) (sshUser g) ''echo ok'' r0,
               Exec (sshHost g) (sshUser g) (hasSessionCmd g) r1,
               WriteResource ''server'' (serverName g) d]"
  | (query) r0 r1 rw rl rt where "newEvents w (snd (status e g w)) =
              [Exec (sshHost g) (sshUser g) ''echo ok'' r0,
               Exec (sshHost g) (sshUser g) (hasSessionCmd g) r1,
               Exec (sshHost g) (sshUser g) (wcCmd g) rw,
               Exec (sshHost g) (sshUser g) (sendKeysCmd g ''list'') rl,
               Sleep 2000,
               Exec (sshHost g) (sshUser g) (tailCmd g (orZero (parseInt (trim (stdout rw))))) rt,
               WriteResource ''server'' (serverName g)
                 (statusReport (stdout rt) (clock (snd (status e g w))))]"
          "fst (status e g w) = Returned (statusReport (stdout rt) (clock (snd (status e g w))))"
proof -
  obtain r0 w1 r1 w2 rw w3 rl w4 rt w6 where
    v0: "r0 = respond e w (sshHost g) (sshUser g) ''echo ok''"
    and t0: "trace w1 = trace w @ [Exec (sshHost g) (sshUser g) ''echo ok'' r0]"
    and c0: "clock w1 = clock w + latency e w (sshHost g) (sshUser g) ''echo ok''"
    and v1: "r1 = respond e w1 (sshHost g) (sshUser g) (hasSessionCmd g)"
    and t1: "trace w2 = trace w1 @ [Exec (sshHost g) (sshUser g) (hasSessionCmd g) r1]"
    and c1: "clock w2 = clock w1 + latency e w1 (sshHost g) (sshUser g) (hasSessionCmd g)"
    and v2: "rw = respond e w2 (sshHost g) (sshUser g) (wcCmd g)"
    and t2: "trace w3 = trace w2 @ [Exec (sshHost g) (sshUser g) (wcCmd g) rw]"
    and c2: "clock w3 = clock w2 + latency e w2 (sshHost g) (sshUser g) (wcCmd g)"
    and v3: "rl = respond e w3 (sshHost g) (sshUser g) (sendKeysCmd g ''list'')"
    and t3: "trace w4 = trace w3 @ [Exec (sshHost g) (sshUser g) (sendKeysCmd g ''list'') rl]"
    and c3: "clock w4 = clock w3 + latency e w3 (sshHost g) (sshUser g) (sendKeysCmd g ''list'')"
    and v4: "rt = respond e (sleep e 2000 w4) (sshHost g) (sshUser g)
            (tailCmd g (orZero (parseInt (trim (stdout rw)))))"
    and t4: "trace w6 = trace w4 @ [Sleep 2000, Exec (sshHost g) (sshUser g)
            (tailCmd g (orZero (parseInt (trim (stdout rw))))) rt]"
    and c4: "clock w6 = clock (sleep e 2000 w4) + latency e (sleep e 2000 w4) (sshHost g) (sshUser g)
            (tailCmd g (orZero (parseInt (trim (stdout rw)))))"
    and st: "status e g w =
     (if \<not> isValidSshHost e (sshHost g)
        then writeResource ''server'' (serverName g) (respNotRunning w) w
      else if code r0 \<noteq> 0
        then writeResource ''server'' (serverName g) (respNotRunning w1) w1
      else if trim (stdout r1) \<noteq> ''exists''
        then writeResource ''server'' (serverName g) (respNotRunning w2) w2
      else writeResource ''server'' (serverName g) (statusReport (stdout rt) (clock w6)) w6)"
    and cm: "collectMetrics e g w =
     (if \<not> isValidSshHost e (sshHost g)
        then writeResource ''metrics'' (serverName g)
               ((metricsData False (Number 0) Null [])\<lparr>timestamp := Some (clock w)\<rparr>) w
      else if code r0 \<noteq> 0
        then writeResource ''metrics'' (serverName g)
               ((metricsData False (Number 0) Null [])\<lparr>timestamp := Some (clock w1)\<rparr>) w1
      else if trim (stdout r1) \<noteq> ''exists''
        then (case writeMetricsFiles e (sshHost g) (sshUser g) ''minecraft'' (serverName g)
                     (metricsData False (Number 0) Null []) w2 of
                (Some err, w3) \<Rightarrow> (Threw err, w3)
              | (None, w3) \<Rightarrow>
                  writeResource ''metrics'' (serverName g)
                    ((metricsData False (Number 0) Null [])\<lparr>timestamp := Some (clock w3)\<rparr>) w3)
      else (case writeMetricsFiles e (sshHost g) (sshUser g) ''minecraft'' (serverName g)
                     (metricsReport (stdout rt)) w6 of
                (Some err, w7) \<Rightarrow> (Threw err, w7)
              | (None, w7) \<Rightarrow>
                  writeResource ''metrics'' (serverName g)
                    ((metricsReport (stdout rt))\<lparr>timestamp := Some (clock w7)\<rparr>) w7))"
    by (rule status_unfold)
  note t = t0 t1 t2 t3 t4
  consider (a) "\<not> isValidSshHost e (sshHost g)"
    | (b) "isValidSshHost e (sshHost g)" "code r0 \<noteq> 0"
    | (c) "isValidSshHost e (sshHost g)" "code r0 = 0" "trim (stdout r1) \<noteq> ''exists''"
    | (d) "isValidSshHost e (sshHost g)" "code r0 = 0" "trim (stdout r1) = ''exists''"
    by blast
  then show thesis
  proof cases
    case a
    then have "status e g w = writeResource ''server'' (serverName g) (respNotRunning w) w"
      unfolding st by simp
    then show thesis by (intro gate newEvents_append) simp
  next
    case b
    then have "status e g w = writeResource ''server'' (serverName g) (respNotRunning w1) w1"
      unfolding st by simp
    then show thesis by (intro unreachable newEvents_append) (simp add: t)
  next
    case c
    then have "status e g w = writeResource ''server'' (serverName g) (respNotRunning w2) w2"
      unfolding st by simp
    then show thesis by (intro missing newEvents_append) (simp add: t)
  next
    case d
    then have r: "status e g w =
       writeResource ''server'' (serverName g) (statusReport (stdout rt) (clock w6)) w6"
      unfolding st by simp
    show thesis
      by (rule query[of r0 r1 rw rl rt]) (simp_all add: r t newEvents_append)
  qed
qed
text \<open>The effects of \<open>collectMetrics\<close>, branch by branch.\<close>

lemma collectMetrics_events:
  obtains
    (gate) d where "newEvents w (snd (collectMetrics e g w)) =
              [WriteResource ''metrics'' (serverName g) d]"
  | (unreachable) r0 d where "newEvents w (snd (collectMetrics e g w)) =
              [Exec (sshHost g) (sshUser g) ''echo ok'' r0, WriteResource ''metrics'' (serverName g) d]"
  | (missing) r0 r1 rest where "newEvents w (snd (collectMetrics e g w)) =
              [Exec (sshHost g) (sshUser g) ''echo ok'' r0,
               Exec (sshHost g) (sshUser g) (hasSessionCmd g) r1,
               WriteMetricsFiles (sshHost g) (sshUser g) ''minecraft'' (serverName g)
                 (metricsData False (Number 0) Null [])] @ rest"
          "\<forall>ev\<in>set rest. \<exists>d. ev = WriteResource ''metrics'' (serverName g) d"
  | (query) r0 r1 rw rl rt rest w6 where "newEvents w (snd (collectMetrics e g w)) =
              [Exec (sshHost g) (sshUser g) ''echo ok'' r0,
               Exec (sshHost g) (sshUser g) (hasSessionCmd g) r1,
               Exec (sshHost g) (sshUser g) (wcCmd g) rw,
               Exec (sshHost g) (sshUser g) (sendKeysCmd g ''list'') rl,
               Sleep 2000,
               Exec (sshHost g) (sshUser g) (tailCmd g (orZero (parseInt (trim (stdout rw))))) rt,
               WriteMetricsFiles (sshHost g) (sshUser g) ''minecraft'' (serverName g)
                 (metricsReport (stdout rt))] @ rest"
          "\<forall>ev\<in>set rest. \<exists>d. ev = WriteResource ''metrics'' (serverName g) d"
          "\<forall>d'. fst (collectMetrics e g w) = Returned d' \<longrightarrow>
                (\<exists>t. d' = (metricsReport (stdout rt))\<lparr>timestamp := Some t\<rparr>)"
          "\<forall>err. fst (collectMetrics e g w) = Threw err \<longrightarrow>
                fst (metricsWrite e w6 (metricsReport (stdout rt))) = Some err"
proof -
  obtain r0 w1 r1 w2 rw w3 rl w4 rt w6 where
    v0: "r0 = respond e w (sshHost g) (sshUser g) ''echo ok''"
    and t0: "trace w1 = trace w @ [Exec (sshHost g) (sshUser g) ''echo ok'' r0]"
    and c0: "clock w1 = clock w + latency e w (sshHost g) (sshUser g) ''echo ok''"
    and v1: "r1 = respond e w1 (sshHost g) (sshUser g) (hasSessionCmd g)"
    and t1: "trace w2 = trace w1 @ [Exec (sshHost g) (sshUser g) (hasSessionCmd g) r1]"
    and c1: "clock w2 = clock w1 + latency e w1 (sshHost g) (sshUser g) (hasSessionCmd g)"
    and v2: "rw = respond e w2 (sshHost g) (sshUser g) (wcCmd g)"
    and t2: "trace w3 = trace w2 @ [Exec (sshHost g) (sshUser g) (wcCmd g) rw]"
    and c2: "clock w3 = clock w2 + latency e w2 (sshHost g) (sshUser g) (wcCmd g)"
    and v3: "rl = respond e w3 (sshHost g) (sshUser g) (sendKeysCmd g ''list'')"
    and t3: "trace w4 = trace w3 @ [Exec (sshHost g) (sshUser g) (sendKeysCmd g ''list'') rl]"
    and c3: "clock w4 = clock w3 + latency e w3 (sshHost g) (sshUser g) (sendKeysCmd g ''list'')"
    and v4: "rt = respond e (sleep e 2000 w4) (sshHost g) (sshUser g)
            (tailCmd g (orZero (parseInt (trim (stdout rw)))))"
    and t4: "trace w6 = trace w4 @ [Sleep 2000, Exec (sshHost g) (sshUser g)
            (tailCmd g (orZero (parseInt (trim (stdout rw))))) rt]"
    and c4: "clock w6 = clock (sleep e 2000 w4) + latency e (sleep e 2000 w4) (sshHost g) (sshUser g)
            (tailCmd g (orZero (parseInt (trim (stdout rw)))))"
    and st: "status e g w =
     (if \<not> isValidSshHost e (sshHost g)
        then writeResource ''server'' (serverName g) (respNotRunning w) w
      else if code r0 \<noteq> 0
        then writeResource ''server'' (serverName g) (respNotRunning w1) w1
      else if trim (stdout r1) \<noteq> ''exists''
        then writeResource ''server'' (serverName g) (respNotRunning w2) w2
      else writeResource ''server'' (serverName g) (statusReport (stdout rt) (clock w6)) w6)"
    and cm: "collectMetrics e g w =
     (if \<not> isValidSshHost e (sshHost g)
        then writeResource ''metrics'' (serverName g)
               ((metricsData False (Number 0) Null [])\<lparr>timestamp := Some (clock w)\<rparr>) w
      else if code r0 \<noteq> 0
        then writeResource ''metrics'' (serverName g)
               ((metricsData False (Number 0) Null [])\<lparr>timestamp := Some (clock w1)\<rparr>) w1
      else if trim (stdout r1) \<noteq> ''exists''
        then (case writeMetricsFiles e (sshHost g) (sshUser g) ''minecraft'' (serverName g)
                     (metricsData False (Number 0) Null []) w2 of
                (Some err, w3) \<Rightarrow> (Threw err, w3)
              | (None, w3) \<Rightarrow>
                  writeResource ''metrics'' (serverName g)
                    ((metricsData False (Number 0) Null [])\<lparr>timestamp := Some (clock w3)\<rparr>) w3)
      else (case writeMetricsFiles e (sshHost g) (sshUser g) ''minecraft'' (serverName g)
                     (metricsReport (stdout rt)) w6 of
                (Some err, w7) \<Rightarrow> (Threw err, w7)
              | (None, w7) \<Rightarrow>
                  writeResource ''metrics'' (serverName g)
                    ((metricsReport (stdout rt))\<lparr>timestamp := Some (clock w7)\<rparr>) w7))"
    by (rule status_unfold)
  note t = t0 t1 t2 t3 t4
  consider (a) "\<not> isValidSshHost e (sshHost g)"
    | (b) "isValidSshHost e (sshHost g)" "code r0 \<noteq> 0"
    | (c) "isValidSshHost e (sshHost g)" "code r0 = 0" "trim (stdout r1) \<noteq> ''exists''"
    | (d) "isValidSshHost e (sshHost g)" "code r0 = 0" "trim (stdout r1) = ''exists''"
    by blast
  then show thesis
  proof cases
    case a
    then have "collectMetrics e g w = writeResource ''metrics'' (serverName g)
               ((metricsData False (Number 0) Null [])\<lparr>timestamp := Some (clock w)\<rparr>) w"
      unfolding cm by simp
    then show thesis by (intro gate newEvents_append) simp
  next
    case b
    then have "collectMetrics e g w = writeResource ''metrics'' (serverName g)
               ((metricsData False (Number 0) Null [])\<lparr>timestamp := Some (clock w1)\<rparr>) w1"
      unfolding cm by simp
    then show thesis by (intro unreachable newEvents_append) (simp add: t)
  next
    case c
    then have r: "collectMetrics e g w =
        (case writeMetricsFiles e (sshHost g) (sshUser g) ''minecraft'' (serverName g)
                     (metricsData False (Number 0) Null []) w2 of
                (Some err, w3) \<Rightarrow> (Threw err, w3)
              | (None, w3) \<Rightarrow>
                  writeResource ''metrics'' (serverName g)
                    ((metricsData False (Number 0) Null [])\<lparr>timestamp := Some (clock w3)\<rparr>) w3)"
      unfolding cm by simp
    obtain rest where m: "trace (snd (collectMetrics e g w)) = trace w2 @
        WriteMetricsFiles (sshHost g) (sshUser g) ''minecraft'' (serverName g)
          (metricsData False (Number 0) Null []) # rest"
      and w: "\<forall>ev\<in>set rest. \<exists>d. ev = WriteResource ''metrics'' (serverName g) d"
      unfolding r by (rule metrics_then_write)
    show thesis
      by (rule missing[of r0 r1 rest]) (simp_all add: m t w newEvents_append)
  next
    case d
    then have r: "collectMetrics e g w =
        (case writeMetricsFiles e (sshHost g) (sshUser g) ''minecraft'' (serverName g)
                     (metricsReport (stdout rt)) w6 of
                (Some err, w7) \<Rightarrow> (Threw err, w7)
              | (None, w7) \<Rightarrow>
                  writeResource ''metrics'' (serverName g)
                    ((metricsReport (stdout rt))\<lparr>timestamp := Some (clock w7)\<rparr>) w7)"
      unfolding cm by simp
    obtain rest where m: "trace (snd (collectMetrics e g w)) = trace w6 @
        WriteMetricsFiles (sshHost g) (sshUser g) ''minecraft'' (serverName g)
          (metricsReport (stdout rt)) # rest"
      and w: "\<forall>ev\<in>set rest. \<exists>d. ev = WriteResource ''metrics'' (serverName g) d"
      and ok: "\<forall>d'. fst (collectMetrics e g w) = Returned d' \<longrightarrow>
                (\<exists>t. d' = (metricsReport (stdout rt))\<lparr>timestamp := Some t\<rparr>)"
      and bad: "\<forall>err. fst (collectMetrics e g w) = Threw err \<longrightarrow>
                fst (metricsWrite e w6 (metricsReport (stdout rt))) = Some err"
      unfolding r by (rule metrics_then_write)
    show thesis
      by (rule query[of r0 r1 rw rl rt rest w6]) (simp_all add: m t w ok bad newEvents_append)
  qed
qed
section \<open>A query on the sample host\<close>

lemma parse_41: "orZero (parseInt ''41'') = Number 41"
  by code_simp

lemma demo_query:
  assumes "0 < b"
  shows "newEvents demoWorld (snd (status (demoServer a b c l) demoArgs demoWorld)) =
           [Exec (sshHost demoArgs) (sshUser demoArgs) ''echo ok'' (out ''ok''),
            Exec (sshHost demoArgs) (sshUser demoArgs) (hasSessionCmd demoArgs) (out ''exists''),
            Exec (sshHost demoArgs) (sshUser demoArgs) (wcCmd demoArgs) (out ''41''),
            Exec (sshHost demoArgs) (sshUser demoArgs) (sendKeysCmd demoArgs ''list'') (out []),
            Sleep 2000,
            Exec (sshHost demoArgs) (sshUser demoArgs) (tailCmd demoArgs (Number 41)) (out l),
            WriteResource ''server'' (serverName demoArgs) (statusReport (stdout (out l)) 2000)]"
    and "fst (status (demoServer a b c l) demoArgs demoWorld) =
           Returned (statusReport (stdout (out l)) 2000)"
    and "newEvents demoWorld (snd (collectMetrics (demoServer a b c l) demoArgs demoWorld)) =
           [Exec (sshHost demoArgs) (sshUser demoArgs) ''echo ok'' (out ''ok''),
            Exec (sshHost demoArgs) (sshUser demoArgs) (hasSessionCmd demoArgs) (out ''exists''),
            Exec (sshHost demoArgs) (sshUser demoArgs) (wcCmd demoArgs) (out ''41''),
            Exec (sshHost demoArgs) (sshUser demoArgs) (sendKeysCmd demoArgs ''list'') (out []),
            Sleep 2000,
            Exec (sshHost demoArgs) (sshUser demoArgs) (tailCmd demoArgs (Number 41)) (out l),
            WriteMetricsFiles (sshHost demoArgs) (sshUser demoArgs) ''minecraft''
              (serverName demoArgs) (metricsReport (stdout (out l))),
            WriteResource ''metrics'' (serverName demoArgs)
              ((metricsReport (stdout (out l)))\<lparr>timestamp := Some 2000\<rparr>)]"
    and "fst (collectMetrics (demoServer a b c l) demoArgs demoWorld) =
           Returned ((metricsReport (stdout (out l)))\<lparr>timestamp := Some 2000\<rparr>)"
proof -
  obtain r0 w1 r1 w2 rw w3 rl w4 rt w6 where
    v0: "r0 = respond (demoServer a b c l) demoWorld (sshHost demoArgs) (sshUser demoArgs) ''echo ok''"
    and t0: "trace w1 = trace demoWorld @ [Exec (sshHost demoArgs) (sshUser demoArgs) ''echo ok'' r0]"
    and c0: "clock w1 = clock demoWorld + latency (demoServer a b c l) demoWorld (sshHost demoArgs) (sshUser demoArgs) ''echo ok''"
    and v1: "r1 = respond (demoServer a b c l) w1 (sshHost demoArgs) (sshUser demoArgs) (hasSessionCmd demoArgs)"
    and t1: "trace w2 = trace w1 @ [Exec (sshHost demoArgs) (sshUser demoArgs) (hasSessionCmd demoArgs) r1]"
    and c1: "clock w2 = clock w1 + latency (demoServer a b c l) w1 (sshHost demoArgs) (sshUser demoArgs) (hasSessionCmd demoArgs)"
    and v2: "rw = respond (demoServer a b c l) w2 (sshHost demoArgs) (sshUser demoArgs) (wcCmd demoArgs)"
    and t2: "trace w3 = trace w2 @ [Exec (sshHost demoArgs) (sshUser demoArgs) (wcCmd demoArgs) rw]"
    and c2: "clock w3 = clock w2 + latency (demoServer a b c l) w2 (sshHost demoArgs) (sshUser demoArgs) (wcCmd demoArgs)"
    and v3: "rl = respond (demoServer a b c l) w3 (sshHost demoArgs) (sshUser demoArgs) (sendKeysCmd demoArgs ''list'')"
    and t3: "trace w4 = trace w3 @ [Exec (sshHost demoArgs) (sshUser demoArgs) (sendKeysCmd demoArgs ''list'') rl]"
    and c3: "clock w4 = clock w3 + latency (demoServer a b c l) w3 (sshHost demoArgs) (sshUser demoArgs) (sendKeysCmd demoArgs ''list'')"
    and v4: "rt = respond (demoServer a b c l) (sleep (demoServer a b c l) 2000 w4) (sshHost demoArgs) (sshUser demoArgs)
            (tailCmd demoArgs (orZero (parseInt (trim (stdout rw)))))"
    and t4: "trace w6 = trace w4 @ [Sleep 2000, Exec (sshHost demoArgs) (sshUser demoArgs)
            (tailCmd demoArgs (orZero (parseInt (trim (stdout rw))))) rt]"
    and c4: "clock w6 = clock (sleep (demoServer a b c l) 2000 w4) + latency (demoServer a b c l) (sleep (demoServer a b c l) 2000 w4) (sshHost demoArgs) (sshUser demoArgs)
            (tailCmd demoArgs (orZero (parseInt (trim (stdout rw)))))"
    and st: "status (demoServer a b c l) demoArgs demoWorld =
     (if \<not> isValidSshHost (demoServer a b c l) (sshHost demoArgs)
        then writeResource ''server'' (serverName demoArgs) (respNotRunning demoWorld) demoWorld
      else if code r0 \<noteq> 0
        then writeResource ''server'' (serverName demoArgs) (respNotRunning w1) w1
      else if trim (stdout r1) \<noteq> ''exists''
        then writeResource ''server'' (serverName demoArgs) (respNotRunning w2) w2
      else writeResource ''server'' (serverName demoArgs) (statusReport (stdout rt) (clock w6)) w6)"
    and cm: "collectMetrics (demoServer a b c l) demoArgs demoWorld =
     (if \<not> isValidSshHost (demoServer a b c l) (sshHost demoArgs)
        then writeResource ''metrics'' (serverName demoArgs)
               ((metricsData False (Number 0) Null [])\<lparr>timestamp := Some (clock demoWorld)\<rparr>) demoWorld
      else if code r0 \<noteq> 0
        then writeResource ''metrics'' (serverName demoArgs)
               ((metricsData False (Number 0) Null [])\<lparr>timestamp := Some (clock w1)\<rparr>) w1
      else if trim (stdout r1) \<noteq> ''exists''
        then (case writeMetricsFiles (demoServer a b c l) (sshHost demoArgs) (sshUser demoArgs) ''minecraft'' (serverName demoArgs)
                     (metricsData False (Number 0) Null []) w2 of
                (Some err, w3) \<Rightarrow> (Threw err, w3)
              | (None, w3) \<Rightarrow>
                  writeResource ''metrics'' (serverName demoArgs)
                    ((metricsData False (Number 0) Null [])\<lparr>timestamp := Some (clock w3)\<rparr>) w3)
      else (case writeMetricsFiles (demoServer a b c l) (sshHost demoArgs) (sshUser demoArgs) ''minecraft'' (serverName demoArgs)
                     (metricsReport (stdout rt)) w6 of
                (Some err, w7) \<Rightarrow> (Threw err, w7)
              | (None, w7) \<Rightarrow>
                  writeResource ''metrics'' (serverName demoArgs)
                    ((metricsReport (stdout rt))\<lparr>timestamp := Some (clock w7)\<rparr>) w7))"
    by (rule status_unfold[of "demoServer a b c l" demoWorld demoArgs])
  note t = t0 t1 t2 t3 t4
  have k0: "clock demoWorld = 0" "trace demoWorld = []" by (simp_all add: demoWorld_def)
  have r0: "r0 = out ''ok''" unfolding v0 by (rule demo_respond)
  have k1: "clock w1 = 0" unfolding c0 by (simp add: demo_clock k0)
  have r1: "r1 = out ''exists''" unfolding v1 using assms by (simp add: demo_respond k1)
  have k2: "clock w2 = 0" unfolding c1 by (simp add: demo_clock k1)
  have rw: "rw = out ''41''" unfolding v2 by (rule demo_respond)
  have lc: "orZero (parseInt (trim (stdout rw))) = Number 41" unfolding rw trim_out by (rule parse_41)
  have lc': "orZero (parseInt (trim (stdout (out ''41'')))) = Number 41" unfolding trim_out by (rule parse_41)
  have k3: "clock w3 = 0" unfolding c2 by (simp add: demo_clock k2)
  have rl: "rl = out []" unfolding v3 by (rule demo_respond)
  have k4: "clock w4 = 0" unfolding c3 by (simp add: demo_clock k3)
  have rt: "rt = out l" unfolding v4 lc by (rule demo_respond)
  have k6: "clock w6 = 2000" unfolding c4 by (simp add: demo_clock k4)
  have tr: "trace w6 =
           [Exec (sshHost demoArgs) (sshUser demoArgs) ''echo ok'' (out ''ok''),
            Exec (sshHost demoArgs) (sshUser demoArgs) (hasSessionCmd demoArgs) (out ''exists''),
            Exec (sshHost demoArgs) (sshUser demoArgs) (wcCmd demoArgs) (out ''41''),
            Exec (sshHost demoArgs) (sshUser demoArgs) (sendKeysCmd demoArgs ''list'') (out []),
            Sleep 2000,
            Exec (sshHost demoArgs) (sshUser demoArgs) (tailCmd demoArgs (Number 41)) (out l)]"
    unfolding t4 t3 t2 t1 t0 lc k0 r0 r1 rw rl rt lc' by simp
  have st': "status (demoServer a b c l) demoArgs demoWorld =
      writeResource ''server'' (serverName demoArgs) (statusReport (stdout (out l)) 2000) w6"
    unfolding st r0 r1 rt k6 by (simp add: demo_valid trim_out)
  have mw: "writeMetricsFiles (demoServer a b c l) (sshHost demoArgs) (sshUser demoArgs)
       ''minecraft'' (serverName demoArgs) (metricsReport (stdout (out l))) w6 =
     (None, \<lparr>clock = 2000, trace = trace w6 @
        [WriteMetricsFiles (sshHost demoArgs) (sshUser demoArgs) ''minecraft''
           (serverName demoArgs) (metricsReport (stdout (out l)))]\<rparr>)"
    by (simp add: writeMetricsFiles_def demo_clock k6)
  have cm': "collectMetrics (demoServer a b c l) demoArgs demoWorld =
      writeResource ''metrics'' (serverName demoArgs)
        ((metricsReport (stdout (out l)))\<lparr>timestamp := Some 2000\<rparr>)
        \<lparr>clock = 2000, trace = trace w6 @
        [WriteMetricsFiles (sshHost demoArgs) (sshUser demoArgs) ''minecraft''
           (serverName demoArgs) (metricsReport (stdout (out l)))]\<rparr>"
    unfolding cm r0 r1 rt mw by (simp add: demo_valid trim_out)
  show "newEvents demoWorld (snd (status (demoServer a b c l) demoArgs demoWorld)) =
           [Exec (sshHost demoArgs) (sshUser demoArgs) ''echo ok'' (out ''ok''),
            Exec (sshHost demoArgs) (sshUser demoArgs) (hasSessionCmd demoArgs) (out ''exists''),
            Exec (sshHost demoArgs) (sshUser demoArgs) (wcCmd demoArgs) (out ''41''),
            Exec (sshHost demoArgs) (sshUser demoArgs) (sendKeysCmd demoArgs ''list'') (out []),
            Sleep 2000,
            Exec (sshHost demoArgs) (sshUser demoArgs) (tailCmd demoArgs (Number 41)) (out l),
            WriteResource ''server'' (serverName demoArgs) (statusReport (stdout (out l)) 2000)]"
    unfolding st' by (rule newEvents_append) (simp add: tr k0)
  show "fst (status (demoServer a b c l) demoArgs demoWorld) =
           Returned (statusReport (stdout (out l)) 2000)"
    unfolding st' by simp
  show "newEvents demoWorld (snd (collectMetrics (demoServer a b c l) demoArgs demoWorld)) =
           [Exec (sshHost demoArgs) (sshUser demoArgs) ''echo ok'' (out ''ok''),
            Exec (sshHost demoArgs) (sshUser demoArgs) (hasSessionCmd demoArgs) (out ''exists''),
            Exec (sshHost demoArgs) (sshUser demoArgs) (wcCmd demoArgs) (out ''41''),
            Exec (sshHost demoArgs) (sshUser demoArgs) (sendKeysCmd demoArgs ''list'') (out []),
            Sleep 2000,
            Exec (sshHost demoArgs) (sshUser demoArgs) (tailCmd demoArgs (Number 41)) (out l),
            WriteMetricsFiles (sshHost demoArgs) (sshUser demoArgs) ''minecraft''
              (serverName demoArgs) (metricsReport (stdout (out l))),
            WriteResource ''metrics'' (serverName demoArgs)
              ((metricsReport (stdout (out l)))\<lparr>timestamp := Some 2000\<rparr>)]"
    unfolding cm' by (rule newEvents_append) (simp add: tr k0)
  show "fst (collectMetrics (demoServer a b c l) demoArgs demoWorld) =
           Returned ((metricsReport (stdout (out l)))\<lparr>timestamp := Some 2000\<rparr>)"
    unfolding cm' by simp
qed
section \<open>Status parsing\<close>

text \<open>The run of \<open>status\<close> that reads the log tail returns the report on what it read.\<close>

lemma tail_text_distinct:
  "''tail -n +'' @ K @ '' '' @ p \<noteq> ''echo ok''"
  "''tail -n +'' @ K @ '' '' @ p \<noteq> hasSessionCmd g"
  "''tail -n +'' @ K @ '' '' @ p \<noteq> wcCmd g"
  "''tail -n +'' @ K @ '' '' @ p \<noteq> sendKeysCmd g keys"
  by (simp_all add: cmd_defs)

lemma status_reads_tail:
  assumes "Exec h u (''tail -n +'' @ K @ '' '' @ logPath g) rt \<in>
             set (newEvents w (snd (status e g w)))"
  shows "fst (status e g w) = Returned (statusReport (stdout rt) (clock (snd (status e g w))))"
proof (cases rule: status_events[of w e g])
  case gate
  with assms show ?thesis by simp
next
  case (unreachable r0 d)
  with assms tail_text_distinct show ?thesis by simp
next
  case (missing r0 r1 d)
  with assms tail_text_distinct show ?thesis by simp
next
  case (query r0 r1 rw rl rt')
  with assms tail_text_distinct have "rt' = rt" by auto
  with query(2) show ?thesis by simp
qed

lemma statusReport_time: "timestamp (statusReport t now) = Some now"
  unfolding statusReport_def by (simp split: option.splits prod.splits)

lemma statusReport_first:
  assumes "playerListAt (drop k t) n m rest"
    and "\<forall>i<k. \<forall>n' m' rest'. \<not> playerListAt (drop i t) n' m' rest'"
  shows "statusReport t now =
          no_data\<lparr>serverRunning := Some True,
            online := Some (Val (asNumber (digitsValue n))),
            max' := Some (Val (asNumber (digitsValue m))),
            players := Some (filter (\<lambda>p. p \<noteq> []) (map trim (split_on (CHR '','') rest))),
            timestamp := Some now\<rparr>"
proof -
  from assms(1) have at: "matchAt (drop k t) = Some (n, m, rest)" by (simp add: matchAt_intro)
  have "matchAt [] = None" by (simp add: matchAt_def)
  with at have "drop k t \<noteq> []" by auto
  then have k: "k \<le> length t" by simp
  have none: "\<forall>i<k. matchAt (drop i t) = None"
  proof (intro allI impI)
    fix i assume "i < k"
    with assms(2) have "\<forall>n' m' rest'. \<not> playerListAt (drop i t) n' m' rest'" by blast
    then show "matchAt (drop i t) = None"
      by (cases "matchAt (drop i t)") (auto dest: matchAt_elim)
  qed
  have mp: "matchPlayerList t = Some (n, m, rest)"
    by (rule matchPlayerList_first[OF k at none])
  from assms(1) have d: "n \<noteq> []" "list_all isDigit n" "m \<noteq> []" "list_all isDigit m"
    unfolding playerListAt_def Let_def by blast+
  show ?thesis
    unfolding statusReport_def mp
    by (simp add: parseInt_digits[OF d(1,2)] parseInt_digits[OF d(3,4)] parsePlayers_eq)
qed

lemma statusReport_nowhere:
  assumes "\<forall>i n' m' rest'. \<not> playerListAt (drop i t) n' m' rest'"
  shows "statusReport t now =
          no_data\<lparr>serverRunning := Some True, online := Some Null, max' := Some Null,
            players := Some [], timestamp := Some now\<rparr>"
proof -
  have "\<forall>i\<le>length t. matchAt (drop i t) = None"
  proof (intro allI impI)
    fix i
    from assms have "\<forall>n' m' rest'. \<not> playerListAt (drop i t) n' m' rest'" by blast
    then show "matchAt (drop i t) = None"
      by (cases "matchAt (drop i t)") (auto dest: matchAt_elim)
  qed
  then have "matchPlayerList t = None" by (rule matchPlayerList_none)
  then show ?thesis unfolding statusReport_def by simp
qed

text \<open>
  Claim C1 as stated fails when the count in the line is not a double: \<open>online\<close> and \<open>max\<close>
  are JavaScript numbers, and \<open>parseInt\<close> rounds. On the sample host below the answer to
  \<open>list\<close> is \<open>There are 9007199254740993 of a max of 20 players online: Alice\<close>, and
  \<open>status\<close> returns \<open>online = 9007199254740992\<close>.
\<close>

lemma manyLog_at:
  "playerListAt (drop 0 (stdout (out manyLog))) ''9007199254740993'' ''20'' '' Alice''"
  by code_simp

lemma manyLog_value: "digitsValue ''9007199254740993'' = 9007199254740993"
  by code_simp

lemma manyLog_report:
  "statusReport (stdout (out manyLog)) t =
     no_data\<lparr>serverRunning := Some True, online := Some (Val (Number 9007199254740992)),
       max' := Some (Val (Number 20)), players := Some [''Alice''], timestamp := Some t\<rparr>"
  by code_simp

theorem status_count_rounded_counterexample:
  "Exec (sshHost demoArgs) (sshUser demoArgs) ''tail -n +42 ~/mons/logs/latest.log'' (out manyLog)
     \<in> set (newEvents demoWorld
          (snd (status (demoServer 0 1000000000 1000000000 manyLog) demoArgs demoWorld))) \<and>
   playerListAt (drop 0 (stdout (out manyLog))) ''9007199254740993'' ''20'' '' Alice'' \<and>
   digitsValue ''9007199254740993'' = 9007199254740993 \<and>
   fst (status (demoServer 0 1000000000 1000000000 manyLog) demoArgs demoWorld) =
     Returned (no_data\<lparr>serverRunning := Some True,
       online := Some (Val (Number 9007199254740992)),
       max' := Some (Val (Number 20)), players := Some [''Alice''],
       timestamp := Some 2000\<rparr>)"
proof -
  let ?D = "demoServer 0 1000000000 1000000000 manyLog"
  have pos: "(0::nat) < 1000000000" by simp
  have tc: "tailCmd demoArgs (Number 41) = ''tail -n +42 ~/mons/logs/latest.log''"
    by code_simp
  have m: "Exec (sshHost demoArgs) (sshUser demoArgs) ''tail -n +42 ~/mons/logs/latest.log''
      (out manyLog) \<in> set (newEvents demoWorld (snd (status ?D demoArgs demoWorld)))"
    unfolding demo_query(1)[OF pos] tc by simp
  have f: "fst (status ?D demoArgs demoWorld) =
     Returned (no_data\<lparr>serverRunning := Some True,
       online := Some (Val (Number 9007199254740992)),
       max' := Some (Val (Number 20)), players := Some [''Alice''],
       timestamp := Some 2000\<rparr>)"
    unfolding demo_query(2)[OF pos] manyLog_report ..
  from m manyLog_at manyLog_value f show ?thesis by (intro conjI)
qed

text \<open>
  Claim C1, amended. For every run of \<open>status\<close> that reads the log tail (the output
  \<open>stdout rt\<close> of its \<open>tail -n +K\<close> on the log): if the pattern
  \<open>There are N of a max of M players online:rest\<close> occurs in it at position \<open>k\<close> and at no
  earlier position, the method returns \<open>serverRunning = true\<close>, as \<open>online\<close> and \<open>max\<close>
  the JavaScript numbers for \<open>N\<close> and \<open>M\<close>, which are \<open>N\<close> and \<open>M\<close> themselves when these
  are below \<open>2^53\<close> and the nearest doubles otherwise, and as players the comma-separated
  entries of \<open>rest\<close>, each trimmed, the empty ones dropped; if the pattern occurs
  nowhere, it returns \<open>online = null\<close>, \<open>max = null\<close> and no players. The method \<open>status\<close>
  always returns a result and never throws.
\<close>

theorem status_parse_player_list:
  "(Exec h u (''tail -n +'' @ K @ '' '' @ logPath g) rt \<in>
       set (newEvents w (snd (status e g w))) \<and>
    playerListAt (drop k (stdout rt)) n m rest \<and>
    (\<forall>i<k. \<forall>n' m' rest'. \<not> playerListAt (drop i (stdout rt)) n' m' rest')
    \<longrightarrow> fst (status e g w) =
          Returned (no_data\<lparr>serverRunning := Some True,
            online := Some (Val (asNumber (digitsValue n))),
            max' := Some (Val (asNumber (digitsValue m))),
            players := Some (filter (\<lambda>p. p \<noteq> []) (map trim (split_on (CHR '','') rest))),
            timestamp := Some (clock (snd (status e g w)))\<rparr>) \<and>
        (digitsValue n < 2 ^ 53 \<longrightarrow> asNumber (digitsValue n) = Number (digitsValue n)) \<and>
        (digitsValue m < 2 ^ 53 \<longrightarrow> asNumber (digitsValue m) = Number (digitsValue m))) \<and>
   (Exec h u (''tail -n +'' @ K @ '' '' @ logPath g) rt \<in>
       set (newEvents w (snd (status e g w))) \<and>
    (\<forall>i n' m' rest'. \<not> playerListAt (drop i (stdout rt)) n' m' rest')
    \<longrightarrow> fst (status e g w) =
          Returned (no_data\<lparr>serverRunning := Some True, online := Some Null, max' := Some Null,
            players := Some [], timestamp := Some (clock (snd (status e g w)))\<rparr>)) \<and>
   (\<exists>d. fst (status e g w) = Returned d)"
proof (intro conjI impI)
  assume h: "Exec h u (''tail -n +'' @ K @ '' '' @ logPath g) rt \<in>
       set (newEvents w (snd (status e g w))) \<and>
    playerListAt (drop k (stdout rt)) n m rest \<and>
    (\<forall>i<k. \<forall>n' m' rest'. \<not> playerListAt (drop i (stdout rt)) n' m' rest')"
  then have f: "fst (status e g w) =
      Returned (statusReport (stdout rt) (clock (snd (status e g w))))"
    using status_reads_tail by blast
  from h have a: "playerListAt (drop k (stdout rt)) n m rest"
    and b: "\<forall>i<k. \<forall>n' m' rest'. \<not> playerListAt (drop i (stdout rt)) n' m' rest'"
    by blast+
  show "fst (status e g w) =
          Returned (no_data\<lparr>serverRunning := Some True,
            online := Some (Val (asNumber (digitsValue n))),
            max' := Some (Val (asNumber (digitsValue m))),
            players := Some (filter (\<lambda>p. p \<noteq> []) (map trim (split_on (CHR '','') rest))),
            timestamp := Some (clock (snd (status e g w)))\<rparr>)"
    unfolding f statusReport_first[OF a b] ..
next
  assume "digitsValue n < 2 ^ 53"
  then show "asNumber (digitsValue n) = Number (digitsValue n)" by (rule asNumber_small)
next
  assume "digitsValue m < 2 ^ 53"
  then show "asNumber (digitsValue m) = Number (digitsValue m)" by (rule asNumber_small)
next
  assume h: "Exec h u (''tail -n +'' @ K @ '' '' @ logPath g) rt \<in>
       set (newEvents w (snd (status e g w))) \<and>
    (\<forall>i n' m' rest'. \<not> playerListAt (drop i (stdout rt)) n' m' rest')"
  then have f: "fst (status e g w) =
      Returned (statusReport (stdout rt) (clock (snd (status e g w))))"
    using status_reads_tail by blast
  from h have a: "\<forall>i n' m' rest'. \<not> playerListAt (drop i (stdout rt)) n' m' rest'"
    by blast
  show "fst (status e g w) =
          Returned (no_data\<lparr>serverRunning := Some True, online := Some Null, max' := Some Null,
            players := Some [], timestamp := Some (clock (snd (status e g w)))\<rparr>)"
    unfolding f statusReport_nowhere[OF a] ..
next
  show "\<exists>d. fst (status e g w) = Returned d" by (rule status_returns)
qed

lemma demoLog_at: "playerListAt (drop 33 (stdout (out demoLog))) ''2'' ''20'' '' Alice, Bob''"
  by code_simp

lemma demoLog_scan: "list_all (\<lambda>i. matchAt (drop i (stdout (out demoLog))) = None) [0..<33]"
  by code_simp

lemma demoLog_first:
  "\<forall>i<33. \<forall>n' m' rest'. \<not> playerListAt (drop i (stdout (out demoLog))) n' m' rest'"
proof (intro allI impI notI)
  fix i n' m' rest'
  assume "i < (33::nat)" and "playerListAt (drop i (stdout (out demoLog))) n' m' rest'"
  then show False
    using demoLog_scan matchAt_intro[of "drop i (stdout (out demoLog))" n' m' rest']
    unfolding list_all_iff by simp
qed

lemma demoNoise_nowhere:
  "\<forall>i n' m' rest'. \<not> playerListAt (drop i (stdout (out demoNoise))) n' m' rest'"
proof (intro allI notI)
  fix i n' m' rest'
  assume "playerListAt (drop i (stdout (out demoNoise))) n' m' rest'"
  then have "matchAt (drop i (stdout (out demoNoise))) = Some (n', m', rest')"
    by (rule matchAt_intro)
  moreover have "matchPlayerList (stdout (out demoNoise)) = None" by code_simp
  then have "matchAt (drop i (stdout (out demoNoise))) = None"
    by (rule matchPlayerList_None_D)
  ultimately show False by simp
qed

lemma demo_values: "digitsValue ''2'' = 2" "digitsValue ''20'' = 20"
    "filter (\<lambda>p. p \<noteq> []) (map trim (split_on (CHR '','') '' Alice, Bob'')) = [''Alice'', ''Bob'']"
  by code_simp+

lemma tail_42: "tailCmd demoArgs (Number 41) = ''tail -n +42 ~/mons/logs/latest.log''"
  by code_simp

text \<open>
  The specification's example behind a log prefix, and a text without the pattern, each
  read by a run of \<open>status\<close> on the sample host.
\<close>

theorem status_parse_player_list_witness:
  "Exec (sshHost demoArgs) (sshUser demoArgs) ''tail -n +42 ~/mons/logs/latest.log'' (out demoLog)
     \<in> set (newEvents demoWorld
          (snd (status (demoServer 0 1000000000 1000000000 demoLog) demoArgs demoWorld))) \<and>
   playerListAt (drop 33 (stdout (out demoLog))) ''2'' ''20'' '' Alice, Bob'' \<and>
   fst (status (demoServer 0 1000000000 1000000000 demoLog) demoArgs demoWorld) =
     Returned (no_data\<lparr>serverRunning := Some True, online := Some (Val (Number 2)),
       max' := Some (Val (Number 20)), players := Some [''Alice'', ''Bob''],
       timestamp := Some 2000\<rparr>) \<and>
   Exec (sshHost demoArgs) (sshUser demoArgs) ''tail -n +42 ~/mons/logs/latest.log'' (out demoNoise)
     \<in> set (newEvents demoWorld
          (snd (status (demoServer 0 1000000000 1000000000 demoNoise) demoArgs demoWorld))) \<and>
   fst (status (demoServer 0 1000000000 1000000000 demoNoise) demoArgs demoWorld) =
     Returned (no_data\<lparr>serverRunning := Some True, online := Some Null, max' := Some Null,
       players := Some [], timestamp := Some 2000\<rparr>)"
proof -
  let ?D = "demoServer 0 1000000000 1000000000 demoLog"
  let ?N = "demoServer 0 1000000000 1000000000 demoNoise"
  let ?H = "sshHost demoArgs" and ?U = "sshUser demoArgs"
  have pos: "(0::nat) < 1000000000" by simp
  have lp: "''tail -n +42 ~/mons/logs/latest.log'' = ''tail -n +'' @ ''42'' @ '' '' @ logPath demoArgs"
    by (simp add: demoArgs_def)
  have m1: "Exec ?H ?U (''tail -n +'' @ ''42'' @ '' '' @ logPath demoArgs) (out demoLog)
      \<in> set (newEvents demoWorld (snd (status ?D demoArgs demoWorld)))"
    unfolding demo_query(1)[OF pos] tail_42 lp[symmetric] by simp
  have m2: "Exec ?H ?U (''tail -n +'' @ ''42'' @ '' '' @ logPath demoArgs) (out demoNoise)
      \<in> set (newEvents demoWorld (snd (status ?N demoArgs demoWorld)))"
    unfolding demo_query(1)[OF pos] tail_42 lp[symmetric] by simp
  from status_reads_tail[OF m1] demo_query(2)[OF pos, of 0 1000000000 demoLog]
  have "timestamp (statusReport (stdout (out demoLog)) (clock (snd (status ?D demoArgs demoWorld)))) =
      timestamp (statusReport (stdout (out demoLog)) 2000)"
    by simp
  then have k1: "clock (snd (status ?D demoArgs demoWorld)) = 2000"
    unfolding statusReport_time by simp
  from status_reads_tail[OF m2] demo_query(2)[OF pos, of 0 1000000000 demoNoise]
  have "timestamp (statusReport (stdout (out demoNoise)) (clock (snd (status ?N demoArgs demoWorld)))) =
      timestamp (statusReport (stdout (out demoNoise)) 2000)"
    by simp
  then have k2: "clock (snd (status ?N demoArgs demoWorld)) = 2000"
    unfolding statusReport_time by simp
  note th = status_parse_player_list[where h = ?H and u = ?U and K = "''42''" and g = demoArgs
      and rt = "out demoLog" and w = demoWorld and e = ?D and k = 33 and n = "''2''"
      and m = "''20''" and rest = "'' Alice, Bob''"]
  have hyp: "Exec ?H ?U (''tail -n +'' @ ''42'' @ '' '' @ logPath demoArgs) (out demoLog)
       \<in> set (newEvents demoWorld (snd (status ?D demoArgs demoWorld))) \<and>
    playerListAt (drop 33 (stdout (out demoLog))) ''2'' ''20'' '' Alice, Bob'' \<and>
    (\<forall>i<33. \<forall>n' m' rest'. \<not> playerListAt (drop i (stdout (out demoLog))) n' m' rest')"
    using m1 demoLog_at demoLog_first by (intro conjI)
  from mp[OF conjunct1[OF th] hyp]
  have "fst (status ?D demoArgs demoWorld) =
          Returned (no_data\<lparr>serverRunning := Some True,
            online := Some (Val (asNumber (digitsValue ''2''))),
            max' := Some (Val (asNumber (digitsValue ''20''))),
            players := Some (filter (\<lambda>p. p \<noteq> []) (map trim (split_on (CHR '','') '' Alice, Bob''))),
            timestamp := Some (clock (snd (status ?D demoArgs demoWorld)))\<rparr>) \<and>
        (digitsValue ''2'' < 2 ^ 53 \<longrightarrow> asNumber (digitsValue ''2'') = Number (digitsValue ''2'')) \<and>
        (digitsValue ''20'' < 2 ^ 53 \<longrightarrow> asNumber (digitsValue ''20'') = Number (digitsValue ''20''))"
    .
  then have a: "fst (status ?D demoArgs demoWorld) =
     Returned (no_data\<lparr>serverRunning := Some True, online := Some (Val (Number 2)),
       max' := Some (Val (Number 20)), players := Some [''Alice'', ''Bob''],
       timestamp := Some 2000\<rparr>)"
    unfolding demo_values k1 by simp
  note th2 = status_parse_player_list[where h = ?H and u = ?U and K = "''42''" and g = demoArgs
      and rt = "out demoNoise" and w = demoWorld and e = ?N]
  have hyp2: "Exec ?H ?U (''tail -n +'' @ ''42'' @ '' '' @ logPath demoArgs) (out demoNoise)
       \<in> set (newEvents demoWorld (snd (status ?N demoArgs demoWorld))) \<and>
    (\<forall>i n' m' rest'. \<not> playerListAt (drop i (stdout (out demoNoise))) n' m' rest')"
    using m2 demoNoise_nowhere by (intro conjI)
  from mp[OF conjunct1[OF conjunct2[OF th2]] hyp2]
  have "fst (status ?N demoArgs demoWorld) =
          Returned (no_data\<lparr>serverRunning := Some True, online := Some Null, max' := Some Null,
            players := Some [], timestamp := Some (clock (snd (status ?N demoArgs demoWorld)))\<rparr>)"
    .
  then have b: "fst (status ?N demoArgs demoWorld) =
     Returned (no_data\<lparr>serverRunning := Some True, online := Some Null, max' := Some Null,
       players := Some [], timestamp := Some 2000\<rparr>)"
    unfolding k2 by simp
  from m1 demoLog_at a m2 b show ?thesis unfolding lp[symmetric] by (intro conjI)
qed

text \<open>The example itself, and its variations in commas and white space.\<close>

lemma status_parse_variations:
  "statusReport ''There are 2 of a max of 20 players online: Alice, Bob'' t =
     no_data\<lparr>serverRunning := Some True, online := Some (Val (Number 2)),
       max' := Some (Val (Number 20)), players := Some [''Alice'', ''Bob''],
       timestamp := Some t\<rparr>"
  "statusReport ''There are 2 of a max of 20 players online:Alice ,  Bob, ,'' t =
   statusReport ''There are 2 of a max of 20 players online: Alice, Bob'' t"
  "statusReport (''There are 2 of a max of 20 players online: Alice,Bob,  '' @ [CHR 0x0D, CHR 0x0A]) t =
   statusReport ''There are 2 of a max of 20 players online: Alice, Bob'' t"
  by code_simp+

section \<open>Order of the query steps\<close>

lemma cmd_texts:
  "wcCmd g = ''wc -l < '' @ logPath g"
  "sendKeysCmd g ''list'' =
     ''tmux send-keys -t '' @ tmuxSession g @ '' '' @ [CHR 0x27] @ ''list'' @ [CHR 0x27] @ '' Enter''"
  "tailCmd g lc = ''tail -n +'' @ showNumber (plusOne lc) @ '' '' @ logPath g"
  by (simp_all add: cmd_defs)

lemma longLog_respond:
  "isValidSshHost (longLogHost count) (sshHost demoArgs)"
  "respond (longLogHost count) w h u ''echo ok'' = out ''ok''"
  "respond (longLogHost count) w h u (hasSessionCmd demoArgs) = out ''exists''"
  "respond (longLogHost count) w h u (wcCmd demoArgs) = out count"
  "respond (longLogHost count) w h u (sendKeysCmd demoArgs keys) = out []"
  "respond (longLogHost count) w h u (tailCmd demoArgs lc) = out []"
  "latency (longLogHost count) w h u cmd = 0"
  "oversleep (longLogHost count) w ms = 0"
  by (simp_all add: longLogHost_def demoArgs_def isConfigured_def cmd_defs)

text \<open>A query of \<open>status\<close> on the host with the long log.\<close>

lemma longLog_query:
  "newEvents demoWorld (snd (status (longLogHost count) demoArgs demoWorld)) =
     [Exec (sshHost demoArgs) (sshUser demoArgs) ''echo ok'' (out ''ok''),
      Exec (sshHost demoArgs) (sshUser demoArgs) (hasSessionCmd demoArgs) (out ''exists''),
      Exec (sshHost demoArgs) (sshUser demoArgs) (wcCmd demoArgs) (out count),
      Exec (sshHost demoArgs) (sshUser demoArgs) (sendKeysCmd demoArgs ''list'') (out []),
      Sleep 2000,
      Exec (sshHost demoArgs) (sshUser demoArgs)
        (tailCmd demoArgs (orZero (parseInt (trim (stdout (out count)))))) (out []),
      WriteResource ''server'' (serverName demoArgs) (statusReport (stdout (out [])) 2000)]"
proof -
  let ?L = "longLogHost count"
  let ?H = "sshHost demoArgs" and ?U = "sshUser demoArgs"
  obtain r0 w1 r1 w2 rw w3 rl w4 rt w6 where
    v0: "r0 = respond ?L demoWorld ?H ?U ''echo ok''"
    and t0: "trace w1 = trace demoWorld @ [Exec ?H ?U ''echo ok'' r0]"
    and c0: "clock w1 = clock demoWorld + latency ?L demoWorld ?H ?U ''echo ok''"
    and v1: "r1 = respond ?L w1 ?H ?U (hasSessionCmd demoArgs)"
    and t1: "trace w2 = trace w1 @ [Exec ?H ?U (hasSessionCmd demoArgs) r1]"
    and c1: "clock w2 = clock w1 + latency ?L w1 ?H ?U (hasSessionCmd demoArgs)"
    and v2: "rw = respond ?L w2 ?H ?U (wcCmd demoArgs)"
    and t2: "trace w3 = trace w2 @ [Exec ?H ?U (wcCmd demoArgs) rw]"
    and c2: "clock w3 = clock w2 + latency ?L w2 ?H ?U (wcCmd demoArgs)"
    and v3: "rl = respond ?L w3 ?H ?U (sendKeysCmd demoArgs ''list'')"
    and t3: "trace w4 = trace w3 @ [Exec ?H ?U (sendKeysCmd demoArgs ''list'') rl]"
    and c3: "clock w4 = clock w3 + latency ?L w3 ?H ?U (sendKeysCmd demoArgs ''list'')"
    and v4: "rt = respond ?L (sleep ?L 2000 w4) ?H ?U
            (tailCmd demoArgs (orZero (parseInt (trim (stdout rw)))))"
    and t4: "trace w6 = trace w4 @ [Sleep 2000, Exec ?H ?U
            (tailCmd demoArgs (orZero (parseInt (trim (stdout rw))))) rt]"
    and c4: "clock w6 = clock (sleep ?L 2000 w4) + latency ?L (sleep ?L 2000 w4) ?H ?U
            (tailCmd demoArgs (orZero (parseInt (trim (stdout rw)))))"
    and st: "status ?L demoArgs demoWorld =
     (if \<not> isValidSshHost ?L ?H
        then writeResource ''server'' (serverName demoArgs) (respNotRunning demoWorld) demoWorld
      else if code r0 \<noteq> 0
        then writeResource ''server'' (serverName demoArgs) (respNotRunning w1) w1
      else if trim (stdout r1) \<noteq> ''exists''
        then writeResource ''server'' (serverName demoArgs) (respNotRunning w2) w2
      else writeResource ''server'' (serverName demoArgs) (statusReport (stdout rt) (clock w6)) w6)"
    by (rule status_unfold[of ?L demoWorld demoArgs])
  have k0: "clock demoWorld = 0" "trace demoWorld = []" by (simp_all add: demoWorld_def)
  have r0: "r0 = out ''ok''" unfolding v0 by (rule longLog_respond)
  have r1: "r1 = out ''exists''" unfolding v1 by (rule longLog_respond)
  have rw: "rw = out count" unfolding v2 by (rule longLog_respond)
  have rl: "rl = out []" unfolding v3 by (rule longLog_respond)
  have rt: "rt = out []" unfolding v4 by (rule longLog_respond)
  have k6: "clock w6 = 2000"
    unfolding c4 by (simp add: longLog_respond c3 c2 c1 c0 k0)
  have tr: "trace w6 =
     [Exec ?H ?U ''echo ok'' (out ''ok''),
      Exec ?H ?U (hasSessionCmd demoArgs) (out ''exists''),
      Exec ?H ?U (wcCmd demoArgs) (out count),
      Exec ?H ?U (sendKeysCmd demoArgs ''list'') (out []),
      Sleep 2000,
      Exec ?H ?U (tailCmd demoArgs (orZero (parseInt (trim (stdout (out count)))))) (out [])]"
    unfolding t4 t3 t2 t1 t0 k0 r0 r1 rw rl rt by simp
  have st': "status ?L demoArgs demoWorld =
      writeResource ''server'' (serverName demoArgs) (statusReport (stdout (out [])) 2000) w6"
    unfolding st r0 r1 rt k6 by (simp add: longLog_respond trim_out)
  show ?thesis
    unfolding st' by (rule newEvents_append) (simp add: tr k0)
qed

text \<open>
  Claim C4 as stated fails for a line count that is not below \<open>2^53 - 1\<close>: the count is a
  JavaScript number, and so is the count plus one. When \<open>wc\<close> reports
  \<open>9007199254740992\<close> lines, the sum is the same number again and \<open>tail\<close> starts at the
  line with the index of the watermark, not after it; when \<open>wc\<close> reports
  \<open>1000000000000000000000\<close> lines, \<open>tail\<close> is started with \<open>+1e+21\<close>.
\<close>

lemma long_tail_texts:
  "tailCmd demoArgs (orZero (parseInt (trim (stdout (out ''9007199254740992''))))) =
     ''tail -n +9007199254740992 ~/mons/logs/latest.log''"
  "tailCmd demoArgs (orZero (parseInt (trim (stdout (out ''1000000000000000000000''))))) =
     ''tail -n +1e+21 ~/mons/logs/latest.log''"
  "wcCmd demoArgs = ''wc -l < ~/mons/logs/latest.log''"
  by code_simp+

theorem tail_from_watermark_counterexample:
  "take 6 (newEvents demoWorld
      (snd (status (longLogHost ''9007199254740992'') demoArgs demoWorld))) =
     [Exec (sshHost demoArgs) (sshUser demoArgs) ''echo ok'' (out ''ok''),
      Exec (sshHost demoArgs) (sshUser demoArgs) (hasSessionCmd demoArgs) (out ''exists''),
      Exec (sshHost demoArgs) (sshUser demoArgs) ''wc -l < ~/mons/logs/latest.log''
        (out ''9007199254740992''),
      Exec (sshHost demoArgs) (sshUser demoArgs) (sendKeysCmd demoArgs ''list'') (out []),
      Sleep 2000,
      Exec (sshHost demoArgs) (sshUser demoArgs)
        ''tail -n +9007199254740992 ~/mons/logs/latest.log'' (out [])] \<and>
   take 6 (newEvents demoWorld
      (snd (status (longLogHost ''1000000000000000000000'') demoArgs demoWorld))) =
     [Exec (sshHost demoArgs) (sshUser demoArgs) ''echo ok'' (out ''ok''),
      Exec (sshHost demoArgs) (sshUser demoArgs) (hasSessionCmd demoArgs) (out ''exists''),
      Exec (sshHost demoArgs) (sshUser demoArgs) ''wc -l < ~/mons/logs/latest.log''
        (out ''1000000000000000000000''),
      Exec (sshHost demoArgs) (sshUser demoArgs) (sendKeysCmd demoArgs ''list'') (out []),
      Sleep 2000,
      Exec (sshHost demoArgs) (sshUser demoArgs)
        ''tail -n +1e+21 ~/mons/logs/latest.log'' (out [])]"
  unfolding longLog_query long_tail_texts by simp

text \<open>
  Claim C4, amended. Whenever \<open>status\<close> or \<open>collectMetrics\<close> sends \<open>list\<close> into the
  session, the remote commands of the run are, in this order: the reachability probe, the
  session check, \<open>wc -l < LOG\<close> (the watermark), the \<open>list\<close> command, and after the
  two-second pause \<open>tail -n +K LOG\<close>, where \<open>K\<close> is the text of the JavaScript number
  \<open>(parseInt(count) || 0) + 1\<close> for the trimmed output \<open>count\<close> of that \<open>wc\<close>. When
  \<open>count\<close> is a run of digits with a value below \<open>2^53 - 1\<close>, \<open>K\<close> is the decimal text of
  that value plus one, so that \<open>tail\<close> starts at the first line after the watermark; when
  \<open>count\<close> holds no number, \<open>K\<close> is \<open>1\<close>.
\<close>

theorem watermark_before_list:
  "(Exec h u (''tmux send-keys -t '' @ tmuxSession g @ '' '' @ [CHR 0x27] @ ''list'' @
              [CHR 0x27] @ '' Enter'') r
      \<in> set (newEvents w (snd (status e g w))) \<longrightarrow>
      (\<exists>r0 r1 rw rl rt rest.
         newEvents w (snd (status e g w)) =
           [Exec (sshHost g) (sshUser g) ''echo ok'' r0,
            Exec (sshHost g) (sshUser g) (hasSessionCmd g) r1,
            Exec (sshHost g) (sshUser g) (''wc -l < '' @ logPath g) rw,
            Exec (sshHost g) (sshUser g)
              (''tmux send-keys -t '' @ tmuxSession g @ '' '' @ [CHR 0x27] @ ''list'' @
               [CHR 0x27] @ '' Enter'') rl,
            Sleep 2000,
            Exec (sshHost g) (sshUser g)
              (''tail -n +'' @ showNumber (plusOne (orZero (parseInt (trim (stdout rw))))) @
               '' '' @ logPath g) rt] @ rest \<and>
         (trim (stdout rw) \<noteq> [] \<and> list_all isDigit (trim (stdout rw)) \<and>
          digitsValue (trim (stdout rw)) + 1 < 2 ^ 53 \<longrightarrow>
            showNumber (plusOne (orZero (parseInt (trim (stdout rw))))) =
              digitsOf (digitsValue (trim (stdout rw)) + 1)) \<and>
         (parseInt (trim (stdout rw)) = NaN \<longrightarrow>
            showNumber (plusOne (orZero (parseInt (trim (stdout rw))))) = ''1''))) \<and>
   (Exec h u (''tmux send-keys -t '' @ tmuxSession g @ '' '' @ [CHR 0x27] @ ''list'' @
              [CHR 0x27] @ '' Enter'') r
      \<in> set (newEvents w (snd (collectMetrics e g w))) \<longrightarrow>
      (\<exists>r0 r1 rw rl rt rest.
         newEvents w (snd (collectMetrics e g w)) =
           [Exec (sshHost g) (sshUser g) ''echo ok'' r0,
            Exec (sshHost g) (sshUser g) (hasSessionCmd g) r1,
            Exec (sshHost g) (sshUser g) (''wc -l < '' @ logPath g) rw,
            Exec (sshHost g) (sshUser g)
              (''tmux send-keys -t '' @ tmuxSession g @ '' '' @ [CHR 0x27] @ ''list'' @
               [CHR 0x27] @ '' Enter'') rl,
            Sleep 2000,
            Exec (sshHost g) (sshUser g)
              (''tail -n +'' @ showNumber (plusOne (orZero (parseInt (trim (stdout rw))))) @
               '' '' @ logPath g) rt] @ rest \<and>
         (trim (stdout rw) \<noteq> [] \<and> list_all isDigit (trim (stdout rw)) \<and>
          digitsValue (trim (stdout rw)) + 1 < 2 ^ 53 \<longrightarrow>
            showNumber (plusOne (orZero (parseInt (trim (stdout rw))))) =
              digitsOf (digitsValue (trim (stdout rw)) + 1)) \<and>
         (parseInt (trim (stdout rw)) = NaN \<longrightarrow>
            showNumber (plusOne (orZero (parseInt (trim (stdout rw))))) = ''1'')))"
proof -
  have K: "\<And>rw::exec_result.
      (trim (stdout rw) \<noteq> [] \<and> list_all isDigit (trim (stdout rw)) \<and>
          digitsValue (trim (stdout rw)) + 1 < 2 ^ 53 \<longrightarrow>
            showNumber (plusOne (orZero (parseInt (trim (stdout rw))))) =
              digitsOf (digitsValue (trim (stdout rw)) + 1)) \<and>
      (parseInt (trim (stdout rw)) = NaN \<longrightarrow>
            showNumber (plusOne (orZero (parseInt (trim (stdout rw))))) = ''1'')"
    using tail_from_count tail_from_nothing by blast
  have 1: "Exec h u (sendKeysCmd g ''list'') r \<in> set (newEvents w (snd (status e g w))) \<longrightarrow>
      (\<exists>r0 r1 rw rl rt rest.
         newEvents w (snd (status e g w)) =
           [Exec (sshHost g) (sshUser g) ''echo ok'' r0,
            Exec (sshHost g) (sshUser g) (hasSessionCmd g) r1,
            Exec (sshHost g) (sshUser g) (wcCmd g) rw,
            Exec (sshHost g) (sshUser g) (sendKeysCmd g ''list'') rl,
            Sleep 2000,
            Exec (sshHost g) (sshUser g) (tailCmd g (orZero (parseInt (trim (stdout rw))))) rt]
           @ rest \<and>
         (trim (stdout rw) \<noteq> [] \<and> list_all isDigit (trim (stdout rw)) \<and>
          digitsValue (trim (stdout rw)) + 1 < 2 ^ 53 \<longrightarrow>
            showNumber (plusOne (orZero (parseInt (trim (stdout rw))))) =
              digitsOf (digitsValue (trim (stdout rw)) + 1)) \<and>
         (parseInt (trim (stdout rw)) = NaN \<longrightarrow>
            showNumber (plusOne (orZero (parseInt (trim (stdout rw))))) = ''1''))"
  proof
    assume a: "Exec h u (sendKeysCmd g ''list'') r \<in> set (newEvents w (snd (status e g w)))"
    show "\<exists>r0 r1 rw rl rt rest.
         newEvents w (snd (status e g w)) =
           [Exec (sshHost g) (sshUser g) ''echo ok'' r0,
            Exec (sshHost g) (sshUser g) (hasSessionCmd g) r1,
            Exec (sshHost g) (sshUser g) (wcCmd g) rw,
            Exec (sshHost g) (sshUser g) (sendKeysCmd g ''list'') rl,
            Sleep 2000,
            Exec (sshHost g) (sshUser g) (tailCmd g (orZero (parseInt (trim (stdout rw))))) rt]
           @ rest \<and>
         (trim (stdout rw) \<noteq> [] \<and> list_all isDigit (trim (stdout rw)) \<and>
          digitsValue (trim (stdout rw)) + 1 < 2 ^ 53 \<longrightarrow>
            showNumber (plusOne (orZero (parseInt (trim (stdout rw))))) =
              digitsOf (digitsValue (trim (stdout rw)) + 1)) \<and>
         (parseInt (trim (stdout rw)) = NaN \<longrightarrow>
            showNumber (plusOne (orZero (parseInt (trim (stdout rw))))) = ''1'')"
    proof (cases rule: status_events[of w e g])
      case gate
      with a show ?thesis by simp
    next
      case (unreachable r0 d)
      with a list_cmd_distinct(1)[of g] show ?thesis by simp
    next
      case (missing r0 r1 d)
      with a list_cmd_distinct(1,2)[of g] show ?thesis by simp
    next
      case (query r0 r1 rw rl rt)
      have "newEvents w (snd (status e g w)) =
           [Exec (sshHost g) (sshUser g) ''echo ok'' r0,
            Exec (sshHost g) (sshUser g) (hasSessionCmd g) r1,
            Exec (sshHost g) (sshUser g) (wcCmd g) rw,
            Exec (sshHost g) (sshUser g) (sendKeysCmd g ''list'') rl,
            Sleep 2000,
            Exec (sshHost g) (sshUser g) (tailCmd g (orZero (parseInt (trim (stdout rw))))) rt]
           @ [WriteResource ''server'' (serverName g)
                 (statusReport (stdout rt) (clock (snd (status e g w))))]"
        unfolding query(1) by simp
      with K[of rw] show ?thesis by blast
    qed
  qed
  have 2: "Exec h u (sendKeysCmd g ''list'') r \<in> set (newEvents w (snd (collectMetrics e g w))) \<longrightarrow>
      (\<exists>r0 r1 rw rl rt rest.
         newEvents w (snd (collectMetrics e g w)) =
           [Exec (sshHost g) (sshUser g) ''echo ok'' r0,
            Exec (sshHost g) (sshUser g) (hasSessionCmd g) r1,
            Exec (sshHost g) (sshUser g) (wcCmd g) rw,
            Exec (sshHost g) (sshUser g) (sendKeysCmd g ''list'') rl,
            Sleep 2000,
            Exec (sshHost g) (sshUser g) (tailCmd g (orZero (parseInt (trim (stdout rw))))) rt]
           @ rest \<and>
         (trim (stdout rw) \<noteq> [] \<and> list_all isDigit (trim (stdout rw)) \<and>
          digitsValue (trim (stdout rw)) + 1 < 2 ^ 53 \<longrightarrow>
            showNumber (plusOne (orZero (parseInt (trim (stdout rw))))) =
              digitsOf (digitsValue (trim (stdout rw)) + 1)) \<and>
         (parseInt (trim (stdout rw)) = NaN \<longrightarrow>
            showNumber (plusOne (orZero (parseInt (trim (stdout rw))))) = ''1''))"
  proof
    assume a: "Exec h u (sendKeysCmd g ''list'') r \<in>
        set (newEvents w (snd (collectMetrics e g w)))"
    show "\<exists>r0 r1 rw rl rt rest.
         newEvents w (snd (collectMetrics e g w)) =
           [Exec (sshHost g) (sshUser g) ''echo ok'' r0,
            Exec (sshHost g) (sshUser g) (hasSessionCmd g) r1,
            Exec (sshHost g) (sshUser g) (wcCmd g) rw,
            Exec (sshHost g) (sshUser g) (sendKeysCmd g ''list'') rl,
            Sleep 2000,
            Exec (sshHost g) (sshUser g) (tailCmd g (orZero (parseInt (trim (stdout rw))))) rt]
           @ rest \<and>
         (trim (stdout rw) \<noteq> [] \<and> list_all isDigit (trim (stdout rw)) \<and>
          digitsValue (trim (stdout rw)) + 1 < 2 ^ 53 \<longrightarrow>
            showNumber (plusOne (orZero (parseInt (trim (stdout rw))))) =
              digitsOf (digitsValue (trim (stdout rw)) + 1)) \<and>
         (parseInt (trim (stdout rw)) = NaN \<longrightarrow>
            showNumber (plusOne (orZero (parseInt (trim (stdout rw))))) = ''1'')"
    proof (cases rule: collectMetrics_events[of w e g])
      case (gate d)
      with a show ?thesis by simp
    next
      case (unreachable r0 d)
      with a list_cmd_distinct(1)[of g] show ?thesis by simp
    next
      case (missing r0 r1 rest)
      with a list_cmd_distinct(1,2)[of g] show ?thesis by auto
    next
      case (query r0 r1 rw rl rt rest w6)
      have "newEvents w (snd (collectMetrics e g w)) =
           [Exec (sshHost g) (sshUser g) ''echo ok'' r0,
            Exec (sshHost g) (sshUser g) (hasSessionCmd g) r1,
            Exec (sshHost g) (sshUser g) (wcCmd g) rw,
            Exec (sshHost g) (sshUser g) (sendKeysCmd g ''list'') rl,
            Sleep 2000,
            Exec (sshHost g) (sshUser g) (tailCmd g (orZero (parseInt (trim (stdout rw))))) rt]
           @ (WriteMetricsFiles (sshHost g) (sshUser g) ''minecraft'' (serverName g)
                 (metricsReport (stdout rt)) # rest)"
        unfolding query(1) by simp
      with K[of rw] show ?thesis by blast
    qed
  qed
  from 1 2 show ?thesis unfolding cmd_texts by (rule conjI)
qed

lemma digits_42: "digitsValue ''41'' + 1 = 42" "digitsOf 42 = ''42''"
  by code_simp+

theorem watermark_before_list_witness:
  "Exec (sshHost demoArgs) (sshUser demoArgs) ''tmux send-keys -t mons 'list' Enter'' (out [])
     \<in> set (newEvents demoWorld
              (snd (status (demoServer 0 1000000000 1000000000 demoLog) demoArgs demoWorld))) \<and>
   Exec (sshHost demoArgs) (sshUser demoArgs) ''tmux send-keys -t mons 'list' Enter'' (out [])
     \<in> set (newEvents demoWorld
              (snd (collectMetrics (demoServer 0 1000000000 1000000000 demoLog) demoArgs demoWorld))) \<and>
   take 6 (newEvents demoWorld
            (snd (status (demoServer 0 1000000000 1000000000 demoLog) demoArgs demoWorld))) =
     [Exec (sshHost demoArgs) (sshUser demoArgs) ''echo ok'' (out ''ok''),
      Exec (sshHost demoArgs) (sshUser demoArgs) (hasSessionCmd demoArgs) (out ''exists''),
      Exec (sshHost demoArgs) (sshUser demoArgs) ''wc -l < ~/mons/logs/latest.log'' (out ''41''),
      Exec (sshHost demoArgs) (sshUser demoArgs) ''tmux send-keys -t mons 'list' Enter'' (out []),
      Sleep 2000,
      Exec (sshHost demoArgs) (sshUser demoArgs) ''tail -n +42 ~/mons/logs/latest.log'' (out demoLog)]"
proof -
  let ?D = "demoServer 0 1000000000 1000000000 demoLog"
  let ?H = "sshHost demoArgs" and ?U = "sshUser demoArgs"
  let ?L = "''tmux send-keys -t '' @ tmuxSession demoArgs @ '' '' @ [CHR 0x27] @ ''list'' @
              [CHR 0x27] @ '' Enter''"
  have pos: "(0::nat) < 1000000000" by simp
  have lt: "?L = ''tmux send-keys -t mons 'list' Enter''"
    by (simp add: demoArgs_def)
  have wt: "''wc -l < '' @ logPath demoArgs = ''wc -l < ~/mons/logs/latest.log''"
    by (simp add: demoArgs_def)
  have m1: "Exec ?H ?U ?L (out []) \<in> set (newEvents demoWorld (snd (status ?D demoArgs demoWorld)))"
    unfolding demo_query(1)[OF pos] cmd_texts(2)[symmetric] by simp
  have m2: "Exec ?H ?U ?L (out []) \<in> set (newEvents demoWorld (snd (collectMetrics ?D demoArgs demoWorld)))"
    unfolding demo_query(3)[OF pos] cmd_texts(2)[symmetric] by simp
  from watermark_before_list[of ?H ?U demoArgs "out []" demoWorld ?D] m1
  obtain r0 r1 rw rl rt rest where ev:
    "newEvents demoWorld (snd (status ?D demoArgs demoWorld)) =
           [Exec ?H ?U ''echo ok'' r0,
            Exec ?H ?U (hasSessionCmd demoArgs) r1,
            Exec ?H ?U (''wc -l < '' @ logPath demoArgs) rw,
            Exec ?H ?U ?L rl,
            Sleep 2000,
            Exec ?H ?U
              (''tail -n +'' @ showNumber (plusOne (orZero (parseInt (trim (stdout rw))))) @
               '' '' @ logPath demoArgs) rt] @ rest"
    and K: "trim (stdout rw) \<noteq> [] \<and> list_all isDigit (trim (stdout rw)) \<and>
          digitsValue (trim (stdout rw)) + 1 < 2 ^ 53 \<longrightarrow>
            showNumber (plusOne (orZero (parseInt (trim (stdout rw))))) =
              digitsOf (digitsValue (trim (stdout rw)) + 1)"
    by blast
  have rs: "r0 = out ''ok''" "r1 = out ''exists''" "rw = out ''41''" "rl = out []" "rt = out demoLog"
    using ev unfolding demo_query(1)[OF pos] by simp_all
  have d41: "list_all isDigit ''41''" by code_simp
  from K have k: "showNumber (plusOne (orZero (parseInt (trim (stdout (out ''41'')))))) = ''42''"
    unfolding rs trim_out digits_42 using d41 by simp
  have tl: "''tail -n +'' @ showNumber (plusOne (orZero (parseInt (trim (stdout (out ''41'')))))) @
              '' '' @ logPath demoArgs = ''tail -n +42 ~/mons/logs/latest.log''"
    unfolding k by (simp add: demoArgs_def)
  have "take 6 (newEvents demoWorld (snd (status ?D demoArgs demoWorld))) =
     [Exec ?H ?U ''echo ok'' (out ''ok''),
      Exec ?H ?U (hasSessionCmd demoArgs) (out ''exists''),
      Exec ?H ?U ''wc -l < ~/mons/logs/latest.log'' (out ''41''),
      Exec ?H ?U ''tmux send-keys -t mons 'list' Enter'' (out []),
      Sleep 2000,
      Exec ?H ?U ''tail -n +42 ~/mons/logs/latest.log'' (out demoLog)]"
    unfolding ev rs tl wt lt by simp
  with m1 m2 show ?thesis unfolding lt by blast
qed

section \<open>An answer that does not match\<close>

lemma demoNoise_line: "matchPlayerList (stdout (out demoNoise)) = None"
  by code_simp

text \<open>
  Claim C7 as stated fails for \<open>collectMetrics\<close>: when the log tail holds no player-list
  line, it reports \<open>online = 0\<close>, not \<open>null\<close>.
\<close>

theorem collectMetrics_unmatched_counterexample:
  "matchPlayerList (stdout (out demoNoise)) = None \<and>
   fst (collectMetrics (demoServer 0 1000000000 1000000000 demoNoise) demoArgs demoWorld) =
     Returned (no_data\<lparr>serverRunning := Some True, online := Some (Val (Number 0)),
       max' := Some Null, players := Some [], timestamp := Some 2000\<rparr>)"
proof -
  have pos: "(0::nat) < 1000000000" by simp
  show ?thesis
    unfolding demo_query(4)[OF pos] metricsReport_unmatched[OF demoNoise_line]
    by (simp add: demoNoise_line metricsData_def)
qed

text \<open>
  Claim C7, amended. When the text read by the \<open>tail\<close> of a run holds no player-list
  line: \<open>status\<close> returns \<open>serverRunning = true\<close> with \<open>online = null\<close>, \<open>max = null\<close>
  and no players, and throws nothing; \<open>collectMetrics\<close> hands \<open>online = 0\<close>, \<open>max = null\<close>
  and no players to \<open>writeMetricsFiles\<close>, returns the same values, and throws only an
  error that \<open>writeMetricsFiles\<close> threw.
\<close>

theorem unmatched_reply_result:
  "(Exec h u (tailCmd g n) rt \<in> set (newEvents w (snd (status e g w))) \<and>
      matchPlayerList (stdout rt) = None \<longrightarrow>
      (\<exists>d. fst (status e g w) = Returned d \<and> serverRunning d = Some True \<and>
           online d = Some Null \<and> max' d = Some Null \<and> players d = Some [])) \<and>
   (Exec h u (tailCmd g n) rt \<in> set (newEvents w (snd (collectMetrics e g w))) \<and>
      matchPlayerList (stdout rt) = None \<longrightarrow>
      WriteMetricsFiles (sshHost g) (sshUser g) ''minecraft'' (serverName g)
          (metricsData True (Number 0) Null [])
        \<in> set (newEvents w (snd (collectMetrics e g w))) \<and>
      (\<forall>d. fst (collectMetrics e g w) = Returned d \<longrightarrow>
           serverRunning d = Some True \<and> online d = Some (Val (Number 0)) \<and>
           max' d = Some Null \<and> players d = Some []) \<and>
      (\<forall>err. fst (collectMetrics e g w) = Threw err \<longrightarrow>
           (\<exists>w'. fst (metricsWrite e w' (metricsData True (Number 0) Null [])) = Some err)))"
proof (intro conjI impI)
  assume a: "Exec h u (tailCmd g n) rt \<in> set (newEvents w (snd (status e g w))) \<and>
      matchPlayerList (stdout rt) = None"
  show "\<exists>d. fst (status e g w) = Returned d \<and> serverRunning d = Some True \<and>
           online d = Some Null \<and> max' d = Some Null \<and> players d = Some []"
  proof (cases rule: status_events[of w e g])
    case gate
    with a show ?thesis by simp
  next
    case (unreachable r0 d)
    with a list_cmd_distinct(3)[of g n] show ?thesis by simp
  next
    case (missing r0 r1 d)
    with a list_cmd_distinct(3,4)[of g n] show ?thesis by simp
  next
    case (query r0 r1 rw rl rt')
    with a list_cmd_distinct(3,4,5,6)[of g n] have "rt' = rt" by auto
    with query(2) a show ?thesis by (simp add: statusReport_unmatched)
  qed
next
  assume a: "Exec h u (tailCmd g n) rt \<in> set (newEvents w (snd (collectMetrics e g w))) \<and>
      matchPlayerList (stdout rt) = None"
  have "WriteMetricsFiles (sshHost g) (sshUser g) ''minecraft'' (serverName g)
          (metricsData True (Number 0) Null [])
        \<in> set (newEvents w (snd (collectMetrics e g w))) \<and>
      (\<forall>d. fst (collectMetrics e g w) = Returned d \<longrightarrow>
           serverRunning d = Some True \<and> online d = Some (Val (Number 0)) \<and>
           max' d = Some Null \<and> players d = Some []) \<and>
      (\<forall>err. fst (collectMetrics e g w) = Threw err \<longrightarrow>
           (\<exists>w'. fst (metricsWrite e w' (metricsData True (Number 0) Null [])) = Some err))"
  proof (cases rule: collectMetrics_events[of w e g])
    case (gate d)
    with a show ?thesis by simp
  next
    case (unreachable r0 d)
    with a list_cmd_distinct(3)[of g n] show ?thesis by simp
  next
    case (missing r0 r1 rest)
    with a list_cmd_distinct(3,4)[of g n] show ?thesis by auto
  next
    case (query r0 r1 rw rl rt' rest w6)
    with a list_cmd_distinct(3,4,5,6)[of g n] have "rt' = rt" by auto
    then have mr: "metricsReport (stdout rt') = metricsData True (Number 0) Null []"
      using a by (simp add: metricsReport_unmatched)
    have 1: "WriteMetricsFiles (sshHost g) (sshUser g) ''minecraft'' (serverName g)
          (metricsData True (Number 0) Null [])
        \<in> set (newEvents w (snd (collectMetrics e g w)))"
      unfolding query(1) mr by simp
    have 2: "\<forall>d. fst (collectMetrics e g w) = Returned d \<longrightarrow>
           serverRunning d = Some True \<and> online d = Some (Val (Number 0)) \<and>
           max' d = Some Null \<and> players d = Some []"
      using query(3) unfolding mr by (auto simp: metricsData_def)
    have 3: "\<forall>err. fst (collectMetrics e g w) = Threw err \<longrightarrow>
           (\<exists>w'. fst (metricsWrite e w' (metricsData True (Number 0) Null [])) = Some err)"
      using query(4) unfolding mr by blast
    from 1 2 3 show ?thesis by blast
  qed
  then show "WriteMetricsFiles (sshHost g) (sshUser g) ''minecraft'' (serverName g)
          (metricsData True (Number 0) Null [])
        \<in> set (newEvents w (snd (collectMetrics e g w)))"
    and "\<forall>d. fst (collectMetrics e g w) = Returned d \<longrightarrow>
           serverRunning d = Some True \<and> online d = Some (Val (Number 0)) \<and>
           max' d = Some Null \<and> players d = Some []"
    and "\<forall>err. fst (collectMetrics e g w) = Threw err \<longrightarrow>
           (\<exists>w'. fst (metricsWrite e w' (metricsData True (Number 0) Null [])) = Some err)"
    by blast+
qed

theorem unmatched_reply_result_witness:
  "Exec (sshHost demoArgs) (sshUser demoArgs) (tailCmd demoArgs (Number 41)) (out demoNoise)
     \<in> set (newEvents demoWorld
              (snd (status (demoServer 0 1000000000 1000000000 demoNoise) demoArgs demoWorld))) \<and>
   Exec (sshHost demoArgs) (sshUser demoArgs) (tailCmd demoArgs (Number 41)) (out demoNoise)
     \<in> set (newEvents demoWorld
              (snd (collectMetrics (demoServer 0 1000000000 1000000000 demoNoise) demoArgs demoWorld))) \<and>
   matchPlayerList (stdout (out demoNoise)) = None \<and>
   (\<exists>d. fst (status (demoServer 0 1000000000 1000000000 demoNoise) demoArgs demoWorld) = Returned d \<and>
        serverRunning d = Some True \<and> online d = Some Null \<and> max' d = Some Null \<and>
        players d = Some []) \<and>
   WriteMetricsFiles (sshHost demoArgs) (sshUser demoArgs) ''minecraft'' (serverName demoArgs)
       (metricsData True (Number 0) Null [])
     \<in> set (newEvents demoWorld
              (snd (collectMetrics (demoServer 0 1000000000 1000000000 demoNoise) demoArgs demoWorld)))"
proof -
  let ?D = "demoServer 0 1000000000 1000000000 demoNoise"
  let ?ev = "Exec (sshHost demoArgs) (sshUser demoArgs) (tailCmd demoArgs (Number 41)) (out demoNoise)"
  have pos: "(0::nat) < 1000000000" by simp
  have m1: "?ev \<in> set (newEvents demoWorld (snd (status ?D demoArgs demoWorld)))"
    unfolding demo_query(1)[OF pos] by simp
  have m2: "?ev \<in> set (newEvents demoWorld (snd (collectMetrics ?D demoArgs demoWorld)))"
    unfolding demo_query(3)[OF pos] by simp
  note th = unmatched_reply_result[of "sshHost demoArgs" "sshUser demoArgs" demoArgs "Number 41"
      "out demoNoise" demoWorld ?D]
  from th m1 demoNoise_line
  have c1: "\<exists>d. fst (status ?D demoArgs demoWorld) = Returned d \<and>
        serverRunning d = Some True \<and> online d = Some Null \<and> max' d = Some Null \<and>
        players d = Some []"
    by blast
  from th m2 demoNoise_line
  have c2: "WriteMetricsFiles (sshHost demoArgs) (sshUser demoArgs) ''minecraft'' (serverName demoArgs)
       (metricsData True (Number 0) Null [])
     \<in> set (newEvents demoWorld (snd (collectMetrics ?D demoArgs demoWorld)))"
    by blast
  from m1 m2 demoNoise_line c1 c2 show ?thesis by blast
qed
section \<open>The console commands step by step\<close>

lemma say_cases:
  obtains
    (empty) "message = []" "say e g message w = (Threw ''message is required'', w)"
  | (gate) "message \<noteq> []" "\<not> isValidSshHost e (sshHost g)"
      "say e g message w = writeResource ''server'' (serverName g) (respSkipped True) w"
  | (missing) r1 w1 where "message \<noteq> []" "isValidSshHost e (sshHost g)"
      "r1 = respond e w (sshHost g) (sshUser g) (hasSessionCmd g)"
      "trace (w1::world) = trace w @ [Exec (sshHost g) (sshUser g) (hasSessionCmd g) r1]"
      "trim (stdout r1) \<noteq> ''exists''"
      "say e g message w = writeResource ''server'' (serverName g) (respSkipped True) w1"
  | (sent) r1 w1 r2 w2 where "message \<noteq> []" "isValidSshHost e (sshHost g)"
      "r1 = respond e w (sshHost g) (sshUser g) (hasSessionCmd g)"
      "trace (w1::world) = trace w @ [Exec (sshHost g) (sshUser g) (hasSessionCmd g) r1]"
      "trim (stdout r1) = ''exists''"
      "r2 = respond e w1 (sshHost g) (sshUser g) (sendKeysCmd g (''say '' @ message))"
      "trace w2 = trace w1 @ [Exec (sshHost g) (sshUser g) (sendKeysCmd g (''say '' @ message)) r2]"
      "say e g message w = writeResource ''server'' (serverName g) (respSkipped False) w2"
proof -
  obtain r1 w1 where s1: "sshExecRaw e (sshHost g) (sshUser g) (hasSessionCmd g) w = (r1, w1)"
    and t1: "trace w1 = trace w @ [Exec (sshHost g) (sshUser g) (hasSessionCmd g) r1]"
    and c1: "clock w1 = clock w + latency e w (sshHost g) (sshUser g) (hasSessionCmd g)"
    and v1: "r1 = respond e w (sshHost g) (sshUser g) (hasSessionCmd g)"
    by (rule exec_step)
  obtain r2 w2 where s2: "sshExecRaw e (sshHost g) (sshUser g) (sendKeysCmd g (''say '' @ message)) w1 = (r2, w2)"
    and t2: "trace w2 = trace w1 @ [Exec (sshHost g) (sshUser g) (sendKeysCmd g (''say '' @ message)) r2]"
    and c2: "clock w2 = clock w1 + latency e w1 (sshHost g) (sshUser g) (sendKeysCmd g (''say '' @ message))"
    and v2: "r2 = respond e w1 (sshHost g) (sshUser g) (sendKeysCmd g (''say '' @ message))"
    by (rule exec_step)
  have eq: "say e g message w =
     (if message = [] then (Threw ''message is required'', w)
      else if \<not> isValidSshHost e (sshHost g)
      then writeResource ''server'' (serverName g) (respSkipped True) w
      else if trim (stdout r1) \<noteq> ''exists''
      then writeResource ''server'' (serverName g) (respSkipped True) w1
      else writeResource ''server'' (serverName g) (respSkipped False) w2)"
    unfolding say_def s1 prod.case s2 by (rule refl)
  consider (a) "message = []" | (b) "message \<noteq> []" "\<not> isValidSshHost e (sshHost g)"
    | (c) "message \<noteq> []" "isValidSshHost e (sshHost g)" "trim (stdout r1) \<noteq> ''exists''"
    | (d) "message \<noteq> []" "isValidSshHost e (sshHost g)" "trim (stdout r1) = ''exists''"
    by blast
  then show thesis
  proof cases
    case a
    then have "say e g message w = (Threw ''message is required'', w)" unfolding eq by simp
    with a show thesis by (rule empty)
  next
    case b
    then show thesis by (intro gate) (simp_all add: eq)
  next
    case c
    show thesis by (rule missing[OF c(1,2) v1 t1 c(3)]) (simp add: eq c)
  next
    case d
    show thesis by (rule sent[OF d(1,2) v1 t1 d(3) v2 t2]) (simp add: eq d)
  qed
qed

lemma op_cases:
  obtains
    (empty) "playerName = []" "op e g playerName w = (Threw ''playerName is required'', w)"
  | (gate) "playerName \<noteq> []" "\<not> isValidSshHost e (sshHost g)"
      "op e g playerName w = writeResource ''server'' (serverName g) (respSkipped True) w"
  | (missing) r1 w1 where "playerName \<noteq> []" "isValidSshHost e (sshHost g)"
      "r1 = respond e w (sshHost g) (sshUser g) (hasSessionCmd g)"
      "trace (w1::world) = trace w @ [Exec (sshHost g) (sshUser g) (hasSessionCmd g) r1]"
      "trim (stdout r1) \<noteq> ''exists''"
      "op e g playerName w = writeResource ''server'' (serverName g) (respSkipped True) w1"
  | (sent) r1 w1 r2 w2 where "playerName \<noteq> []" "isValidSshHost e (sshHost g)"
      "r1 = respond e w (sshHost g) (sshUser g) (hasSessionCmd g)"
      "trace (w1::world) = trace w @ [Exec (sshHost g) (sshUser g) (hasSessionCmd g) r1]"
      "trim (stdout r1) = ''exists''"
      "r2 = respond e w1 (sshHost g) (sshUser g) (sendKeysCmd g (''op '' @ sanitize playerName))"
      "trace w2 = trace w1 @ [Exec (sshHost g) (sshUser g) (sendKeysCmd g (''op '' @ sanitize playerName)) r2]"
      "op e g playerName w = writeResource ''server'' (serverName g) (respSkipped False) w2"
proof -
  obtain r1 w1 where s1: "sshExecRaw e (sshHost g) (sshUser g) (hasSessionCmd g) w = (r1, w1)"
    and t1: "trace w1 = trace w @ [Exec (sshHost g) (sshUser g) (hasSessionCmd g) r1]"
    and c1: "clock w1 = clock w + latency e w (sshHost g) (sshUser g) (hasSessionCmd g)"
    and v1: "r1 = respond e w (sshHost g) (sshUser g) (hasSessionCmd g)"
    by (rule exec_step)
  obtain r2 w2 where s2: "sshExecRaw e (sshHost g) (sshUser g) (sendKeysCmd g (''op '' @ sanitize playerName)) w1 = (r2, w2)"
    and t2: "trace w2 = trace w1 @ [Exec (sshHost g) (sshUser g) (sendKeysCmd g (''op '' @ sanitize playerName)) r2]"
    and c2: "clock w2 = clock w1 + latency e w1 (sshHost g) (sshUser g) (sendKeysCmd g (''op '' @ sanitize playerName))"
    and v2: "r2 = respond e w1 (sshHost g) (sshUser g) (sendKeysCmd g (''op '' @ sanitize playerName))"
    by (rule exec_step)
  have eq: "op e g playerName w =
     (if playerName = [] then (Threw ''playerName is required'', w)
      else if \<not> isValidSshHost e (sshHost g)
      then writeResource ''server'' (serverName g) (respSkipped True) w
      else if trim (stdout r1) \<noteq> ''exists''
      then writeResource ''server'' (serverName g) (respSkipped True) w1
      else writeResource ''server'' (serverName g) (respSkipped False) w2)"
    unfolding op_def s1 prod.case s2 by (rule refl)
  consider (a) "playerName = []" | (b) "playerName \<noteq> []" "\<not> isValidSshHost e (sshHost g)"
    | (c) "playerName \<noteq> []" "isValidSshHost e (sshHost g)" "trim (stdout r1) \<noteq> ''exists''"
    | (d) "playerName \<noteq> []" "isValidSshHost e (sshHost g)" "trim (stdout r1) = ''exists''"
    by blast
  then show thesis
  proof cases
    case a
    then have "op e g playerName w = (Threw ''playerName is required'', w)" unfolding eq by simp
    with a show thesis by (rule empty)
  next
    case b
    then show thesis by (intro gate) (simp_all add: eq)
  next
    case c
    show thesis by (rule missing[OF c(1,2) v1 t1 c(3)]) (simp add: eq c)
  next
    case d
    show thesis by (rule sent[OF d(1,2) v1 t1 d(3) v2 t2]) (simp add: eq d)
  qed
qed

lemma deop_cases:
  obtains
    (empty) "playerName = []" "deop e g playerName w = (Threw ''playerName is required'', w)"
  | (gate) "playerName \<noteq> []" "\<not> isValidSshHost e (sshHost g)"
      "deop e g playerName w = writeResource ''server'' (serverName g) (respSkipped True) w"
  | (missing) r1 w1 where "playerName \<noteq> []" "isValidSshHost e (sshHost g)"
      "r1 = respond e w (sshHost g) (sshUser g) (hasSessionCmd g)"
      "trace (w1::world) = trace w @ [Exec (sshHost g) (sshUser g) (hasSessionCmd g) r1]"
      "trim (stdout r1) \<noteq> ''exists''"
      "deop e g playerName w = writeResource ''server'' (serverName g) (respSkipped True) w1"
  | (sent) r1 w1 r2 w2 where "playerName \<noteq> []" "isValidSshHost e (sshHost g)"
      "r1 = respond e w (sshHost g) (sshUser g) (hasSessionCmd g)"
      "trace (w1::world) = trace w @ [Exec (sshHost g) (sshUser g) (hasSessionCmd g) r1]"
      "trim (stdout r1) = ''exists''"
      "r2 = respond e w1 (sshHost g) (sshUser g) (sendKeysCmd g (''deop '' @ sanitize playerName))"
      "trace w2 = trace w1 @ [Exec (sshHost g) (sshUser g) (sendKeysCmd g (''deop '' @ sanitize playerName)) r2]"
      "deop e g playerName w = writeResource ''server'' (serverName g) (respSkipped False) w2"
proof -
  obtain r1 w1 where s1: "sshExecRaw e (sshHost g) (sshUser g) (hasSessionCmd g) w = (r1, w1)"
    and t1: "trace w1 = trace w @ [Exec (sshHost g) (sshUser g) (hasSessionCmd g) r1]"
    and c1: "clock w1 = clock w + latency e w (sshHost g) (sshUser g) (hasSessionCmd g)"
    and v1: "r1 = respond e w (sshHost g) (sshUser g) (hasSessionCmd g)"
    by (rule exec_step)
  obtain r2 w2 where s2: "sshExecRaw e (sshHost g) (sshUser g) (sendKeysCmd g (''deop '' @ sanitize playerName)) w1 = (r2, w2)"
    and t2: "trace w2 = trace w1 @ [Exec (sshHost g) (sshUser g) (sendKeysCmd g (''deop '' @ sanitize playerName)) r2]"
    and c2: "clock w2 = clock w1 + latency e w1 (sshHost g) (sshUser g) (sendKeysCmd g (''deop '' @ sanitize playerName))"
    and v2: "r2 = respond e w1 (sshHost g) (sshUser g) (sendKeysCmd g (''deop '' @ sanitize playerName))"
    by (rule exec_step)
  have eq: "deop e g playerName w =
     (if playerName = [] then (Threw ''playerName is required'', w)
      else if \<not> isValidSshHost e (sshHost g)
      then writeResource ''server'' (serverName g) (respSkipped True) w
      else if trim (stdout r1) \<noteq> ''exists''
      then writeResource ''server'' (serverName g) (respSkipped True) w1
      else writeResource ''server'' (serverName g) (respSkipped False) w2)"
    unfolding deop_def s1 prod.case s2 by (rule refl)
  consider (a) "playerName = []" | (b) "playerName \<noteq> []" "\<not> isValidSshHost e (sshHost g)"
    | (c) "playerName \<noteq> []" "isValidSshHost e (sshHost g)" "trim (stdout r1) \<noteq> ''exists''"
    | (d) "playerName \<noteq> []" "isValidSshHost e (sshHost g)" "trim (stdout r1) = ''exists''"
    by blast
  then show thesis
  proof cases
    case a
    then have "deop e g playerName w = (Threw ''playerName is required'', w)" unfolding eq by simp
    with a show thesis by (rule empty)
  next
    case b
    then show thesis by (intro gate) (simp_all add: eq)
  next
    case c
    show thesis by (rule missing[OF c(1,2) v1 t1 c(3)]) (simp add: eq c)
  next
    case d
    show thesis by (rule sent[OF d(1,2) v1 t1 d(3) v2 t2]) (simp add: eq d)
  qed
qed

section \<open>Operator commands carry a sanitized name\<close>

lemma wordChars_codes:
  "map of_char ''abcdefghijklmnopqrstuvwxyz'' = [97..<(123::nat)]"
  "map of_char ''ABCDEFGHIJKLMNOPQRSTUVWXYZ'' = [65..<(91::nat)]"
  "map of_char ''0123456789'' = [48..<(58::nat)]"
  by (simp_all add: upt_rec)

lemma isWordChar_set:
  "isWordChar c \<longleftrightarrow>
     c \<in> set ''abcdefghijklmnopqrstuvwxyzABCDEFGHIJKLMNOPQRSTUVWXYZ0123456789_''"
proof -
  have inj: "\<And>s. (of_char c :: nat) \<in> set (map of_char s) \<longleftrightarrow> c \<in> set s"
    by (auto simp: image_iff)
  have "(95::nat) = of_char (CHR ''_'')" by simp
  then have u: "(of_char c :: nat) = 95 \<longleftrightarrow> c = CHR ''_''"
    by (simp only: of_char_eq_iff)
  have "isWordChar c \<longleftrightarrow>
      (of_char c :: nat) \<in> set [97..<123] \<or> (of_char c :: nat) \<in> set [65..<91] \<or>
      (of_char c :: nat) \<in> set [48..<58] \<or> (of_char c :: nat) = 95"
    unfolding isWordChar_def Let_def set_upt atLeastLessThan_iff by arith
  also have "\<dots> \<longleftrightarrow> c \<in> set ''abcdefghijklmnopqrstuvwxyz'' \<or> c \<in> set ''ABCDEFGHIJKLMNOPQRSTUVWXYZ''
      \<or> c \<in> set ''0123456789'' \<or> c = CHR ''_''"
    unfolding wordChars_codes[symmetric] inj u by (rule refl)
  also have "\<dots> \<longleftrightarrow> c \<in> set (''abcdefghijklmnopqrstuvwxyz'' @ ''ABCDEFGHIJKLMNOPQRSTUVWXYZ'' @ ''0123456789'' @ ''_'')"
    unfolding set_append by auto
  finally show ?thesis by simp
qed

lemma sendKeys_text:
  "sendKeysCmd g (key @ name) =
     ''tmux send-keys -t '' @ tmuxSession g @ '' '' @ [CHR 0x27] @ key @ name @ [CHR 0x27] @ '' Enter''"
  by (simp add: sendKeysCmd_def)

text \<open>
  Claim C10. For every \<open>playerName\<close>, the only remote commands of \<open>op\<close> and \<open>deop\<close> are
  the session check and \<open>tmux send-keys -t SESSION 'op NAME' Enter\<close> (or \<open>'deop NAME'\<close>),
  where \<open>NAME\<close> is \<open>playerName\<close> with every character outside \<open>[A-Za-z0-9_]\<close> removed;
  so every character of \<open>NAME\<close> is a letter, a digit or an underscore.
\<close>

theorem op_deop_send_sanitized:
  "(\<forall>h u c r. Exec h u c r \<in> set (newEvents w (snd (op e g playerName w))) \<longrightarrow>
      c = hasSessionCmd g \<or>
      c = ''tmux send-keys -t '' @ tmuxSession g @ '' '' @ [CHR 0x27] @ ''op '' @
          sanitize playerName @ [CHR 0x27] @ '' Enter'') \<and>
   (\<forall>h u c r. Exec h u c r \<in> set (newEvents w (snd (deop e g playerName w))) \<longrightarrow>
      c = hasSessionCmd g \<or>
      c = ''tmux send-keys -t '' @ tmuxSession g @ '' '' @ [CHR 0x27] @ ''deop '' @
          sanitize playerName @ [CHR 0x27] @ '' Enter'') \<and>
   sanitize playerName =
     filter (\<lambda>ch. ch \<in> set ''abcdefghijklmnopqrstuvwxyzABCDEFGHIJKLMNOPQRSTUVWXYZ0123456789_'')
       playerName \<and>
   (\<forall>ch\<in>set (sanitize playerName).
      ch \<in> set ''abcdefghijklmnopqrstuvwxyzABCDEFGHIJKLMNOPQRSTUVWXYZ0123456789_'')"
proof (intro conjI allI impI ballI)
  fix h u c r
  assume a: "Exec h u c r \<in> set (newEvents w (snd (op e g playerName w)))"
  show "c = hasSessionCmd g \<or>
      c = ''tmux send-keys -t '' @ tmuxSession g @ '' '' @ [CHR 0x27] @ ''op '' @
          sanitize playerName @ [CHR 0x27] @ '' Enter''"
  proof (cases rule: op_cases[of playerName e g w])
    case empty
    with a show ?thesis by simp
  next
    case gate
    with a show ?thesis by simp
  next
    case (missing r1 w1)
    have "newEvents w (snd (op e g playerName w)) =
        [Exec (sshHost g) (sshUser g) (hasSessionCmd g) r1,
         WriteResource ''server'' (serverName g) (respSkipped True)]"
      unfolding missing(6) by (rule newEvents_append) (simp add: missing(4))
    with a show ?thesis by simp
  next
    case (sent r1 w1 r2 w2)
    have "newEvents w (snd (op e g playerName w)) =
        [Exec (sshHost g) (sshUser g) (hasSessionCmd g) r1,
         Exec (sshHost g) (sshUser g) (sendKeysCmd g (''op '' @ sanitize playerName)) r2,
         WriteResource ''server'' (serverName g) (respSkipped False)]"
      unfolding sent(8) by (rule newEvents_append) (simp add: sent(4,7))
    with a show ?thesis unfolding sendKeys_text by auto
  qed
next
  fix h u c r
  assume a: "Exec h u c r \<in> set (newEvents w (snd (deop e g playerName w)))"
  show "c = hasSessionCmd g \<or>
      c = ''tmux send-keys -t '' @ tmuxSession g @ '' '' @ [CHR 0x27] @ ''deop '' @
          sanitize playerName @ [CHR 0x27] @ '' Enter''"
  proof (cases rule: deop_cases[of playerName e g w])
    case empty
    with a show ?thesis by simp
  next
    case gate
    with a show ?thesis by simp
  next
    case (missing r1 w1)
    have "newEvents w (snd (deop e g playerName w)) =
        [Exec (sshHost g) (sshUser g) (hasSessionCmd g) r1,
         WriteResource ''server'' (serverName g) (respSkipped True)]"
      unfolding missing(6) by (rule newEvents_append) (simp add: missing(4))
    with a show ?thesis by simp
  next
    case (sent r1 w1 r2 w2)
    have "newEvents w (snd (deop e g playerName w)) =
        [Exec (sshHost g) (sshUser g) (hasSessionCmd g) r1,
         Exec (sshHost g) (sshUser g) (sendKeysCmd g (''deop '' @ sanitize playerName)) r2,
         WriteResource ''server'' (serverName g) (respSkipped False)]"
      unfolding sent(8) by (rule newEvents_append) (simp add: sent(4,7))
    with a show ?thesis unfolding sendKeys_text by auto
  qed
next
  show "sanitize playerName =
     filter (\<lambda>ch. ch \<in> set ''abcdefghijklmnopqrstuvwxyzABCDEFGHIJKLMNOPQRSTUVWXYZ0123456789_'')
       playerName"
    unfolding sanitize_def by (rule filter_cong) (simp_all only: isWordChar_set)
next
  fix ch assume "ch \<in> set (sanitize playerName)"
  then have "isWordChar ch" by (simp add: sanitize_def)
  then show "ch \<in> set ''abcdefghijklmnopqrstuvwxyzABCDEFGHIJKLMNOPQRSTUVWXYZ0123456789_''"
    by (simp only: isWordChar_set)
qed

lemma sanitize_demo: "sanitize ''Steve; rm -rf /'' = ''Stevermrf''"
  by code_simp

theorem op_deop_send_sanitized_witness:
  "Exec (sshHost demoArgs) (sshUser demoArgs) ''tmux send-keys -t mons 'op Stevermrf' Enter'' (out [])
     \<in> set (newEvents demoWorld
          (snd (op (demoServer 0 1000000000 1000000000 demoLog) demoArgs ''Steve; rm -rf /'' demoWorld))) \<and>
   (''tmux send-keys -t mons 'op Stevermrf' Enter'' = hasSessionCmd demoArgs \<or>
    ''tmux send-keys -t mons 'op Stevermrf' Enter'' =
      ''tmux send-keys -t '' @ tmuxSession demoArgs @ '' '' @ [CHR 0x27] @ ''op '' @
          sanitize ''Steve; rm -rf /'' @ [CHR 0x27] @ '' Enter'') \<and>
   CHR ''S'' \<in> set (sanitize ''Steve; rm -rf /'') \<and>
   CHR ''S'' \<in> set ''abcdefghijklmnopqrstuvwxyzABCDEFGHIJKLMNOPQRSTUVWXYZ0123456789_''"
proof -
  let ?D = "demoServer 0 1000000000 1000000000 demoLog"
  let ?p = "''Steve; rm -rf /''"
  have cmd: "sendKeysCmd demoArgs (''op '' @ sanitize ?p) = ''tmux send-keys -t mons 'op Stevermrf' Enter''"
    unfolding sanitize_demo by (simp add: sendKeysCmd_def demoArgs_def)
  have k0: "clock demoWorld = 0" by (simp add: demoWorld_def)
  have ev: "newEvents demoWorld (snd (op ?D demoArgs ?p demoWorld)) =
        [Exec (sshHost demoArgs) (sshUser demoArgs) (hasSessionCmd demoArgs) (out ''exists''),
         Exec (sshHost demoArgs) (sshUser demoArgs) ''tmux send-keys -t mons 'op Stevermrf' Enter'' (out []),
         WriteResource ''server'' (serverName demoArgs) (respSkipped False)]"
  proof (cases rule: op_cases[of ?p ?D demoArgs demoWorld])
    case empty
    then show ?thesis by simp
  next
    case gate
    then show ?thesis by (simp add: demo_valid)
  next
    case (missing r1 w1)
    then show ?thesis by (simp add: demo_respond k0 trim_out)
  next
    case (sent r1 w1 r2 w2)
    have r1: "r1 = out ''exists''" unfolding sent(3) by (simp add: demo_respond k0)
    have r2: "r2 = out []" unfolding sent(6) by (rule demo_respond)
    have t2: "trace w2 = trace w1 @ [Exec (sshHost demoArgs) (sshUser demoArgs)
        ''tmux send-keys -t mons 'op Stevermrf' Enter'' r2]"
      using sent(7) unfolding cmd .
    show ?thesis
      unfolding sent(8) by (rule newEvents_append) (simp add: sent(4) t2 r1 r2)
  qed
  have m: "Exec (sshHost demoArgs) (sshUser demoArgs) ''tmux send-keys -t mons 'op Stevermrf' Enter'' (out [])
     \<in> set (newEvents demoWorld (snd (op ?D demoArgs ?p demoWorld)))"
    unfolding ev by simp
  note th = op_deop_send_sanitized[of demoWorld ?D demoArgs ?p]
  from th m have
    "''tmux send-keys -t mons 'op Stevermrf' Enter'' = hasSessionCmd demoArgs \<or>
    ''tmux send-keys -t mons 'op Stevermrf' Enter'' =
      ''tmux send-keys -t '' @ tmuxSession demoArgs @ '' '' @ [CHR 0x27] @ ''op '' @
          sanitize ''Steve; rm -rf /'' @ [CHR 0x27] @ '' Enter''"
    by blast
  moreover have s: "CHR ''S'' \<in> set (sanitize ''Steve; rm -rf /'')"
    unfolding sanitize_demo by simp
  moreover from th s
  have "CHR ''S'' \<in> set ''abcdefghijklmnopqrstuvwxyzABCDEFGHIJKLMNOPQRSTUVWXYZ0123456789_''"
    by blast
  ultimately show ?thesis using m by blast
qed

section \<open>No host configured\<close>

lemma noHost_invalid: "\<not> isValidSshHost (demoServer a b c l) (sshHost noHostArgs)"
  by (simp add: demoServer_def noHostArgs_def isConfigured_def)

text \<open>
  Claim C5 as stated fails for \<open>say\<close> (and likewise \<open>op\<close>, \<open>deop\<close>): with no host and an
  empty message, which is the default of the argument, it throws instead of returning
  the skipped result.
\<close>

theorem say_no_host_counterexample:
  "\<not> isValidSshHost (demoServer 0 0 0 []) (sshHost noHostArgs) \<and>
   say (demoServer 0 0 0 []) noHostArgs [] demoWorld = (Threw ''message is required'', demoWorld)"
  by (simp add: noHost_invalid say_def)

text \<open>
  Claim C5, amended. With no valid host: \<open>say\<close> with a non-empty message, \<open>op\<close> and
  \<open>deop\<close> with a non-empty player name, and \<open>warnShutdown\<close> return the skipped result,
  \<open>stopMinecraftServer\<close> returns the already-stopped result and \<open>status\<close> the
  not-running result; the only effect is the resource written, so no remote command is
  run and no time passes. With an empty message or player name, \<open>say\<close>, \<open>op\<close> and
  \<open>deop\<close> throw, with no effect at all.
\<close>

theorem no_host_short_circuit:
  assumes "\<not> isValidSshHost e (sshHost g)"
  shows
  "(message \<noteq> [] \<longrightarrow>
      say e g message w =
        (Returned (respSkipped True),
         w\<lparr>trace := trace w @ [WriteResource ''server'' (serverName g) (respSkipped True)]\<rparr>)) \<and>
   (playerName \<noteq> [] \<longrightarrow>
      op e g playerName w =
        (Returned (respSkipped True),
         w\<lparr>trace := trace w @ [WriteResource ''server'' (serverName g) (respSkipped True)]\<rparr>) \<and>
      deop e g playerName w =
        (Returned (respSkipped True),
         w\<lparr>trace := trace w @ [WriteResource ''server'' (serverName g) (respSkipped True)]\<rparr>)) \<and>
   warnShutdown e g w =
     (Returned (respSkipped True),
      w\<lparr>trace := trace w @ [WriteResource ''server'' (serverName g) (respSkipped True)]\<rparr>) \<and>
   stopMinecraftServer e g w =
     (Returned (respAlreadyStopped w),
      w\<lparr>trace := trace w @ [WriteResource ''server'' (serverName g) (respAlreadyStopped w)]\<rparr>) \<and>
   status e g w =
     (Returned (respNotRunning w),
      w\<lparr>trace := trace w @ [WriteResource ''server'' (serverName g) (respNotRunning w)]\<rparr>) \<and>
   say e g [] w = (Threw ''message is required'', w) \<and>
   op e g [] w = (Threw ''playerName is required'', w) \<and>
   deop e g [] w = (Threw ''playerName is required'', w) \<and>
   success (respSkipped True) = Some True \<and> skipped (respSkipped True) = Some True \<and>
   success (respAlreadyStopped w) = Some True \<and> alreadyStopped (respAlreadyStopped w) = Some True \<and>
   serverRunning (respNotRunning w) = Some False"
proof -
  have 1: "message \<noteq> [] \<longrightarrow>
      say e g message w =
        (Returned (respSkipped True),
         w\<lparr>trace := trace w @ [WriteResource ''server'' (serverName g) (respSkipped True)]\<rparr>)"
    using assms by (simp add: say_def writeResource_def)
  have 2: "playerName \<noteq> [] \<longrightarrow>
      op e g playerName w =
        (Returned (respSkipped True),
         w\<lparr>trace := trace w @ [WriteResource ''server'' (serverName g) (respSkipped True)]\<rparr>) \<and>
      deop e g playerName w =
        (Returned (respSkipped True),
         w\<lparr>trace := trace w @ [WriteResource ''server'' (serverName g) (respSkipped True)]\<rparr>)"
    using assms by (simp add: op_def deop_def writeResource_def)
  have 3: "warnShutdown e g w =
     (Returned (respSkipped True),
      w\<lparr>trace := trace w @ [WriteResource ''server'' (serverName g) (respSkipped True)]\<rparr>)"
    using assms by (simp add: warnShutdown_def writeResource_def)
  have 4: "stopMinecraftServer e g w =
     (Returned (respAlreadyStopped w),
      w\<lparr>trace := trace w @ [WriteResource ''server'' (serverName g) (respAlreadyStopped w)]\<rparr>)"
    using assms by (simp add: stopMinecraftServer_def writeResource_def)
  have 5: "status e g w =
     (Returned (respNotRunning w),
      w\<lparr>trace := trace w @ [WriteResource ''server'' (serverName g) (respNotRunning w)]\<rparr>)"
    using assms by (simp add: status_def writeResource_def)
  have 6: "say e g [] w = (Threw ''message is required'', w)"
    "op e g [] w = (Threw ''playerName is required'', w)"
    "deop e g [] w = (Threw ''playerName is required'', w)"
    by (simp_all add: say_def op_def deop_def)
  have 7: "success (respSkipped True) = Some True" "skipped (respSkipped True) = Some True"
    "success (respAlreadyStopped w) = Some True" "alreadyStopped (respAlreadyStopped w) = Some True"
    "serverRunning (respNotRunning w) = Some False"
    by (simp_all add: respSkipped_def respAlreadyStopped_def respNotRunning_def no_data_def)
  from 1 2 3 4 5 6 7 show ?thesis by blast
qed

theorem no_host_short_circuit_witness:
  "\<not> isValidSshHost (demoServer 0 0 0 []) (sshHost noHostArgs) \<and>
   say (demoServer 0 0 0 []) noHostArgs ''hello'' demoWorld =
     (Returned (respSkipped True),
      demoWorld\<lparr>trace := trace demoWorld @
        [WriteResource ''server'' (serverName noHostArgs) (respSkipped True)]\<rparr>) \<and>
   op (demoServer 0 0 0 []) noHostArgs ''Steve'' demoWorld =
     (Returned (respSkipped True),
      demoWorld\<lparr>trace := trace demoWorld @
        [WriteResource ''server'' (serverName noHostArgs) (respSkipped True)]\<rparr>) \<and>
   stopMinecraftServer (demoServer 0 0 0 []) noHostArgs demoWorld =
     (Returned (respAlreadyStopped demoWorld),
      demoWorld\<lparr>trace := trace demoWorld @
        [WriteResource ''server'' (serverName noHostArgs) (respAlreadyStopped demoWorld)]\<rparr>) \<and>
   status (demoServer 0 0 0 []) noHostArgs demoWorld =
     (Returned (respNotRunning demoWorld),
      demoWorld\<lparr>trace := trace demoWorld @
        [WriteResource ''server'' (serverName noHostArgs) (respNotRunning demoWorld)]\<rparr>)"
proof -
  have ne: "''hello'' \<noteq> []" "''Steve'' \<noteq> []" by simp_all
  note th = no_host_short_circuit[OF noHost_invalid[of 0 0 0 "[]"],
      of "''hello''" demoWorld "''Steve''"]
  from th ne noHost_invalid[of 0 0 0 "[]"] show ?thesis by blast
qed

section \<open>The pid-liveness loop\<close>

lemma pidLoop_done: "\<not> clock w < dl \<Longrightarrow> pidLoop e g pid dl w = w"
  by (subst pidLoop.simps) simp

lemma pidLoop_step:
  assumes "clock w < dl"
  obtains r w2 where
    "r = respond e (sleep e 3000 w) (sshHost g) (sshUser g) (killCheckCmd pid)"
    "trace w2 = trace w @ [Sleep 3000, Exec (sshHost g) (sshUser g) (killCheckCmd pid) r]"
    "clock w2 = clock w + 3000 + oversleep e w 3000 +
        latency e (sleep e 3000 w) (sshHost g) (sshUser g) (killCheckCmd pid)"
    "pidLoop e g pid dl w = (if trim (stdout r) = ''stopped'' then w2 else pidLoop e g pid dl w2)"
    "sshExecRaw e (sshHost g) (sshUser g) (killCheckCmd pid) (sleep e 3000 w) = (r, w2)"
proof -
  obtain r w2 where s: "sshExecRaw e (sshHost g) (sshUser g) (killCheckCmd pid) (sleep e 3000 w) = (r, w2)"
    and t: "trace w2 = trace (sleep e 3000 w) @ [Exec (sshHost g) (sshUser g) (killCheckCmd pid) r]"
    and c: "clock w2 = clock (sleep e 3000 w) +
        latency e (sleep e 3000 w) (sshHost g) (sshUser g) (killCheckCmd pid)"
    and v: "r = respond e (sleep e 3000 w) (sshHost g) (sshUser g) (killCheckCmd pid)"
    by (rule exec_step)
  have "pidLoop e g pid dl w = (if trim (stdout r) = ''stopped'' then w2 else pidLoop e g pid dl w2)"
    by (subst pidLoop.simps) (simp add: assms s)
  then show thesis
    using that[of r w2] v t c s by simp
qed

text \<open>
  What the loop does: a number of rounds, each a sleep of three seconds followed by a
  liveness check; only the last check can have answered \<open>stopped\<close>; if it did not, the
  deadline has passed.
\<close>

lemma pidLoop_shape:
  "\<exists>rs. trace (pidLoop e g pid dl w) =
          trace w @ concat (map (\<lambda>r. [Sleep 3000, Exec (sshHost g) (sshUser g) (killCheckCmd pid) r]) rs)
     \<and> (clock w < dl \<longrightarrow> rs \<noteq> [])
     \<and> (\<forall>r\<in>set (butlast rs). trim (stdout r) \<noteq> ''stopped'')
     \<and> (rs \<noteq> [] \<and> trim (stdout (last rs)) \<noteq> ''stopped'' \<longrightarrow> dl \<le> clock (pidLoop e g pid dl w))
     \<and> (idealClock e \<longrightarrow> clock (pidLoop e g pid dl w) = clock w + 3000 * length rs)
     \<and> (idealClock e \<and> clock w < dl + 3000 \<longrightarrow> clock (pidLoop e g pid dl w) < dl + 3000)
     \<and> (\<forall>r\<in>set rs. \<exists>w'. r = respond e w' (sshHost g) (sshUser g) (killCheckCmd pid) \<and>
            (idealClock e \<longrightarrow> clock w' < dl + 3000))"
proof (induction e g pid dl w rule: pidLoop.induct)
  case (1 e g pid dl w)
  let ?ev = "\<lambda>r. [Sleep 3000, Exec (sshHost g) (sshUser g) (killCheckCmd pid) r]"
  show ?case
  proof (cases "clock w < dl")
    case False
    then have "pidLoop e g pid dl w = w" by (rule pidLoop_done)
    then show ?thesis by (intro exI[of _ "[]"]) (simp add: False)
  next
    case True
    obtain r w2 where v: "r = respond e (sleep e 3000 w) (sshHost g) (sshUser g) (killCheckCmd pid)"
      and t: "trace w2 = trace w @ ?ev r"
      and c: "clock w2 = clock w + 3000 + oversleep e w 3000 +
          latency e (sleep e 3000 w) (sshHost g) (sshUser g) (killCheckCmd pid)"
      and p: "pidLoop e g pid dl w = (if trim (stdout r) = ''stopped'' then w2 else pidLoop e g pid dl w2)"
      and s: "sshExecRaw e (sshHost g) (sshUser g) (killCheckCmd pid) (sleep e 3000 w) = (r, w2)"
      using pidLoop_step[OF True] by blast
    have ci: "idealClock e \<Longrightarrow> clock w2 = clock w + 3000"
      unfolding c by (simp add: idealClock_def)
    have 7: "\<exists>w'. r = respond e w' (sshHost g) (sshUser g) (killCheckCmd pid) \<and>
            (idealClock e \<longrightarrow> clock w' < dl + 3000)"
      using v True by (intro exI[of _ "sleep e 3000 w"]) (simp add: idealClock_def)
    show ?thesis
    proof (cases "trim (stdout r) = ''stopped''")
      case stopped: True
      then have e: "pidLoop e g pid dl w = w2" unfolding p by simp
      show ?thesis
        unfolding e using True stopped ci 7 by (intro exI[of _ "[r]"]) (simp add: t)
    next
      case running: False
      then have e: "pidLoop e g pid dl w = pidLoop e g pid dl w2" unfolding p by simp
      from "1.IH"[OF True s[symmetric] running]
      obtain rs where
        a: "trace (pidLoop e g pid dl w2) = trace w2 @ concat (map ?ev rs)"
        and b: "clock w2 < dl \<longrightarrow> rs \<noteq> []"
        and d: "\<forall>r\<in>set (butlast rs). trim (stdout r) \<noteq> ''stopped''"
        and f: "rs \<noteq> [] \<and> trim (stdout (last rs)) \<noteq> ''stopped'' \<longrightarrow> dl \<le> clock (pidLoop e g pid dl w2)"
        and h: "idealClock e \<longrightarrow> clock (pidLoop e g pid dl w2) = clock w2 + 3000 * length rs"
        and i: "idealClock e \<and> clock w2 < dl + 3000 \<longrightarrow> clock (pidLoop e g pid dl w2) < dl + 3000"
        and j: "\<forall>r\<in>set rs. \<exists>w'. r = respond e w' (sshHost g) (sshUser g) (killCheckCmd pid) \<and>
            (idealClock e \<longrightarrow> clock w' < dl + 3000)"
        by blast
      have 1: "trace (pidLoop e g pid dl w) = trace w @ concat (map ?ev (r # rs))"
        unfolding e a t by simp
      have 3: "\<forall>x\<in>set (butlast (r # rs)). trim (stdout x) \<noteq> ''stopped''"
        using d running by simp
      have 4: "trim (stdout (last (r # rs))) \<noteq> ''stopped'' \<longrightarrow> dl \<le> clock (pidLoop e g pid dl w)"
      proof (cases "rs = []")
        case True
        with b have "\<not> clock w2 < dl" by blast
        then have "pidLoop e g pid dl w2 = w2" "dl \<le> clock w2" by (simp_all add: pidLoop_done)
        then show ?thesis unfolding e by simp
      next
        case False
        with f show ?thesis unfolding e by simp
      qed
      have 5: "idealClock e \<longrightarrow> clock (pidLoop e g pid dl w) = clock w + 3000 * length (r # rs)"
        unfolding e using h ci by simp
      have 6: "idealClock e \<and> clock w < dl + 3000 \<longrightarrow> clock (pidLoop e g pid dl w) < dl + 3000"
        unfolding e using i ci True by simp
      have 8: "\<forall>x\<in>set (r # rs). \<exists>w'. x = respond e w' (sshHost g) (sshUser g) (killCheckCmd pid) \<and>
            (idealClock e \<longrightarrow> clock w' < dl + 3000)"
        using 7 j by simp
      from 1 3 4 5 6 8 show ?thesis
        by (intro exI[of _ "r # rs"]) simp
    qed
  qed
qed



lemma sleep_in_rounds:
  "rs \<noteq> [] \<Longrightarrow> Sleep 3000 \<in> set (concat (map (\<lambda>r. [Sleep 3000, Exec h u c r]) rs))"
  by (cases rs) simp_all
section \<open>stopMinecraftServer step by step\<close>

lemma stop_unfold:
  obtains r0 w1 r1 w2 rj w3 rs w4 rp w5 pid w6 rk w7 where
    "r0 = respond e w (sshHost g) (sshUser g) ''echo ok''"
    "trace w1 = trace w @ [Exec (sshHost g) (sshUser g) ''echo ok'' r0]"
    "clock w1 = clock w + latency e w (sshHost g) (sshUser g) ''echo ok''"
    "r1 = respond e w1 (sshHost g) (sshUser g) (hasSessionCmd g)"
    "trace w2 = trace w1 @ [Exec (sshHost g) (sshUser g) (hasSessionCmd g) r1]"
    "clock w2 = clock w1 + latency e w1 (sshHost g) (sshUser g) (hasSessionCmd g)"
    "rj = respond e w2 (sshHost g) (sshUser g) javaCheckCmd"
    "trace w3 = trace w2 @ [Exec (sshHost g) (sshUser g) javaCheckCmd rj]"
    "clock w3 = clock w2 + latency e w2 (sshHost g) (sshUser g) javaCheckCmd"
    "rs = respond e w3 (sshHost g) (sshUser g) (sendKeysCmd g ''stop'')"
    "trace w4 = trace w3 @ (if trim (stdout r1) = ''exists''
                           then [Exec (sshHost g) (sshUser g) (sendKeysCmd g ''stop'') rs] else [])"
    "clock w4 = clock w3 + (if trim (stdout r1) = ''exists''
                           then latency e w3 (sshHost g) (sshUser g) (sendKeysCmd g ''stop'') else 0)"
    "rp = respond e w4 (sshHost g) (sshUser g) javaPidCmd"
    "trace w5 = trace w4 @ [Exec (sshHost g) (sshUser g) javaPidCmd rp]"
    "clock w5 = clock w4 + latency e w4 (sshHost g) (sshUser g) javaPidCmd"
    "pid = (case split_on (CHR 0x0A) (trim (stdout rp)) of [] \<Rightarrow> ''undefined'' | l # ls \<Rightarrow> l)"
    "w6 = pidLoop e g pid (clock w5 + 90000) w5"
    "rk = respond e w6 (sshHost g) (sshUser g) (killSessionCmd g)"
    "trace w7 = trace w6 @ [Exec (sshHost g) (sshUser g) (killSessionCmd g) rk]"
    "clock w7 = clock w6 + latency e w6 (sshHost g) (sshUser g) (killSessionCmd g)"
    "stopMinecraftServer e g w =
     (if \<not> isValidSshHost e (sshHost g)
        then writeResource ''server'' (serverName g) (respAlreadyStopped w) w
      else if code r0 \<noteq> 0
        then writeResource ''server'' (serverName g) (respAlreadyStopped w1) w1
      else if trim (stdout r1) \<noteq> ''exists'' \<and> trim (stdout rj) \<noteq> ''running''
        then writeResource ''server'' (serverName g) (respAlreadyStopped w3) w3
      else writeResource ''server'' (serverName g)
             (no_data\<lparr>success := Some True, alreadyStopped := Some False,
                timedOut := Some (clock w5 + 90000 \<le> clock w6), ip := Some (sshHost g),
                timestamp := Some (clock w7)\<rparr>) w7)"
proof -
  let ?H = "sshHost g" and ?U = "sshUser g"
  obtain r0 w1 where s0: "sshExecRaw e ?H ?U ''echo ok'' w = (r0, w1)"
    and t0: "trace w1 = trace w @ [Exec ?H ?U ''echo ok'' r0]"
    and c0: "clock w1 = clock w + latency e w ?H ?U ''echo ok''"
    and v0: "r0 = respond e w ?H ?U ''echo ok''"
    by (rule exec_step)
  obtain r1 w2 where s1: "sshExecRaw e ?H ?U (hasSessionCmd g) w1 = (r1, w2)"
    and t1: "trace w2 = trace w1 @ [Exec ?H ?U (hasSessionCmd g) r1]"
    and c1: "clock w2 = clock w1 + latency e w1 ?H ?U (hasSessionCmd g)"
    and v1: "r1 = respond e w1 ?H ?U (hasSessionCmd g)"
    by (rule exec_step)
  obtain rj w3 where sj: "sshExecRaw e ?H ?U javaCheckCmd w2 = (rj, w3)"
    and tj: "trace w3 = trace w2 @ [Exec ?H ?U javaCheckCmd rj]"
    and cj: "clock w3 = clock w2 + latency e w2 ?H ?U javaCheckCmd"
    and vj: "rj = respond e w2 ?H ?U javaCheckCmd"
    by (rule exec_step)
  define rs where "rs = respond e w3 ?H ?U (sendKeysCmd g ''stop'')"
  define w4 where "w4 = (if trim (stdout r1) = ''exists''
      then snd (sshExecRaw e ?H ?U (sendKeysCmd g ''stop'') w3) else w3)"
  have t4: "trace w4 = trace w3 @ (if trim (stdout r1) = ''exists''
                           then [Exec ?H ?U (sendKeysCmd g ''stop'') rs] else [])"
    unfolding w4_def rs_def by simp
  have c4: "clock w4 = clock w3 + (if trim (stdout r1) = ''exists''
                           then latency e w3 ?H ?U (sendKeysCmd g ''stop'') else 0)"
    unfolding w4_def by simp
  obtain rp w5 where sp: "sshExecRaw e ?H ?U javaPidCmd w4 = (rp, w5)"
    and tp: "trace w5 = trace w4 @ [Exec ?H ?U javaPidCmd rp]"
    and cp: "clock w5 = clock w4 + latency e w4 ?H ?U javaPidCmd"
    and vp: "rp = respond e w4 ?H ?U javaPidCmd"
    by (rule exec_step)
  define pid where "pid = (case split_on (CHR 0x0A) (trim (stdout rp)) of [] \<Rightarrow> ''undefined'' | l # ls \<Rightarrow> l)"
  define w6 where "w6 = pidLoop e g pid (clock w5 + 90000) w5"
  obtain rk w7 where sk: "sshExecRaw e ?H ?U (killSessionCmd g) w6 = (rk, w7)"
    and tk: "trace w7 = trace w6 @ [Exec ?H ?U (killSessionCmd g) rk]"
    and ck: "clock w7 = clock w6 + latency e w6 ?H ?U (killSessionCmd g)"
    and vk: "rk = respond e w6 ?H ?U (killSessionCmd g)"
    by (rule exec_step)
  have eq: "stopMinecraftServer e g w =
     (if \<not> isValidSshHost e (sshHost g)
        then writeResource ''server'' (serverName g) (respAlreadyStopped w) w
      else if code r0 \<noteq> 0
        then writeResource ''server'' (serverName g) (respAlreadyStopped w1) w1
      else if trim (stdout r1) \<noteq> ''exists'' \<and> trim (stdout rj) \<noteq> ''running''
        then writeResource ''server'' (serverName g) (respAlreadyStopped w3) w3
      else writeResource ''server'' (serverName g)
             (no_data\<lparr>success := Some True, alreadyStopped := Some False,
                timedOut := Some (clock w5 + 90000 \<le> clock w6), ip := Some (sshHost g),
                timestamp := Some (clock w7)\<rparr>) w7)"
    unfolding stopMinecraftServer_def s0 prod.case s1 sj Let_def w4_def[symmetric] sp
      pid_def[symmetric]
    by (simp add: w6_def[symmetric] sk)
  show thesis
    by (rule that[OF v0 t0 c0 v1 t1 c1 vj tj cj rs_def t4 c4 vp tp cp pid_def w6_def vk tk ck eq])
qed
lemma probe_cmds_distinct:
  "take 8 ''echo ok'' \<noteq> ''kill -0 ''" "take 8 (hasSessionCmd g) \<noteq> ''kill -0 ''"
  "take 8 javaCheckCmd \<noteq> ''kill -0 ''" "take 8 (sendKeysCmd g keys) \<noteq> ''kill -0 ''"
  "take 8 javaPidCmd \<noteq> ''kill -0 ''" "take 8 (killSessionCmd g) \<noteq> ''kill -0 ''"
  by (simp_all add: cmd_defs)

lemma resp_fields:
  "success (respAlreadyStopped w) = Some True" "alreadyStopped (respAlreadyStopped w) = Some True"
  "timedOut (respAlreadyStopped w) = Some False"
  by (simp_all add: respAlreadyStopped_def no_data_def)

text \<open>A stop on a target that is already stopped: probes only.\<close>

lemma stop_quiet:
  assumes "\<not> isValidSshHost e (sshHost g) \<or>
     (\<forall>w. code (respond e w (sshHost g) (sshUser g) ''echo ok'') \<noteq> 0) \<or>
     (\<forall>w. trim (stdout (respond e w (sshHost g) (sshUser g) (hasSessionCmd g))) \<noteq> ''exists'' \<and>
          trim (stdout (respond e w (sshHost g) (sshUser g) javaCheckCmd)) \<noteq> ''running'')"
  shows "\<exists>w' evs. fst (stopMinecraftServer e g w) = Returned (respAlreadyStopped w') \<and>
     trace (snd (stopMinecraftServer e g w)) = trace w @ evs \<and>
     (\<forall>h u c r. Exec h u c r \<in> set evs \<longrightarrow>
        c = ''echo ok'' \<or> c = hasSessionCmd g \<or> c = javaCheckCmd) \<and>
     (\<forall>ms. Sleep ms \<notin> set evs)"
proof -
  obtain r0 w1 r1 w2 rj w3 rx w4 rp w5 pid w6 rk w7 where
    v0: "r0 = respond e w (sshHost g) (sshUser g) ''echo ok''"
    and t0: "trace w1 = trace w @ [Exec (sshHost g) (sshUser g) ''echo ok'' r0]"
    and c0: "clock w1 = clock w + latency e w (sshHost g) (sshUser g) ''echo ok''"
    and v1: "r1 = respond e w1 (sshHost g) (sshUser g) (hasSessionCmd g)"
    and t1: "trace w2 = trace w1 @ [Exec (sshHost g) (sshUser g) (hasSessionCmd g) r1]"
    and c1: "clock w2 = clock w1 + latency e w1 (sshHost g) (sshUser g) (hasSessionCmd g)"
    and vj: "rj = respond e w2 (sshHost g) (sshUser g) javaCheckCmd"
    and tj: "trace w3 = trace w2 @ [Exec (sshHost g) (sshUser g) javaCheckCmd rj]"
    and cj: "clock w3 = clock w2 + latency e w2 (sshHost g) (sshUser g) javaCheckCmd"
    and vs: "rx = respond e w3 (sshHost g) (sshUser g) (sendKeysCmd g ''stop'')"
    and t4: "trace w4 = trace w3 @ (if trim (stdout r1) = ''exists''
                           then [Exec (sshHost g) (sshUser g) (sendKeysCmd g ''stop'') rx] else [])"
    and c4: "clock w4 = clock w3 + (if trim (stdout r1) = ''exists''
                           then latency e w3 (sshHost g) (sshUser g) (sendKeysCmd g ''stop'') else 0)"
    and vp: "rp = respond e w4 (sshHost g) (sshUser g) javaPidCmd"
    and tp: "trace w5 = trace w4 @ [Exec (sshHost g) (sshUser g) javaPidCmd rp]"
    and cp: "clock w5 = clock w4 + latency e w4 (sshHost g) (sshUser g) javaPidCmd"
    and pid: "pid = (case split_on (CHR 0x0A) (trim (stdout rp)) of [] \<Rightarrow> ''undefined'' | l # ls \<Rightarrow> l)"
    and w6: "w6 = pidLoop e g pid (clock w5 + 90000) w5"
    and vk: "rk = respond e w6 (sshHost g) (sshUser g) (killSessionCmd g)"
    and tk: "trace w7 = trace w6 @ [Exec (sshHost g) (sshUser g) (killSessionCmd g) rk]"
    and ck: "clock w7 = clock w6 + latency e w6 (sshHost g) (sshUser g) (killSessionCmd g)"
    and eq: "stopMinecraftServer e g w =
     (if \<not> isValidSshHost e (sshHost g)
        then writeResource ''server'' (serverName g) (respAlreadyStopped w) w
      else if code r0 \<noteq> 0
        then writeResource ''server'' (serverName g) (respAlreadyStopped w1) w1
      else if trim (stdout r1) \<noteq> ''exists'' \<and> trim (stdout rj) \<noteq> ''running''
        then writeResource ''server'' (serverName g) (respAlreadyStopped w3) w3
      else writeResource ''server'' (serverName g)
             (no_data\<lparr>success := Some True, alreadyStopped := Some False,
                timedOut := Some (clock w5 + 90000 \<le> clock w6), ip := Some (sshHost g),
                timestamp := Some (clock w7)\<rparr>) w7)"
    by (rule stop_unfold)
  consider (a) "\<not> isValidSshHost e (sshHost g)"
    | (b) "isValidSshHost e (sshHost g)" "code r0 \<noteq> 0"
    | (c) "isValidSshHost e (sshHost g)" "code r0 = 0"
    by blast
  then show ?thesis
  proof cases
    case a
    then have "stopMinecraftServer e g w =
        writeResource ''server'' (serverName g) (respAlreadyStopped w) w"
      unfolding eq by simp
    then show ?thesis
      by (intro exI[of _ w] exI[of _ "[WriteResource ''server'' (serverName g) (respAlreadyStopped w)]"])
         simp
  next
    case b
    then have "stopMinecraftServer e g w =
        writeResource ''server'' (serverName g) (respAlreadyStopped w1) w1"
      unfolding eq by simp
    then show ?thesis
      by (intro exI[of _ w1] exI[of _ "[Exec (sshHost g) (sshUser g) ''echo ok'' r0,
            WriteResource ''server'' (serverName g) (respAlreadyStopped w1)]"])
         (simp add: t0)
  next
    case c
    with assms v0 have "\<forall>w. trim (stdout (respond e w (sshHost g) (sshUser g) (hasSessionCmd g))) \<noteq> ''exists'' \<and>
          trim (stdout (respond e w (sshHost g) (sshUser g) javaCheckCmd)) \<noteq> ''running''"
      by blast
    then have "trim (stdout r1) \<noteq> ''exists''" "trim (stdout rj) \<noteq> ''running''"
      unfolding v1 vj by blast+
    with c have "stopMinecraftServer e g w =
        writeResource ''server'' (serverName g) (respAlreadyStopped w3) w3"
      unfolding eq by simp
    then show ?thesis
      by (intro exI[of _ w3] exI[of _ "[Exec (sshHost g) (sshUser g) ''echo ok'' r0,
            Exec (sshHost g) (sshUser g) (hasSessionCmd g) r1,
            Exec (sshHost g) (sshUser g) javaCheckCmd rj,
            WriteResource ''server'' (serverName g) (respAlreadyStopped w3)]"])
         (simp add: t0 t1 tj)
  qed
qed

text \<open>A stop that goes past the already-stopped checks.\<close>

lemma stop_running:
  assumes "fst (stopMinecraftServer e g w) = Returned d" "alreadyStopped d = Some False"
  obtains pre rs pid rk w5 w6 where
    "newEvents w (snd (stopMinecraftServer e g w)) =
       pre @ concat (map (\<lambda>r. [Sleep 3000, Exec (sshHost g) (sshUser g) (killCheckCmd pid) r]) rs) @
       [Exec (sshHost g) (sshUser g) (killSessionCmd g) rk,
        WriteResource ''server'' (serverName g) d]"
    "pollAnswers pre = []" "\<forall>ms. Sleep ms \<notin> set pre" "rs \<noteq> []"
    "\<forall>r\<in>set (butlast rs). trim (stdout r) \<noteq> ''stopped''"
    "trim (stdout (last rs)) \<noteq> ''stopped'' \<longrightarrow> clock (w5::world) + 90000 \<le> clock (w6::world)"
    "timedOut d = Some (clock w5 + 90000 \<le> clock w6)"
    "idealClock e \<longrightarrow> clock w5 = clock w \<and> clock w6 = clock w + 3000 * length rs \<and>
        clock (snd (stopMinecraftServer e g w)) = clock w6 \<and> clock w6 < clock w + 93000"
    "\<forall>r\<in>set rs. \<exists>w'. r = respond e w' (sshHost g) (sshUser g) (killCheckCmd pid) \<and>
        (idealClock e \<longrightarrow> clock w' < clock w + 93000)"
    "\<exists>w'. pid = (case split_on (CHR 0x0A)
                       (trim (stdout (respond e w' (sshHost g) (sshUser g) javaPidCmd))) of
                    [] \<Rightarrow> ''undefined'' | l # ls \<Rightarrow> l)"
proof -
  obtain r0 w1 r1 w2 rj w3 rx w4 rp w5 pid w6 rk w7 where
    v0: "r0 = respond e w (sshHost g) (sshUser g) ''echo ok''"
    and t0: "trace w1 = trace w @ [Exec (sshHost g) (sshUser g) ''echo ok'' r0]"
    and c0: "clock w1 = clock w + latency e w (sshHost g) (sshUser g) ''echo ok''"
    and v1: "r1 = respond e w1 (sshHost g) (sshUser g) (hasSessionCmd g)"
    and t1: "trace w2 = trace w1 @ [Exec (sshHost g) (sshUser g) (hasSessionCmd g) r1]"
    and c1: "clock w2 = clock w1 + latency e w1 (sshHost g) (sshUser g) (hasSessionCmd g)"
    and vj: "rj = respond e w2 (sshHost g) (sshUser g) javaCheckCmd"
    and tj: "trace w3 = trace w2 @ [Exec (sshHost g) (sshUser g) javaCheckCmd rj]"
    and cj: "clock w3 = clock w2 + latency e w2 (sshHost g) (sshUser g) javaCheckCmd"
    and vs: "rx = respond e w3 (sshHost g) (sshUser g) (sendKeysCmd g ''stop'')"
    and t4: "trace w4 = trace w3 @ (if trim (stdout r1) = ''exists''
                           then [Exec (sshHost g) (sshUser g) (sendKeysCmd g ''stop'') rx] else [])"
    and c4: "clock w4 = clock w3 + (if trim (stdout r1) = ''exists''
                           then latency e w3 (sshHost g) (sshUser g) (sendKeysCmd g ''stop'') else 0)"
    and vp: "rp = respond e w4 (sshHost g) (sshUser g) javaPidCmd"
    and tp: "trace w5 = trace w4 @ [Exec (sshHost g) (sshUser g) javaPidCmd rp]"
    and cp: "clock w5 = clock w4 + latency e w4 (sshHost g) (sshUser g) javaPidCmd"
    and pid: "pid = (case split_on (CHR 0x0A) (trim (stdout rp)) of [] \<Rightarrow> ''undefined'' | l # ls \<Rightarrow> l)"
    and w6: "w6 = pidLoop e g pid (clock w5 + 90000) w5"
    and vk: "rk = respond e w6 (sshHost g) (sshUser g) (killSessionCmd g)"
    and tk: "trace w7 = trace w6 @ [Exec (sshHost g) (sshUser g) (killSessionCmd g) rk]"
    and ck: "clock w7 = clock w6 + latency e w6 (sshHost g) (sshUser g) (killSessionCmd g)"
    and eq: "stopMinecraftServer e g w =
     (if \<not> isValidSshHost e (sshHost g)
        then writeResource ''server'' (serverName g) (respAlreadyStopped w) w
      else if code r0 \<noteq> 0
        then writeResource ''server'' (serverName g) (respAlreadyStopped w1) w1
      else if trim (stdout r1) \<noteq> ''exists'' \<and> trim (stdout rj) \<noteq> ''running''
        then writeResource ''server'' (serverName g) (respAlreadyStopped w3) w3
      else writeResource ''server'' (serverName g)
             (no_data\<lparr>success := Some True, alreadyStopped := Some False,
                timedOut := Some (clock w5 + 90000 \<le> clock w6), ip := Some (sshHost g),
                timestamp := Some (clock w7)\<rparr>) w7)"
    by (rule stop_unfold)
  let ?H = "sshHost g" and ?U = "sshUser g"
  have br: "isValidSshHost e ?H \<and> code r0 = 0 \<and>
      \<not> (trim (stdout r1) \<noteq> ''exists'' \<and> trim (stdout rj) \<noteq> ''running'')"
  proof (rule ccontr)
    assume "\<not> ?thesis"
    then have "\<exists>w'. stopMinecraftServer e g w =
        writeResource ''server'' (serverName g) (respAlreadyStopped w') w'"
      unfolding eq by auto
    then obtain w' where "fst (stopMinecraftServer e g w) = Returned (respAlreadyStopped w')"
      by auto
    with assms have "alreadyStopped (respAlreadyStopped w') = Some False" by simp
    then show False by (simp add: resp_fields)
  qed
  then have res: "stopMinecraftServer e g w = writeResource ''server'' (serverName g)
             (no_data\<lparr>success := Some True, alreadyStopped := Some False,
                timedOut := Some (clock w5 + 90000 \<le> clock w6), ip := Some (sshHost g),
                timestamp := Some (clock w7)\<rparr>) w7"
    unfolding eq by auto
  with assms(1) have d: "d = no_data\<lparr>success := Some True, alreadyStopped := Some False,
                timedOut := Some (clock w5 + 90000 \<le> clock w6), ip := Some (sshHost g),
                timestamp := Some (clock w7)\<rparr>"
    by simp
  define pre where "pre = [Exec ?H ?U ''echo ok'' r0, Exec ?H ?U (hasSessionCmd g) r1,
      Exec ?H ?U javaCheckCmd rj] @
      (if trim (stdout r1) = ''exists'' then [Exec ?H ?U (sendKeysCmd g ''stop'') rx] else []) @
      [Exec ?H ?U javaPidCmd rp]"
  have t5: "trace w5 = trace w @ pre"
    unfolding pre_def tp t4 tj t1 t0 by simp
  note sh = pidLoop_shape[of e g pid "clock w5 + 90000" w5, folded w6]
  from sh obtain rs where
    a: "trace w6 = trace w5 @ concat (map (\<lambda>r. [Sleep 3000, Exec ?H ?U (killCheckCmd pid) r]) rs)"
    and b': "clock w5 < clock w5 + 90000 \<longrightarrow> rs \<noteq> []"
    and c: "\<forall>r\<in>set (butlast rs). trim (stdout r) \<noteq> ''stopped''"
    and f: "rs \<noteq> [] \<and> trim (stdout (last rs)) \<noteq> ''stopped'' \<longrightarrow> clock w5 + 90000 \<le> clock w6"
    and h: "idealClock e \<longrightarrow> clock w6 = clock w5 + 3000 * length rs"
    and i: "idealClock e \<and> clock w5 < clock w5 + 90000 + 3000 \<longrightarrow> clock w6 < clock w5 + 90000 + 3000"
    and j: "\<forall>r\<in>set rs. \<exists>w'. r = respond e w' ?H ?U (killCheckCmd pid) \<and>
            (idealClock e \<longrightarrow> clock w' < clock w5 + 90000 + 3000)"
    by blast
  from b' have b: "rs \<noteq> []" by simp
  have 1: "newEvents w (snd (stopMinecraftServer e g w)) =
       pre @ concat (map (\<lambda>r. [Sleep 3000, Exec ?H ?U (killCheckCmd pid) r]) rs) @
       [Exec ?H ?U (killSessionCmd g) rk, WriteResource ''server'' (serverName g) d]"
    unfolding res d[symmetric] by (rule newEvents_append) (simp add: tk a t5)
  have 2: "pollAnswers pre = []"
    unfolding pre_def by (simp add: probe_cmds_distinct)
  have 3: "\<forall>ms. Sleep ms \<notin> set pre"
    unfolding pre_def by simp
  have 6: "trim (stdout (last rs)) \<noteq> ''stopped'' \<longrightarrow> clock w5 + 90000 \<le> clock w6"
    using f b by blast
  have 7: "timedOut d = Some (clock w5 + 90000 \<le> clock w6)"
    unfolding d by (simp add: no_data_def)
  have 8: "idealClock e \<longrightarrow> clock w5 = clock w \<and> clock w6 = clock w + 3000 * length rs \<and>
        clock (snd (stopMinecraftServer e g w)) = clock w6 \<and> clock w6 < clock w + 93000"
  proof
    assume id: "idealClock e"
    then have l: "\<And>w h u c. latency e w h u c = 0" by (simp add: idealClock_def)
    have k5: "clock w5 = clock w" unfolding cp c4 cj c1 c0 by (simp add: l)
    have k7: "clock w7 = clock w6" unfolding ck by (simp add: l)
    from h i id k5 k7 show "clock w5 = clock w \<and> clock w6 = clock w + 3000 * length rs \<and>
        clock (snd (stopMinecraftServer e g w)) = clock w6 \<and> clock w6 < clock w + 93000"
      unfolding res by simp
  qed
  have 9: "\<forall>r\<in>set rs. \<exists>w'. r = respond e w' ?H ?U (killCheckCmd pid) \<and>
        (idealClock e \<longrightarrow> clock w' < clock w + 93000)"
  proof
    fix r assume "r \<in> set rs"
    with j obtain w' where w': "r = respond e w' ?H ?U (killCheckCmd pid)"
      "idealClock e \<longrightarrow> clock w' < clock w5 + 90000 + 3000" by blast
    from 8 w'(2) have "idealClock e \<longrightarrow> clock w' < clock w + 93000" by auto
    with w'(1) show "\<exists>w'. r = respond e w' ?H ?U (killCheckCmd pid) \<and>
        (idealClock e \<longrightarrow> clock w' < clock w + 93000)" by blast
  qed
  have 10: "\<exists>w'. pid = (case split_on (CHR 0x0A)
                       (trim (stdout (respond e w' ?H ?U javaPidCmd))) of
                    [] \<Rightarrow> ''undefined'' | l # ls \<Rightarrow> l)"
    using pid vp by blast
  show thesis
    by (rule that[OF 1 2 3 b c 6 7 8 9 10])
qed

section \<open>Stopping twice\<close>

text \<open>
  Claim C6. If the target is already stopped (no valid host, or the probe \<open>echo ok\<close>
  always fails, or the session check never answers \<open>exists\<close> and the process check never
  answers \<open>running\<close>), two calls of \<open>stopMinecraftServer\<close> in sequence both return
  \<open>success = true\<close> and \<open>alreadyStopped = true\<close> without throwing, and the two runs
  together issue no remote command other than the three probes and never sleep.
\<close>

theorem stop_twice_already_stopped:
  assumes "\<not> isValidSshHost e (sshHost g) \<or>
     (\<forall>w. code (respond e w (sshHost g) (sshUser g) ''echo ok'') \<noteq> 0) \<or>
     (\<forall>w. trim (stdout (respond e w (sshHost g) (sshUser g) (hasSessionCmd g))) \<noteq> ''exists'' \<and>
          trim (stdout (respond e w (sshHost g) (sshUser g) javaCheckCmd)) \<noteq> ''running'')"
  shows "(\<exists>d1 d2. fst (stopMinecraftServer e g w) = Returned d1 \<and>
            fst (stopMinecraftServer e g (snd (stopMinecraftServer e g w))) = Returned d2 \<and>
            success d1 = Some True \<and> alreadyStopped d1 = Some True \<and>
            success d2 = Some True \<and> alreadyStopped d2 = Some True) \<and>
         (\<forall>h u c r. Exec h u c r \<in> set (newEvents w
               (snd (stopMinecraftServer e g (snd (stopMinecraftServer e g w))))) \<longrightarrow>
            c = ''echo ok'' \<or> c = hasSessionCmd g \<or> c = javaCheckCmd) \<and>
         (\<forall>ms. Sleep ms \<notin> set (newEvents w
               (snd (stopMinecraftServer e g (snd (stopMinecraftServer e g w))))))"
proof -
  let ?w1 = "snd (stopMinecraftServer e g w)"
  let ?w2 = "snd (stopMinecraftServer e g ?w1)"
  from stop_quiet[OF assms, of w] obtain a1 evs1 where
    f1: "fst (stopMinecraftServer e g w) = Returned (respAlreadyStopped a1)"
    and t1: "trace ?w1 = trace w @ evs1"
    and p1: "\<forall>h u c r. Exec h u c r \<in> set evs1 \<longrightarrow>
        c = ''echo ok'' \<or> c = hasSessionCmd g \<or> c = javaCheckCmd"
    and q1: "\<forall>ms. Sleep ms \<notin> set evs1"
    by blast
  from stop_quiet[OF assms, of ?w1] obtain a2 evs2 where
    f2: "fst (stopMinecraftServer e g ?w1) = Returned (respAlreadyStopped a2)"
    and t2: "trace ?w2 = trace ?w1 @ evs2"
    and p2: "\<forall>h u c r. Exec h u c r \<in> set evs2 \<longrightarrow>
        c = ''echo ok'' \<or> c = hasSessionCmd g \<or> c = javaCheckCmd"
    and q2: "\<forall>ms. Sleep ms \<notin> set evs2"
    by blast
  have "trace ?w2 = trace w @ (evs1 @ evs2)" unfolding t2 t1 by simp
  then have ev: "newEvents w ?w2 = evs1 @ evs2" by (rule newEvents_append)
  have 1: "\<exists>d1 d2. fst (stopMinecraftServer e g w) = Returned d1 \<and>
            fst (stopMinecraftServer e g ?w1) = Returned d2 \<and>
            success d1 = Some True \<and> alreadyStopped d1 = Some True \<and>
            success d2 = Some True \<and> alreadyStopped d2 = Some True"
    using f1 f2 by (simp add: resp_fields)
  have 2: "\<forall>h u c r. Exec h u c r \<in> set (newEvents w ?w2) \<longrightarrow>
            c = ''echo ok'' \<or> c = hasSessionCmd g \<or> c = javaCheckCmd"
    unfolding ev set_append Un_iff using p1 p2 by blast
  have 3: "\<forall>ms. Sleep ms \<notin> set (newEvents w ?w2)"
    unfolding ev using q1 q2 by auto
  from 1 2 3 show ?thesis by blast
qed

lemma idle_respond:
  "respond idleHost w h u (hasSessionCmd demoArgs) = out ''missing''"
  "respond idleHost w h u javaCheckCmd = out ''stopped''"
  by (simp_all add: idleHost_def cmd_defs demoArgs_def)

theorem stop_twice_already_stopped_witness:
  "(\<forall>w. trim (stdout (respond idleHost w (sshHost demoArgs) (sshUser demoArgs)
                      (hasSessionCmd demoArgs))) \<noteq> ''exists'' \<and>
        trim (stdout (respond idleHost w (sshHost demoArgs) (sshUser demoArgs) javaCheckCmd))
          \<noteq> ''running'') \<and>
   (\<exists>d1 d2. fst (stopMinecraftServer idleHost demoArgs demoWorld) = Returned d1 \<and>
       fst (stopMinecraftServer idleHost demoArgs
              (snd (stopMinecraftServer idleHost demoArgs demoWorld))) = Returned d2 \<and>
       success d1 = Some True \<and> alreadyStopped d1 = Some True \<and>
       success d2 = Some True \<and> alreadyStopped d2 = Some True) \<and>
   (\<forall>ms. Sleep ms \<notin> set (newEvents demoWorld
       (snd (stopMinecraftServer idleHost demoArgs
              (snd (stopMinecraftServer idleHost demoArgs demoWorld))))))"
proof -
  have h: "\<forall>w. trim (stdout (respond idleHost w (sshHost demoArgs) (sshUser demoArgs)
                      (hasSessionCmd demoArgs))) \<noteq> ''exists'' \<and>
        trim (stdout (respond idleHost w (sshHost demoArgs) (sshUser demoArgs) javaCheckCmd))
          \<noteq> ''running''"
    by (simp add: idle_respond trim_out)
  then have "\<not> isValidSshHost idleHost (sshHost demoArgs) \<or>
     (\<forall>w. code (respond idleHost w (sshHost demoArgs) (sshUser demoArgs) ''echo ok'') \<noteq> 0) \<or>
     (\<forall>w. trim (stdout (respond idleHost w (sshHost demoArgs) (sshUser demoArgs)
                      (hasSessionCmd demoArgs))) \<noteq> ''exists'' \<and>
        trim (stdout (respond idleHost w (sshHost demoArgs) (sshUser demoArgs) javaCheckCmd))
          \<noteq> ''running'')"
    by blast
  from stop_twice_already_stopped[OF this, of demoWorld] h show ?thesis by blast
qed

section \<open>Shutdown and the tracked pid\<close>

lemma first_line_4242:
  "(case split_on (CHR 0x0A) ''4242'' of [] \<Rightarrow> ''undefined'' | l # ls \<Rightarrow> l) = ''4242''"
  by code_simp

lemma demo_ideal: "idealClock (demoServer a b c l)"
  by (simp add: idealClock_def demo_clock)

text \<open>The sample server being stopped: the run up to the liveness loop.\<close>

lemma demo_stop:
  assumes "0 < b"
  obtains w5 w6 rk where
    "clock w5 = 0"
    "trace w5 =
       [Exec (sshHost demoArgs) (sshUser demoArgs) ''echo ok'' (out ''ok''),
        Exec (sshHost demoArgs) (sshUser demoArgs) (hasSessionCmd demoArgs) (out ''exists''),
        Exec (sshHost demoArgs) (sshUser demoArgs) javaCheckCmd (out ''running''),
        Exec (sshHost demoArgs) (sshUser demoArgs) (sendKeysCmd demoArgs ''stop'') (out []),
        Exec (sshHost demoArgs) (sshUser demoArgs) javaPidCmd (out ''4242'')]"
    "w6 = pidLoop (demoServer a b c l) demoArgs ''4242'' 90000 w5"
    "fst (stopMinecraftServer (demoServer a b c l) demoArgs demoWorld) =
       Returned (no_data\<lparr>success := Some True, alreadyStopped := Some False,
                timedOut := Some (90000 \<le> clock w6), ip := Some (sshHost demoArgs),
                timestamp := Some (clock w6)\<rparr>)"
    "trace (snd (stopMinecraftServer (demoServer a b c l) demoArgs demoWorld)) =
       trace w6 @ [Exec (sshHost demoArgs) (sshUser demoArgs) (killSessionCmd demoArgs) rk,
         WriteResource ''server'' (serverName demoArgs)
           (no_data\<lparr>success := Some True, alreadyStopped := Some False,
                timedOut := Some (90000 \<le> clock w6), ip := Some (sshHost demoArgs),
                timestamp := Some (clock w6)\<rparr>)]"
proof -
  obtain r0 w1 r1 w2 rj w3 rx w4 rp w5 pid w6 rk w7 where
    v0: "r0 = respond (demoServer a b c l) demoWorld (sshHost demoArgs) (sshUser demoArgs) ''echo ok''"
    and t0: "trace w1 = trace demoWorld @ [Exec (sshHost demoArgs) (sshUser demoArgs) ''echo ok'' r0]"
    and c0: "clock w1 = clock demoWorld + latency (demoServer a b c l) demoWorld (sshHost demoArgs) (sshUser demoArgs) ''echo ok''"
    and v1: "r1 = respond (demoServer a b c l) w1 (sshHost demoArgs) (sshUser demoArgs) (hasSessionCmd demoArgs)"
    and t1: "trace w2 = trace w1 @ [Exec (sshHost demoArgs) (sshUser demoArgs) (hasSessionCmd demoArgs) r1]"
    and c1: "clock w2 = clock w1 + latency (demoServer a b c l) w1 (sshHost demoArgs) (sshUser demoArgs) (hasSessionCmd demoArgs)"
    and vj: "rj = respond (demoServer a b c l) w2 (sshHost demoArgs) (sshUser demoArgs) javaCheckCmd"
    and tj: "trace w3 = trace w2 @ [Exec (sshHost demoArgs) (sshUser demoArgs) javaCheckCmd rj]"
    and cj: "clock w3 = clock w2 + latency (demoServer a b c l) w2 (sshHost demoArgs) (sshUser demoArgs) javaCheckCmd"
    and vs: "rx = respond (demoServer a b c l) w3 (sshHost demoArgs) (sshUser demoArgs) (sendKeysCmd demoArgs ''stop'')"
    and t4: "trace w4 = trace w3 @ (if trim (stdout r1) = ''exists''
                           then [Exec (sshHost demoArgs) (sshUser demoArgs) (sendKeysCmd demoArgs ''stop'') rx] else [])"
    and c4: "clock w4 = clock w3 + (if trim (stdout r1) = ''exists''
                           then latency (demoServer a b c l) w3 (sshHost demoArgs) (sshUser demoArgs) (sendKeysCmd demoArgs ''stop'') else 0)"
    and vp: "rp = respond (demoServer a b c l) w4 (sshHost demoArgs) (sshUser demoArgs) javaPidCmd"
    and tp: "trace w5 = trace w4 @ [Exec (sshHost demoArgs) (sshUser demoArgs) javaPidCmd rp]"
    and cp: "clock w5 = clock w4 + latency (demoServer a b c l) w4 (sshHost demoArgs) (sshUser demoArgs) javaPidCmd"
    and pid: "pid = (case split_on (CHR 0x0A) (trim (stdout rp)) of [] \<Rightarrow> ''undefined'' | l # ls \<Rightarrow> l)"
    and w6: "w6 = pidLoop (demoServer a b c l) demoArgs pid (clock w5 + 90000) w5"
    and vk: "rk = respond (demoServer a b c l) w6 (sshHost demoArgs) (sshUser demoArgs) (killSessionCmd demoArgs)"
    and tk: "trace w7 = trace w6 @ [Exec (sshHost demoArgs) (sshUser demoArgs) (killSessionCmd demoArgs) rk]"
    and ck: "clock w7 = clock w6 + latency (demoServer a b c l) w6 (sshHost demoArgs) (sshUser demoArgs) (killSessionCmd demoArgs)"
    and eq: "stopMinecraftServer (demoServer a b c l) demoArgs demoWorld =
     (if \<not> isValidSshHost (demoServer a b c l) (sshHost demoArgs)
        then writeResource ''server'' (serverName demoArgs) (respAlreadyStopped demoWorld) demoWorld
      else if code r0 \<noteq> 0
        then writeResource ''server'' (serverName demoArgs) (respAlreadyStopped w1) w1
      else if trim (stdout r1) \<noteq> ''exists'' \<and> trim (stdout rj) \<noteq> ''running''
        then writeResource ''server'' (serverName demoArgs) (respAlreadyStopped w3) w3
      else writeResource ''server'' (serverName demoArgs)
             (no_data\<lparr>success := Some True, alreadyStopped := Some False,
                timedOut := Some (clock w5 + 90000 \<le> clock w6), ip := Some (sshHost demoArgs),
                timestamp := Some (clock w7)\<rparr>) w7)"
    by (rule stop_unfold[of "demoServer a b c l" demoWorld demoArgs])
  have k0: "clock demoWorld = 0" "trace demoWorld = []" by (simp_all add: demoWorld_def)
  have r0: "r0 = out ''ok''" unfolding v0 by (rule demo_respond)
  have k1: "clock w1 = 0" unfolding c0 by (simp add: demo_clock k0)
  have r1: "r1 = out ''exists''" unfolding v1 using assms by (simp add: demo_respond k1)
  have rj: "rj = out ''running''" unfolding vj by (rule demo_respond)
  have rx: "rx = out []" unfolding vs by (rule demo_respond)
  have rp: "rp = out ''4242''" unfolding vp by (rule demo_respond)
  have k5: "clock w5 = 0" unfolding cp c4 cj c1 c0 by (simp add: demo_clock k0)
  have p: "pid = ''4242''" unfolding pid rp trim_out by (rule first_line_4242)
  have k7: "clock w7 = clock w6" unfolding ck by (simp add: demo_clock)
  have t5: "trace w5 =
       [Exec (sshHost demoArgs) (sshUser demoArgs) ''echo ok'' (out ''ok''),
        Exec (sshHost demoArgs) (sshUser demoArgs) (hasSessionCmd demoArgs) (out ''exists''),
        Exec (sshHost demoArgs) (sshUser demoArgs) javaCheckCmd (out ''running''),
        Exec (sshHost demoArgs) (sshUser demoArgs) (sendKeysCmd demoArgs ''stop'') (out []),
        Exec (sshHost demoArgs) (sshUser demoArgs) javaPidCmd (out ''4242'')]"
    unfolding tp t4 tj t1 t0 k0 r0 r1 rj rx rp by (simp add: trim_out)
  have w6': "w6 = pidLoop (demoServer a b c l) demoArgs ''4242'' 90000 w5"
    unfolding w6 p k5 by simp
  have res: "stopMinecraftServer (demoServer a b c l) demoArgs demoWorld =
      writeResource ''server'' (serverName demoArgs)
        (no_data\<lparr>success := Some True, alreadyStopped := Some False,
                timedOut := Some (90000 \<le> clock w6), ip := Some (sshHost demoArgs),
                timestamp := Some (clock w6)\<rparr>) w7"
    unfolding eq r0 r1 rj k5 k7 by (simp add: demo_valid trim_out)
  show thesis
    by (rule that[OF k5 t5 w6']) (simp_all add: res tk)
qed

lemma demo_pidLoop_round:
  assumes "clock w < dl"
  shows "pidLoop (demoServer a b c l) demoArgs ''4242'' dl w =
     (if clock w + 3000 < c
      then pidLoop (demoServer a b c l) demoArgs ''4242'' dl
             \<lparr>clock = clock w + 3000, trace = trace w @
                [Sleep 3000, Exec (sshHost demoArgs) (sshUser demoArgs) (killCheckCmd ''4242'')
                   (out ''running'')]\<rparr>
      else \<lparr>clock = clock w + 3000, trace = trace w @
                [Sleep 3000, Exec (sshHost demoArgs) (sshUser demoArgs) (killCheckCmd ''4242'')
                   (out ''stopped'')]\<rparr>)"
  by (subst pidLoop.simps)
     (simp add: assms sshExecRaw_def sleep_def demo_respond demo_clock trim_out Let_def)









section \<open>The readiness loop\<close>

lemma readyLoop_done: "\<not> clock w < dl \<Longrightarrow> readyLoop e g dl w = (Inr False, w)"
  by (subst readyLoop.simps) simp

lemma readyLoop_step:
  assumes "clock w < dl"
  obtains rl w1 ra w2 ro w3 where
    "sshExecRaw e (sshHost g) (sshUser g) (readyCheckCmd g) w = (rl, w1)"
    "sshExecRaw e (sshHost g) (sshUser g) (aliveCheckCmd g) w1 = (ra, w2)"
    "rl = respond e w (sshHost g) (sshUser g) (readyCheckCmd g)"
    "trace w1 = trace w @ [Exec (sshHost g) (sshUser g) (readyCheckCmd g) rl]"
    "clock w1 = clock w + latency e w (sshHost g) (sshUser g) (readyCheckCmd g)"
    "ra = respond e w1 (sshHost g) (sshUser g) (aliveCheckCmd g)"
    "trace w2 = trace w1 @ [Exec (sshHost g) (sshUser g) (aliveCheckCmd g) ra]"
    "clock w2 = clock w1 + latency e w1 (sshHost g) (sshUser g) (aliveCheckCmd g)"
    "trace w3 = trace w2 @ [Exec (sshHost g) (sshUser g) (catStartLogCmd g) ro]"
    "clock w3 = clock w2 + latency e w2 (sshHost g) (sshUser g) (catStartLogCmd g)"
    "readyLoop e g dl w =
       (if trim (stdout rl) = ''READY'' then (Inr True, w1)
        else if trim (stdout ra) = ''dead''
        then (Inl (''Server process exited before becoming ready. start.sh output:'' @
                   [CHR 0x0A] @ stdout ro), w3)
        else readyLoop e g dl (sleep e 5000 w2))"
proof -
  obtain rl w1 where s1: "sshExecRaw e (sshHost g) (sshUser g) (readyCheckCmd g) w = (rl, w1)"
    and t1: "trace w1 = trace w @ [Exec (sshHost g) (sshUser g) (readyCheckCmd g) rl]"
    and c1: "clock w1 = clock w + latency e w (sshHost g) (sshUser g) (readyCheckCmd g)"
    and v1: "rl = respond e w (sshHost g) (sshUser g) (readyCheckCmd g)"
    by (rule exec_step)
  obtain ra w2 where s2: "sshExecRaw e (sshHost g) (sshUser g) (aliveCheckCmd g) w1 = (ra, w2)"
    and t2: "trace w2 = trace w1 @ [Exec (sshHost g) (sshUser g) (aliveCheckCmd g) ra]"
    and c2: "clock w2 = clock w1 + latency e w1 (sshHost g) (sshUser g) (aliveCheckCmd g)"
    and v2: "ra = respond e w1 (sshHost g) (sshUser g) (aliveCheckCmd g)"
    by (rule exec_step)
  obtain ro w3 where s3: "sshExecRaw e (sshHost g) (sshUser g) (catStartLogCmd g) w2 = (ro, w3)"
    and t3: "trace w3 = trace w2 @ [Exec (sshHost g) (sshUser g) (catStartLogCmd g) ro]"
    and c3: "clock w3 = clock w2 + latency e w2 (sshHost g) (sshUser g) (catStartLogCmd g)"
    by (rule exec_step)
  have eq: "readyLoop e g dl w =
       (if trim (stdout rl) = ''READY'' then (Inr True, w1)
        else if trim (stdout ra) = ''dead''
        then (Inl (''Server process exited before becoming ready. start.sh output:'' @
                   [CHR 0x0A] @ stdout ro), w3)
        else readyLoop e g dl (sleep e 5000 w2))"
    by (subst readyLoop.simps) (simp add: assms s1 s2 s3)
  show thesis
    by (rule that[OF s1 s2 v1 t1 c1 v2 t2 c2 t3 c3 eq])
qed

lemma loop_cmds_distinct:
  "aliveCheckCmd g \<noteq> readyCheckCmd g" "aliveCheckCmd g \<noteq> catStartLogCmd g"
  "aliveCheckCmd g \<noteq> killSessionCmd g" "aliveCheckCmd g \<noteq> truncateCmd p"
  "aliveCheckCmd g \<noteq> newSessionCmd g"
  "newSessionCmd g \<noteq> readyCheckCmd g" "newSessionCmd g \<noteq> aliveCheckCmd g"
  "newSessionCmd g \<noteq> catStartLogCmd g" "newSessionCmd g \<noteq> killSessionCmd g"
  "newSessionCmd g \<noteq> truncateCmd p"
  by (simp_all add: cmd_defs)

text \<open>
  What the loop does: rounds of a ready check, a session check and a sleep of five
  seconds, ended by a ready check that found the marker, by a session check that found
  the session gone (then the start log is read and the error thrown), or by the deadline
  after a sleep.
\<close>

lemma readyLoop_shape:
  "\<exists>evs. trace (snd (readyLoop e g dl w)) = trace w @ evs
     \<and> (\<forall>h u c r. Exec h u c r \<in> set evs \<longrightarrow>
           c = readyCheckCmd g \<or> c = aliveCheckCmd g \<or> c = catStartLogCmd g)
     \<and> ((\<exists>h u r. Exec h u (aliveCheckCmd g) r \<in> set evs \<and> trim (stdout r) = ''dead'') \<longrightarrow>
           (\<exists>pre ro. fst (readyLoop e g dl w) =
               Inl (''Server process exited before becoming ready. start.sh output:'' @
                    [CHR 0x0A] @ stdout ro) \<and>
               evs = pre @ [Exec (sshHost g) (sshUser g) (catStartLogCmd g) ro]) \<and>
           (idealClock e \<longrightarrow> clock (snd (readyLoop e g dl w)) < dl))
     \<and> (fst (readyLoop e g dl w) = Inr False \<and> clock w < dl \<longrightarrow> (\<exists>pre. evs = pre @ [Sleep 5000]))
     \<and> (\<forall>m. fst (readyLoop e g dl w) = Inl m \<longrightarrow>
           (\<exists>pre r ro. m = ''Server process exited before becoming ready. start.sh output:'' @
                    [CHR 0x0A] @ stdout ro \<and> trim (stdout r) = ''dead'' \<and>
               evs = pre @ [Exec (sshHost g) (sshUser g) (aliveCheckCmd g) r,
                            Exec (sshHost g) (sshUser g) (catStartLogCmd g) ro]))"
proof (induction e g dl w rule: readyLoop.induct)
  case (1 e g dl w)
  let ?H = "sshHost g" and ?U = "sshUser g"
  let ?M = "\<lambda>s. ''Server process exited before becoming ready. start.sh output:'' @ [CHR 0x0A] @ s"
  show ?case
  proof (cases "clock w < dl")
    case False
    then have "readyLoop e g dl w = (Inr False, w)" by (rule readyLoop_done)
    then show ?thesis using False by (intro exI[of _ "[]"]) simp
  next
    case True
    obtain rl w1 ra w2 ro w3 where
      s1: "sshExecRaw e ?H ?U (readyCheckCmd g) w = (rl, w1)"
      and s2: "sshExecRaw e ?H ?U (aliveCheckCmd g) w1 = (ra, w2)"
      and v1: "rl = respond e w ?H ?U (readyCheckCmd g)"
      and t1: "trace w1 = trace w @ [Exec ?H ?U (readyCheckCmd g) rl]"
      and c1: "clock w1 = clock w + latency e w ?H ?U (readyCheckCmd g)"
      and v2: "ra = respond e w1 ?H ?U (aliveCheckCmd g)"
      and t2: "trace w2 = trace w1 @ [Exec ?H ?U (aliveCheckCmd g) ra]"
      and c2: "clock w2 = clock w1 + latency e w1 ?H ?U (aliveCheckCmd g)"
      and t3: "trace w3 = trace w2 @ [Exec ?H ?U (catStartLogCmd g) ro]"
      and c3: "clock w3 = clock w2 + latency e w2 ?H ?U (catStartLogCmd g)"
      and eq: "readyLoop e g dl w =
       (if trim (stdout rl) = ''READY'' then (Inr True, w1)
        else if trim (stdout ra) = ''dead''
        then (Inl (''Server process exited before becoming ready. start.sh output:'' @
                   [CHR 0x0A] @ stdout ro), w3)
        else readyLoop e g dl (sleep e 5000 w2))"
      by (rule readyLoop_step[OF True])
    consider (ready) "trim (stdout rl) = ''READY''"
      | (dead) "trim (stdout rl) \<noteq> ''READY''" "trim (stdout ra) = ''dead''"
      | (wait) "trim (stdout rl) \<noteq> ''READY''" "trim (stdout ra) \<noteq> ''dead''"
      by blast
    then show ?thesis
    proof cases
      case ready
      then have r: "readyLoop e g dl w = (Inr True, w1)" unfolding eq by simp
      show ?thesis
        unfolding r
        by (intro exI[of _ "[Exec ?H ?U (readyCheckCmd g) rl]"])
           (simp add: t1 loop_cmds_distinct)
    next
      case dead
      then have r: "readyLoop e g dl w = (Inl (?M (stdout ro)), w3)" unfolding eq by simp
      have k: "idealClock e \<longrightarrow> clock w3 < dl"
        unfolding c3 c2 c1 using True by (simp add: idealClock_def)
      have sh: "[Exec ?H ?U (readyCheckCmd g) rl, Exec ?H ?U (aliveCheckCmd g) ra,
                 Exec ?H ?U (catStartLogCmd g) ro] =
                [Exec ?H ?U (readyCheckCmd g) rl] @ [Exec ?H ?U (aliveCheckCmd g) ra,
                 Exec ?H ?U (catStartLogCmd g) ro]"
        by simp
      show ?thesis
        unfolding r
        apply (intro exI[of _ "[Exec ?H ?U (readyCheckCmd g) rl, Exec ?H ?U (aliveCheckCmd g) ra,
                 Exec ?H ?U (catStartLogCmd g) ro]"] conjI)
            apply (simp add: t3 t2 t1)
           apply simp
          apply (intro impI conjI)
           apply (rule exI[of _ "[Exec ?H ?U (readyCheckCmd g) rl, Exec ?H ?U (aliveCheckCmd g) ra]"])
           apply (rule exI[of _ ro])
           apply simp
          apply (use k in simp)
         apply simp
        apply (intro allI impI)
        apply (rule exI[of _ "[Exec ?H ?U (readyCheckCmd g) rl]"])
        apply (rule exI[of _ ra])
        apply (rule exI[of _ ro])
        apply (use dead in simp)
        done
    next
      case wait
      let ?w = "sleep e 5000 w2"
      have r: "readyLoop e g dl w = readyLoop e g dl ?w" unfolding eq using wait by simp
      have "sleep e (5 * 1000) w2 = ?w" by simp
      with "1.IH"[OF True s1[symmetric] wait(1) s2[symmetric] wait(2)]
      obtain evs where
        a: "trace (snd (readyLoop e g dl ?w)) = trace ?w @ evs"
        and b: "\<forall>h u c r. Exec h u c r \<in> set evs \<longrightarrow>
           c = readyCheckCmd g \<or> c = aliveCheckCmd g \<or> c = catStartLogCmd g"
        and c: "(\<exists>h u r. Exec h u (aliveCheckCmd g) r \<in> set evs \<and> trim (stdout r) = ''dead'') \<longrightarrow>
           (\<exists>pre ro. fst (readyLoop e g dl ?w) = Inl (?M (stdout ro)) \<and>
               evs = pre @ [Exec ?H ?U (catStartLogCmd g) ro]) \<and>
           (idealClock e \<longrightarrow> clock (snd (readyLoop e g dl ?w)) < dl)"
        and d: "fst (readyLoop e g dl ?w) = Inr False \<and> clock ?w < dl \<longrightarrow>
           (\<exists>pre. evs = pre @ [Sleep 5000])"
        and f: "\<forall>m. fst (readyLoop e g dl ?w) = Inl m \<longrightarrow>
           (\<exists>pre r ro. m = ?M (stdout ro) \<and> trim (stdout r) = ''dead'' \<and>
               evs = pre @ [Exec ?H ?U (aliveCheckCmd g) r, Exec ?H ?U (catStartLogCmd g) ro])"
        by auto
      let ?p = "[Exec ?H ?U (readyCheckCmd g) rl, Exec ?H ?U (aliveCheckCmd g) ra, Sleep 5000]"
      have 1: "trace (snd (readyLoop e g dl w)) = trace w @ (?p @ evs)"
        unfolding r a by (simp add: t2 t1)
      have 2: "\<forall>h u c r. Exec h u c r \<in> set (?p @ evs) \<longrightarrow>
           c = readyCheckCmd g \<or> c = aliveCheckCmd g \<or> c = catStartLogCmd g"
        using b by auto
      have 3: "(\<exists>h u r. Exec h u (aliveCheckCmd g) r \<in> set (?p @ evs) \<and> trim (stdout r) = ''dead'') \<longrightarrow>
           (\<exists>pre ro. fst (readyLoop e g dl w) = Inl (?M (stdout ro)) \<and>
               ?p @ evs = pre @ [Exec ?H ?U (catStartLogCmd g) ro]) \<and>
           (idealClock e \<longrightarrow> clock (snd (readyLoop e g dl w)) < dl)"
      proof
        assume "\<exists>h u r. Exec h u (aliveCheckCmd g) r \<in> set (?p @ evs) \<and> trim (stdout r) = ''dead''"
        then obtain h u r' where m: "Exec h u (aliveCheckCmd g) r' \<in> set (?p @ evs)"
          and dd: "trim (stdout r') = ''dead''" by blast
        from m dd wait(2) loop_cmds_distinct(1)[of g]
        have "Exec h u (aliveCheckCmd g) r' \<in> set evs" by auto
        with c dd obtain pre ro' where
          x: "fst (readyLoop e g dl ?w) = Inl (?M (stdout ro'))"
          "evs = pre @ [Exec ?H ?U (catStartLogCmd g) ro']"
          and y: "idealClock e \<longrightarrow> clock (snd (readyLoop e g dl ?w)) < dl"
          by blast
        have "?p @ evs = (?p @ pre) @ [Exec ?H ?U (catStartLogCmd g) ro']"
          unfolding x(2) by simp
        with x(1) y show "(\<exists>pre ro. fst (readyLoop e g dl w) = Inl (?M (stdout ro)) \<and>
               ?p @ evs = pre @ [Exec ?H ?U (catStartLogCmd g) ro]) \<and>
           (idealClock e \<longrightarrow> clock (snd (readyLoop e g dl w)) < dl)"
          unfolding r by blast
      qed
      have 4: "fst (readyLoop e g dl w) = Inr False \<and> clock w < dl \<longrightarrow>
           (\<exists>pre. ?p @ evs = pre @ [Sleep 5000])"
      proof
        assume h: "fst (readyLoop e g dl w) = Inr False \<and> clock w < dl"
        show "\<exists>pre. ?p @ evs = pre @ [Sleep 5000]"
        proof (cases "clock ?w < dl")
          case True
          with h d obtain pre where "evs = pre @ [Sleep 5000]" unfolding r by blast
          then have "?p @ evs = (?p @ pre) @ [Sleep 5000]" by simp
          then show ?thesis by blast
        next
          case False
          then have "readyLoop e g dl ?w = (Inr False, ?w)" by (rule readyLoop_done)
          with a have "evs = []" by simp
          then have "?p @ evs = [Exec ?H ?U (readyCheckCmd g) rl, Exec ?H ?U (aliveCheckCmd g) ra] @
              [Sleep 5000]" by simp
          then show ?thesis by blast
        qed
      qed
      have 5: "\<forall>m. fst (readyLoop e g dl w) = Inl m \<longrightarrow>
           (\<exists>pre r ro. m = ?M (stdout ro) \<and> trim (stdout r) = ''dead'' \<and>
               ?p @ evs = pre @ [Exec ?H ?U (aliveCheckCmd g) r, Exec ?H ?U (catStartLogCmd g) ro])"
      proof (intro allI impI)
        fix m assume "fst (readyLoop e g dl w) = Inl m"
        with f obtain pre r' ro' where x: "m = ?M (stdout ro')" "trim (stdout r') = ''dead''"
          "evs = pre @ [Exec ?H ?U (aliveCheckCmd g) r', Exec ?H ?U (catStartLogCmd g) ro']"
          unfolding r by blast
        have "?p @ evs = (?p @ pre) @ [Exec ?H ?U (aliveCheckCmd g) r', Exec ?H ?U (catStartLogCmd g) ro']"
          unfolding x(3) by simp
        with x(1,2) show "\<exists>pre r ro. m = ?M (stdout ro) \<and> trim (stdout r) = ''dead'' \<and>
               ?p @ evs = pre @ [Exec ?H ?U (aliveCheckCmd g) r, Exec ?H ?U (catStartLogCmd g) ro]"
          by blast
      qed
      show ?thesis
        by (rule exI[of _ "?p @ evs"]) (intro conjI 1 2 3 4 5)
    qed
  qed
qed

text \<open>
  On a clock on which only the sleeps take time, a loop whose checks never find the
  marker nor the session gone ends at the deadline without success.
\<close>

lemma readyLoop_expires:
  "idealClock e \<Longrightarrow>
   (\<forall>w'. clock w' + 5000 \<le> dl \<longrightarrow>
      trim (stdout (respond e w' (sshHost g) (sshUser g) (readyCheckCmd g))) \<noteq> ''READY'' \<and>
      trim (stdout (respond e w' (sshHost g) (sshUser g) (aliveCheckCmd g))) \<noteq> ''dead'') \<Longrightarrow>
   5000 dvd (dl - clock w) \<Longrightarrow> clock w \<le> dl \<Longrightarrow>
   fst (readyLoop e g dl w) = Inr False \<and> clock (snd (readyLoop e g dl w)) = dl"
proof (induction e g dl w rule: readyLoop.induct)
  case (1 e g dl w)
  let ?H = "sshHost g" and ?U = "sshUser g"
  show ?case
  proof (cases "clock w < dl")
    case False
    with "1.prems"(4) have "clock w = dl" by simp
    with False show ?thesis by (simp add: readyLoop_done)
  next
    case True
    obtain rl w1 ra w2 ro w3 where
      s1: "sshExecRaw e ?H ?U (readyCheckCmd g) w = (rl, w1)"
      and s2: "sshExecRaw e ?H ?U (aliveCheckCmd g) w1 = (ra, w2)"
      and v1: "rl = respond e w ?H ?U (readyCheckCmd g)"
      and t1: "trace w1 = trace w @ [Exec ?H ?U (readyCheckCmd g) rl]"
      and c1: "clock w1 = clock w + latency e w ?H ?U (readyCheckCmd g)"
      and v2: "ra = respond e w1 ?H ?U (aliveCheckCmd g)"
      and t2: "trace w2 = trace w1 @ [Exec ?H ?U (aliveCheckCmd g) ra]"
      and c2: "clock w2 = clock w1 + latency e w1 ?H ?U (aliveCheckCmd g)"
      and t3: "trace w3 = trace w2 @ [Exec ?H ?U (catStartLogCmd g) ro]"
      and c3: "clock w3 = clock w2 + latency e w2 ?H ?U (catStartLogCmd g)"
      and eq: "readyLoop e g dl w =
       (if trim (stdout rl) = ''READY'' then (Inr True, w1)
        else if trim (stdout ra) = ''dead''
        then (Inl (''Server process exited before becoming ready. start.sh output:'' @
                   [CHR 0x0A] @ stdout ro), w3)
        else readyLoop e g dl (sleep e 5000 w2))"
      by (rule readyLoop_step[OF True])
    from "1.prems"(1) have l: "\<And>w h u c. latency e w h u c = 0" "\<And>w ms. oversleep e w ms = 0"
      by (simp_all add: idealClock_def)
    from True "1.prems"(3) have "5000 \<le> dl - clock w"
      by (auto elim!: dvdE)
    with True have room: "clock w + 5000 \<le> dl" by simp
    have k1: "clock w1 = clock w" unfolding c1 by (simp add: l)
    have k2: "clock w2 = clock w" unfolding c2 k1 by (simp add: l)
    from "1.prems"(2) room have n1: "trim (stdout rl) \<noteq> ''READY''" unfolding v1 by blast
    from "1.prems"(2) room k1 have n2: "trim (stdout ra) \<noteq> ''dead''" unfolding v2 by simp
    have r: "readyLoop e g dl w = readyLoop e g dl (sleep e 5000 w2)"
      unfolding eq using n1 n2 by simp
    have ks: "clock (sleep e 5000 w2) = clock w + 5000" by (simp add: l k2)
    have d: "5000 dvd (dl - clock (sleep e 5000 w2))"
      unfolding ks using "1.prems"(3) room
      by (metis diff_diff_left dvd_diff_nat dvd_refl)
    have le: "clock (sleep e 5000 w2) \<le> dl" unfolding ks by (rule room)
    have "sleep e (5 * 1000) w2 = sleep e 5000 w2" by simp
    with "1.IH"[OF True s1[symmetric] n1 s2[symmetric] n2 "1.prems"(1,2)] d le
    show ?thesis unfolding r by simp
  qed
qed

lemma show_900: "showNat 900 = ''900''"
  by code_simp

section \<open>startMinecraftServer step by step\<close>

lemma start_unfold:
  obtains ok w1 rk w2 rt1 w3 rt2 w4 rn w5 so w7 where
    "ok = fst (sshWait e w (sshHost g) (sshUser g))"
    "trace w1 = trace w @ [WaitForSsh (sshHost g) (sshUser g) ok]"
    "clock w1 = clock w + snd (sshWait e w (sshHost g) (sshUser g))"
    "trace w2 = trace w1 @ [Exec (sshHost g) (sshUser g) (killSessionCmd g) rk]"
    "clock w2 = clock w1 + latency e w1 (sshHost g) (sshUser g) (killSessionCmd g)"
    "trace w3 = trace w2 @ [Exec (sshHost g) (sshUser g) (truncateCmd (logPath g)) rt1]"
    "clock w3 = clock w2 + latency e w2 (sshHost g) (sshUser g) (truncateCmd (logPath g))"
    "trace w4 = trace w3 @ [Exec (sshHost g) (sshUser g) (truncateCmd (startLogPath g)) rt2]"
    "clock w4 = clock w3 + latency e w3 (sshHost g) (sshUser g) (truncateCmd (startLogPath g))"
    "rn = respond e w4 (sshHost g) (sshUser g) (newSessionCmd g)"
    "trace w5 = trace w4 @ [Exec (sshHost g) (sshUser g) (newSessionCmd g) rn]"
    "clock w5 = clock w4 + latency e w4 (sshHost g) (sshUser g) (newSessionCmd g)"
    "so = respond e (snd (readyLoop e g (clock w5 + 900000) w5)) (sshHost g) (sshUser g)
            (catStartLogCmd g)"
    "trace w7 = trace (snd (readyLoop e g (clock w5 + 900000) w5)) @
            [Exec (sshHost g) (sshUser g) (catStartLogCmd g) so]"
    "clock w7 = clock (snd (readyLoop e g (clock w5 + 900000) w5)) +
            latency e (snd (readyLoop e g (clock w5 + 900000) w5)) (sshHost g) (sshUser g)
              (catStartLogCmd g)"
    "rk = respond e w1 (sshHost g) (sshUser g) (killSessionCmd g)"
    "rt1 = respond e w2 (sshHost g) (sshUser g) (truncateCmd (logPath g))"
    "rt2 = respond e w3 (sshHost g) (sshUser g) (truncateCmd (startLogPath g))"
    "startMinecraftServer e g w =
     (if \<not> isValidSshHost e (sshHost g)
        then (Threw ''sshHost is required - is the VM running?'', w)
      else if \<not> ok
        then (Threw (''SSH not reachable on '' @ showHost (sshHost g) @ '' after 60s''), w1)
      else if code rn \<noteq> 0
        then (Threw (''Failed to start tmux session: '' @ stderr rn), w5)
      else (case fst (readyLoop e g (clock w5 + 900000) w5) of
              Inl msg \<Rightarrow> (Threw msg, snd (readyLoop e g (clock w5 + 900000) w5))
            | Inr ready \<Rightarrow>
                if \<not> ready
                then (Threw (''Minecraft server did not become ready within 900s. start.sh output:'' @
                             [CHR 0x0A] @ stdout so), w7)
                else writeResource ''server'' (serverName g)
                       (no_data\<lparr>success := Some True, ip := Some (sshHost g),
                          serverReady := Some True,
                          timestamp := Some (clock (snd (readyLoop e g (clock w5 + 900000) w5)))\<rparr>)
                       (snd (readyLoop e g (clock w5 + 900000) w5))))"
proof -
  let ?H = "sshHost g" and ?U = "sshUser g"
  define ok where "ok = fst (sshWait e w ?H ?U)"
  define w1 where "w1 = snd (waitForSsh e ?H ?U w)"
  have s0: "waitForSsh e ?H ?U w = (ok, w1)"
    unfolding ok_def w1_def waitForSsh_def by (simp add: split_beta)
  have t0: "trace w1 = trace w @ [WaitForSsh ?H ?U ok]"
    unfolding ok_def w1_def waitForSsh_def by (simp add: split_beta)
  have c0: "clock w1 = clock w + snd (sshWait e w ?H ?U)"
    unfolding w1_def waitForSsh_def by (simp add: split_beta)
  obtain rk w2 where sk: "sshExecRaw e ?H ?U (killSessionCmd g) w1 = (rk, w2)"
    and tk: "trace w2 = trace w1 @ [Exec ?H ?U (killSessionCmd g) rk]"
    and ck: "clock w2 = clock w1 + latency e w1 ?H ?U (killSessionCmd g)"
    and vk: "rk = respond e w1 ?H ?U (killSessionCmd g)"
    by (rule exec_step)
  obtain rt1 w3 where s1: "sshExecRaw e ?H ?U (truncateCmd (logPath g)) w2 = (rt1, w3)"
    and t1: "trace w3 = trace w2 @ [Exec ?H ?U (truncateCmd (logPath g)) rt1]"
    and c1: "clock w3 = clock w2 + latency e w2 ?H ?U (truncateCmd (logPath g))"
    and v1: "rt1 = respond e w2 ?H ?U (truncateCmd (logPath g))"
    by (rule exec_step)
  obtain rt2 w4 where s2: "sshExecRaw e ?H ?U (truncateCmd (startLogPath g)) w3 = (rt2, w4)"
    and t2: "trace w4 = trace w3 @ [Exec ?H ?U (truncateCmd (startLogPath g)) rt2]"
    and c2: "clock w4 = clock w3 + latency e w3 ?H ?U (truncateCmd (startLogPath g))"
    and v2: "rt2 = respond e w3 ?H ?U (truncateCmd (startLogPath g))"
    by (rule exec_step)
  obtain rn w5 where sn: "sshExecRaw e ?H ?U (newSessionCmd g) w4 = (rn, w5)"
    and tn: "trace w5 = trace w4 @ [Exec ?H ?U (newSessionCmd g) rn]"
    and cn: "clock w5 = clock w4 + latency e w4 ?H ?U (newSessionCmd g)"
    and vn: "rn = respond e w4 ?H ?U (newSessionCmd g)"
    by (rule exec_step)
  define R where "R = readyLoop e g (clock w5 + 900000) w5"
  obtain so w7 where ss: "sshExecRaw e ?H ?U (catStartLogCmd g) (snd R) = (so, w7)"
    and ts: "trace w7 = trace (snd R) @ [Exec ?H ?U (catStartLogCmd g) so]"
    and cs: "clock w7 = clock (snd R) + latency e (snd R) ?H ?U (catStartLogCmd g)"
    and vs: "so = respond e (snd R) ?H ?U (catStartLogCmd g)"
    by (rule exec_step)
  have R': "readyLoop e g (clock w5 + 900 * 1000) w5 = (fst R, snd R)"
    unfolding R_def by simp
  have eq: "startMinecraftServer e g w =
     (if \<not> isValidSshHost e ?H
        then (Threw ''sshHost is required - is the VM running?'', w)
      else if \<not> ok
        then (Threw (''SSH not reachable on '' @ showHost ?H @ '' after 60s''), w1)
      else if code rn \<noteq> 0
        then (Threw (''Failed to start tmux session: '' @ stderr rn), w5)
      else (case fst R of
              Inl msg \<Rightarrow> (Threw msg, snd R)
            | Inr ready \<Rightarrow>
                if \<not> ready
                then (Threw (''Minecraft server did not become ready within 900s. start.sh output:'' @
                             [CHR 0x0A] @ stdout so), w7)
                else writeResource ''server'' (serverName g)
                       (no_data\<lparr>success := Some True, ip := Some ?H,
                          serverReady := Some True, timestamp := Some (clock (snd R))\<rparr>)
                       (snd R)))"
    unfolding startMinecraftServer_def s0 prod.case sk s1 s2 sn Let_def R'
    by (cases "fst R") (simp_all add: ss show_900)
  show thesis
    by (rule that[OF ok_def t0 c0 tk ck t1 c1 t2 c2 vn tn cn vs[unfolded R_def] ts[unfolded R_def]
          cs[unfolded R_def] vk v1 v2 eq[unfolded R_def]])
qed

text \<open>
  The runs of \<open>startMinecraftServer\<close>: stopped at the host check, stopped because ssh did
  not come up, stopped because the session could not be created, or polled. A polled run
  issues the five set-up steps, then the events of the readiness loop, then its ending.
\<close>

lemma start_cases:
  obtains
    (gate) "fst (startMinecraftServer e g w) = Threw ''sshHost is required - is the VM running?''"
      "newEvents w (snd (startMinecraftServer e g w)) = []"
  | (unreachable)
      "fst (startMinecraftServer e g w) =
         Threw (''SSH not reachable on '' @ showHost (sshHost g) @ '' after 60s'')"
      "newEvents w (snd (startMinecraftServer e g w)) = [WaitForSsh (sshHost g) (sshUser g) False]"
  | (refused) rk rt1 rt2 rn where
      "fst (startMinecraftServer e g w) = Threw (''Failed to start tmux session: '' @ stderr rn)"
      "newEvents w (snd (startMinecraftServer e g w)) =
         [WaitForSsh (sshHost g) (sshUser g) True,
          Exec (sshHost g) (sshUser g) (killSessionCmd g) rk,
          Exec (sshHost g) (sshUser g) (truncateCmd (logPath g)) rt1,
          Exec (sshHost g) (sshUser g) (truncateCmd (startLogPath g)) rt2,
          Exec (sshHost g) (sshUser g) (newSessionCmd g) rn]"
  | (polled) rk rt1 rt2 rn w5 evs tl where
      "idealClock e \<longrightarrow> clock (w5::world) = clock w + snd (sshWait e w (sshHost g) (sshUser g))"
      "trace (snd (readyLoop e g (clock w5 + 900000) w5)) = trace w5 @ evs"
      "newEvents w (snd (startMinecraftServer e g w)) =
         [WaitForSsh (sshHost g) (sshUser g) True,
          Exec (sshHost g) (sshUser g) (killSessionCmd g) rk,
          Exec (sshHost g) (sshUser g) (truncateCmd (logPath g)) rt1,
          Exec (sshHost g) (sshUser g) (truncateCmd (startLogPath g)) rt2,
          Exec (sshHost g) (sshUser g) (newSessionCmd g) rn] @ evs @ tl"
      "\<forall>m. fst (readyLoop e g (clock w5 + 900000) w5) = Inl m \<longrightarrow>
         fst (startMinecraftServer e g w) = Threw m \<and> tl = [] \<and>
         clock (snd (startMinecraftServer e g w)) =
           clock (snd (readyLoop e g (clock w5 + 900000) w5))"
      "fst (readyLoop e g (clock w5 + 900000) w5) = Inr True \<longrightarrow>
         (\<exists>d. fst (startMinecraftServer e g w) = Returned d \<and>
              tl = [WriteResource ''server'' (serverName g) d])"
      "fst (readyLoop e g (clock w5 + 900000) w5) = Inr False \<longrightarrow>
         (\<exists>so. fst (startMinecraftServer e g w) =
                 Threw (''Minecraft server did not become ready within 900s. start.sh output:'' @
                        [CHR 0x0A] @ stdout so) \<and>
              tl = [Exec (sshHost g) (sshUser g) (catStartLogCmd g) so])"
proof -
  let ?H = "sshHost g" and ?U = "sshUser g"
  let ?S = "startMinecraftServer e g w"
  obtain ok w1 rk w2 rt1 w3 rt2 w4 rn w5 so w7 where
    ok: "ok = fst (sshWait e w ?H ?U)"
    and t0: "trace w1 = trace w @ [WaitForSsh ?H ?U ok]"
    and c0: "clock w1 = clock w + snd (sshWait e w ?H ?U)"
    and tk: "trace w2 = trace w1 @ [Exec ?H ?U (killSessionCmd g) rk]"
    and ck: "clock w2 = clock w1 + latency e w1 ?H ?U (killSessionCmd g)"
    and t1: "trace w3 = trace w2 @ [Exec ?H ?U (truncateCmd (logPath g)) rt1]"
    and c1: "clock w3 = clock w2 + latency e w2 ?H ?U (truncateCmd (logPath g))"
    and t2: "trace w4 = trace w3 @ [Exec ?H ?U (truncateCmd (startLogPath g)) rt2]"
    and c2: "clock w4 = clock w3 + latency e w3 ?H ?U (truncateCmd (startLogPath g))"
    and vn: "rn = respond e w4 ?H ?U (newSessionCmd g)"
    and tn: "trace w5 = trace w4 @ [Exec ?H ?U (newSessionCmd g) rn]"
    and cn: "clock w5 = clock w4 + latency e w4 ?H ?U (newSessionCmd g)"
    and vs: "so = respond e (snd (readyLoop e g (clock w5 + 900000) w5)) ?H ?U (catStartLogCmd g)"
    and ts: "trace w7 = trace (snd (readyLoop e g (clock w5 + 900000) w5)) @
            [Exec ?H ?U (catStartLogCmd g) so]"
    and cs: "clock w7 = clock (snd (readyLoop e g (clock w5 + 900000) w5)) +
            latency e (snd (readyLoop e g (clock w5 + 900000) w5)) ?H ?U (catStartLogCmd g)"
    and vk: "rk = respond e w1 ?H ?U (killSessionCmd g)"
    and v1: "rt1 = respond e w2 ?H ?U (truncateCmd (logPath g))"
    and v2: "rt2 = respond e w3 ?H ?U (truncateCmd (startLogPath g))"
    and eq: "?S =
     (if \<not> isValidSshHost e ?H
        then (Threw ''sshHost is required - is the VM running?'', w)
      else if \<not> ok
        then (Threw (''SSH not reachable on '' @ showHost ?H @ '' after 60s''), w1)
      else if code rn \<noteq> 0
        then (Threw (''Failed to start tmux session: '' @ stderr rn), w5)
      else (case fst (readyLoop e g (clock w5 + 900000) w5) of
              Inl msg \<Rightarrow> (Threw msg, snd (readyLoop e g (clock w5 + 900000) w5))
            | Inr ready \<Rightarrow>
                if \<not> ready
                then (Threw (''Minecraft server did not become ready within 900s. start.sh output:'' @
                             [CHR 0x0A] @ stdout so), w7)
                else writeResource ''server'' (serverName g)
                       (no_data\<lparr>success := Some True, ip := Some ?H,
                          serverReady := Some True,
                          timestamp := Some (clock (snd (readyLoop e g (clock w5 + 900000) w5)))\<rparr>)
                       (snd (readyLoop e g (clock w5 + 900000) w5))))"
    by (rule start_unfold)
  define R where "R = readyLoop e g (clock w5 + 900000) w5"
  note eqR = eq[folded R_def]
  from readyLoop_shape[of e g "clock w5 + 900000" w5]
  obtain evs where tr: "trace (snd R) = trace w5 @ evs"
    unfolding R_def by blast
  let ?P = "[WaitForSsh ?H ?U ok,
          Exec ?H ?U (killSessionCmd g) rk,
          Exec ?H ?U (truncateCmd (logPath g)) rt1,
          Exec ?H ?U (truncateCmd (startLogPath g)) rt2,
          Exec ?H ?U (newSessionCmd g) rn]"
  have t5: "trace w5 = trace w @ ?P" unfolding tn t2 t1 tk t0 by simp
  have k5: "idealClock e \<longrightarrow> clock w5 = clock w + snd (sshWait e w ?H ?U)"
    unfolding cn c2 c1 ck c0 by (simp add: idealClock_def)
  show thesis
  proof (cases "isValidSshHost e ?H")
    case False
    then have "?S = (Threw ''sshHost is required - is the VM running?'', w)"
      unfolding eqR by simp
    then show thesis by (intro that(1)) simp_all
  next
    case v: True
    show thesis
    proof (cases ok)
      case False
      then have s: "?S = (Threw (''SSH not reachable on '' @ showHost ?H @ '' after 60s''), w1)"
        unfolding eqR using v by simp
      have "newEvents w w1 = [WaitForSsh ?H ?U False]"
        by (rule newEvents_append) (simp add: t0 False)
      then show thesis by (intro that(2)) (simp_all add: s)
    next
      case o: True
      show thesis
      proof (cases "code rn = 0")
        case False
        then have s: "?S = (Threw (''Failed to start tmux session: '' @ stderr rn), w5)"
          unfolding eqR using v o by simp
        have "newEvents w w5 = [WaitForSsh ?H ?U True,
          Exec ?H ?U (killSessionCmd g) rk,
          Exec ?H ?U (truncateCmd (logPath g)) rt1,
          Exec ?H ?U (truncateCmd (startLogPath g)) rt2,
          Exec ?H ?U (newSessionCmd g) rn]"
          by (rule newEvents_append) (simp add: t5 o)
        then show thesis by (intro that(3)[of rn rk rt1 rt2]) (simp_all add: s)
      next
        case c: True
        have s: "?S = (case fst R of
              Inl msg \<Rightarrow> (Threw msg, snd R)
            | Inr ready \<Rightarrow>
                if \<not> ready
                then (Threw (''Minecraft server did not become ready within 900s. start.sh output:'' @
                             [CHR 0x0A] @ stdout so), w7)
                else writeResource ''server'' (serverName g)
                       (no_data\<lparr>success := Some True, ip := Some ?H,
                          serverReady := Some True, timestamp := Some (clock (snd R))\<rparr>)
                       (snd R))"
          unfolding eqR using v o c by simp
        define d where "d = no_data\<lparr>success := Some True, ip := Some ?H,
                          serverReady := Some True, timestamp := Some (clock (snd R))\<rparr>"
        define tl where "tl = (case fst R of Inl m \<Rightarrow> []
            | Inr ready \<Rightarrow> if ready then [WriteResource ''server'' (serverName g) d]
                           else [Exec ?H ?U (catStartLogCmd g) so])"
        have "trace (snd ?S) = trace w @ (?P @ evs @ tl)"
          unfolding s tl_def d_def
          by (cases "fst R") (simp_all add: tr t5 ts[folded R_def] writeResource_simps)
        then have ev: "newEvents w (snd ?S) = ?P @ evs @ tl"
          by (rule newEvents_append)
        have a: "\<forall>m. fst R = Inl m \<longrightarrow>
            fst ?S = Threw m \<and> tl = [] \<and> clock (snd ?S) = clock (snd R)"
          unfolding s tl_def by simp
        have b: "fst R = Inr True \<longrightarrow>
           (\<exists>d. fst ?S = Returned d \<and> tl = [WriteResource ''server'' (serverName g) d])"
          unfolding s tl_def d_def by (simp add: writeResource_simps)
        have f: "fst R = Inr False \<longrightarrow>
           (\<exists>so. fst ?S =
                 Threw (''Minecraft server did not become ready within 900s. start.sh output:'' @
                        [CHR 0x0A] @ stdout so) \<and>
              tl = [Exec ?H ?U (catStartLogCmd g) so])"
          unfolding s tl_def by simp
        have ev': "newEvents w (snd ?S) = [WaitForSsh ?H ?U True,
          Exec ?H ?U (killSessionCmd g) rk,
          Exec ?H ?U (truncateCmd (logPath g)) rt1,
          Exec ?H ?U (truncateCmd (startLogPath g)) rt2,
          Exec ?H ?U (newSessionCmd g) rn] @ evs @ tl"
          using ev o by simp
        show thesis
          using k5 tr ev' a b f unfolding R_def by (rule that(4))
      qed
    qed
  qed
qed

lemma kill_cmd_distinct:
  "killSessionCmd g \<noteq> readyCheckCmd g" "killSessionCmd g \<noteq> aliveCheckCmd g"
  "killSessionCmd g \<noteq> catStartLogCmd g" "killSessionCmd g \<noteq> truncateCmd p"
  "killSessionCmd g \<noteq> newSessionCmd g"
  by (simp_all add: cmd_defs)

text \<open>The sample server being started: the run up to the readiness loop.\<close>

lemma demo_start:
  obtains w5 w7 where
    "clock w5 = 0"
    "trace w5 =
       [WaitForSsh (sshHost demoArgs) (sshUser demoArgs) True,
        Exec (sshHost demoArgs) (sshUser demoArgs) (killSessionCmd demoArgs) (out []),
        Exec (sshHost demoArgs) (sshUser demoArgs) (truncateCmd (logPath demoArgs)) (out []),
        Exec (sshHost demoArgs) (sshUser demoArgs) (truncateCmd (startLogPath demoArgs)) (out []),
        Exec (sshHost demoArgs) (sshUser demoArgs) (newSessionCmd demoArgs) (out [])]"
    "trace w7 = trace (snd (readyLoop (demoServer a b c l) demoArgs 900000 w5)) @
       [Exec (sshHost demoArgs) (sshUser demoArgs) (catStartLogCmd demoArgs) (out ''Starting server'')]"
    "clock w7 = clock (snd (readyLoop (demoServer a b c l) demoArgs 900000 w5))"
    "startMinecraftServer (demoServer a b c l) demoArgs demoWorld =
       (case fst (readyLoop (demoServer a b c l) demoArgs 900000 w5) of
          Inl msg \<Rightarrow> (Threw msg, snd (readyLoop (demoServer a b c l) demoArgs 900000 w5))
        | Inr ready \<Rightarrow>
            if \<not> ready
            then (Threw (''Minecraft server did not become ready within 900s. start.sh output:'' @
                         [CHR 0x0A] @ ''Starting server'' @ [CHR 0x0A]), w7)
            else writeResource ''server'' (serverName demoArgs)
                   (no_data\<lparr>success := Some True, ip := Some (sshHost demoArgs),
                      serverReady := Some True,
                      timestamp := Some (clock (snd (readyLoop (demoServer a b c l) demoArgs 900000 w5)))\<rparr>)
                   (snd (readyLoop (demoServer a b c l) demoArgs 900000 w5)))"
proof -
  let ?D = "demoServer a b c l"
  let ?H = "sshHost demoArgs" and ?U = "sshUser demoArgs"
  obtain ok w1 rk w2 rt1 w3 rt2 w4 rn w5 so w7 where
    ok: "ok = fst (sshWait ?D demoWorld ?H ?U)"
    and t0: "trace w1 = trace demoWorld @ [WaitForSsh ?H ?U ok]"
    and c0: "clock w1 = clock demoWorld + snd (sshWait ?D demoWorld ?H ?U)"
    and tk: "trace w2 = trace w1 @ [Exec ?H ?U (killSessionCmd demoArgs) rk]"
    and ck: "clock w2 = clock w1 + latency ?D w1 ?H ?U (killSessionCmd demoArgs)"
    and t1: "trace w3 = trace w2 @ [Exec ?H ?U (truncateCmd (logPath demoArgs)) rt1]"
    and c1: "clock w3 = clock w2 + latency ?D w2 ?H ?U (truncateCmd (logPath demoArgs))"
    and t2: "trace w4 = trace w3 @ [Exec ?H ?U (truncateCmd (startLogPath demoArgs)) rt2]"
    and c2: "clock w4 = clock w3 + latency ?D w3 ?H ?U (truncateCmd (startLogPath demoArgs))"
    and vn: "rn = respond ?D w4 ?H ?U (newSessionCmd demoArgs)"
    and tn: "trace w5 = trace w4 @ [Exec ?H ?U (newSessionCmd demoArgs) rn]"
    and cn: "clock w5 = clock w4 + latency ?D w4 ?H ?U (newSessionCmd demoArgs)"
    and vs: "so = respond ?D (snd (readyLoop ?D demoArgs (clock w5 + 900000) w5)) ?H ?U
            (catStartLogCmd demoArgs)"
    and ts: "trace w7 = trace (snd (readyLoop ?D demoArgs (clock w5 + 900000) w5)) @
            [Exec ?H ?U (catStartLogCmd demoArgs) so]"
    and cs: "clock w7 = clock (snd (readyLoop ?D demoArgs (clock w5 + 900000) w5)) +
            latency ?D (snd (readyLoop ?D demoArgs (clock w5 + 900000) w5)) ?H ?U
              (catStartLogCmd demoArgs)"
    and vk: "rk = respond ?D w1 ?H ?U (killSessionCmd demoArgs)"
    and v1: "rt1 = respond ?D w2 ?H ?U (truncateCmd (logPath demoArgs))"
    and v2: "rt2 = respond ?D w3 ?H ?U (truncateCmd (startLogPath demoArgs))"
    and eq: "startMinecraftServer ?D demoArgs demoWorld =
     (if \<not> isValidSshHost ?D ?H
        then (Threw ''sshHost is required - is the VM running?'', demoWorld)
      else if \<not> ok
        then (Threw (''SSH not reachable on '' @ showHost ?H @ '' after 60s''), w1)
      else if code rn \<noteq> 0
        then (Threw (''Failed to start tmux session: '' @ stderr rn), w5)
      else (case fst (readyLoop ?D demoArgs (clock w5 + 900000) w5) of
              Inl msg \<Rightarrow> (Threw msg, snd (readyLoop ?D demoArgs (clock w5 + 900000) w5))
            | Inr ready \<Rightarrow>
                if \<not> ready
                then (Threw (''Minecraft server did not become ready within 900s. start.sh output:'' @
                             [CHR 0x0A] @ stdout so), w7)
                else writeResource ''server'' (serverName demoArgs)
                       (no_data\<lparr>success := Some True, ip := Some ?H,
                          serverReady := Some True,
                          timestamp := Some (clock (snd (readyLoop ?D demoArgs (clock w5 + 900000) w5)))\<rparr>)
                       (snd (readyLoop ?D demoArgs (clock w5 + 900000) w5))))"
    by (rule start_unfold)
  have k0: "clock demoWorld = 0" "trace demoWorld = []" by (simp_all add: demoWorld_def)
  have ok': "ok" unfolding ok by (simp add: demo_clock)
  have k5: "clock w5 = 0" unfolding cn c2 c1 ck c0 by (simp add: demo_clock k0)
  have rn: "rn = out []" unfolding vn by (rule demo_respond)
  have so: "so = out ''Starting server''" unfolding vs by (rule demo_respond)
  have rk: "rk = out []" unfolding vk by (rule demo_respond)
  have rt1: "rt1 = out []" unfolding v1 by (rule demo_respond)
  have rt2: "rt2 = out []" unfolding v2 by (rule demo_respond)
  have dl: "clock w5 + 900000 = 900000" unfolding k5 by simp
  have st: "stdout (out ''Starting server'') = ''Starting server'' @ [CHR 0x0A]"
    by (simp add: out_def)
  have t5: "trace w5 =
       [WaitForSsh ?H ?U True,
        Exec ?H ?U (killSessionCmd demoArgs) (out []),
        Exec ?H ?U (truncateCmd (logPath demoArgs)) (out []),
        Exec ?H ?U (truncateCmd (startLogPath demoArgs)) (out []),
        Exec ?H ?U (newSessionCmd demoArgs) (out [])]"
    unfolding tn t2 t1 tk t0 k0 rn rk rt1 rt2 using ok' by simp
  have k7: "clock w7 = clock (snd (readyLoop ?D demoArgs 900000 w5))"
    using cs unfolding dl by (simp add: demo_clock)
  have t7: "trace w7 = trace (snd (readyLoop ?D demoArgs 900000 w5)) @
       [Exec ?H ?U (catStartLogCmd demoArgs) (out ''Starting server'')]"
    using ts unfolding dl so by simp
  have res: "startMinecraftServer ?D demoArgs demoWorld =
       (case fst (readyLoop ?D demoArgs 900000 w5) of
          Inl msg \<Rightarrow> (Threw msg, snd (readyLoop ?D demoArgs 900000 w5))
        | Inr ready \<Rightarrow>
            if \<not> ready
            then (Threw (''Minecraft server did not become ready within 900s. start.sh output:'' @
                         [CHR 0x0A] @ ''Starting server'' @ [CHR 0x0A]), w7)
            else writeResource ''server'' (serverName demoArgs)
                   (no_data\<lparr>success := Some True, ip := Some ?H,
                      serverReady := Some True,
                      timestamp := Some (clock (snd (readyLoop ?D demoArgs 900000 w5)))\<rparr>)
                   (snd (readyLoop ?D demoArgs 900000 w5)))"
    unfolding eq dl rn so st using ok' by (simp add: demo_valid trim_out)
  show thesis
    using k5 t5 t7 k7 res by (rule that)
qed

lemma demo_readyLoop_round:
  assumes "clock w < dl"
  shows "readyLoop (demoServer a b c l) demoArgs dl w =
     (if \<not> clock w < a
      then (Inr True, \<lparr>clock = clock w, trace = trace w @
              [Exec (sshHost demoArgs) (sshUser demoArgs) (readyCheckCmd demoArgs) (out ''READY'')]\<rparr>)
      else if \<not> clock w < b
      then (Inl (''Server process exited before becoming ready. start.sh output:'' @
                 [CHR 0x0A] @ ''Starting server'' @ [CHR 0x0A]),
            \<lparr>clock = clock w, trace = trace w @
              [Exec (sshHost demoArgs) (sshUser demoArgs) (readyCheckCmd demoArgs) (out ''WAITING''),
               Exec (sshHost demoArgs) (sshUser demoArgs) (aliveCheckCmd demoArgs) (out ''dead''),
               Exec (sshHost demoArgs) (sshUser demoArgs) (catStartLogCmd demoArgs)
                 (out ''Starting server'')]\<rparr>)
      else readyLoop (demoServer a b c l) demoArgs dl
             \<lparr>clock = clock w + 5000, trace = trace w @
              [Exec (sshHost demoArgs) (sshUser demoArgs) (readyCheckCmd demoArgs) (out ''WAITING''),
               Exec (sshHost demoArgs) (sshUser demoArgs) (aliveCheckCmd demoArgs) (out ''alive''),
               Sleep 5000]\<rparr>)"
proof -
  have st: "stdout (out ''Starting server'') = ''Starting server'' @ [CHR 0x0A]"
    by (simp add: out_def)
  show ?thesis
    by (subst readyLoop.simps)
       (simp add: assms sshExecRaw_def sleep_def demo_respond demo_clock trim_out Let_def st)
qed

section \<open>Starting: the stale session is killed first\<close>

text \<open>
  Claim C9. In every run of \<open>startMinecraftServer\<close> that issues the command creating the
  session, the events of the run begin with: ssh came up, \<open>tmux kill-session\<close> for the
  session name, the two truncations, and then the creation, \<open>tmux new-session\<close> for the
  same session name; no later event of the run kills or creates a session. What the
  remote tmux does with the two commands is the host's behaviour.
\<close>

theorem start_kills_stale_session_first:
  assumes "Exec h u (newSessionCmd g) r \<in> set (newEvents w (snd (startMinecraftServer e g w)))"
  shows "\<exists>rk rt1 rt2 rest.
      newEvents w (snd (startMinecraftServer e g w)) =
        [WaitForSsh (sshHost g) (sshUser g) True,
         Exec (sshHost g) (sshUser g)
           (''tmux kill-session -t '' @ tmuxSession g @ '' 2>/dev/null || true'') rk,
         Exec (sshHost g) (sshUser g) (truncateCmd (logPath g)) rt1,
         Exec (sshHost g) (sshUser g) (truncateCmd (startLogPath g)) rt2,
         Exec h u (newSessionCmd g) r] @ rest \<and>
      newSessionCmd g =
        ''tmux new-session -d -s '' @ tmuxSession g @ '' -c '' @ serverDir g @ '' '' @ [CHR 0x27] @
        ''bash '' @ startScript g @ '' 2>&1 | tee /tmp/mc-start-'' @ tmuxSession g @ ''.log'' @
        [CHR 0x27] \<and>
      (\<forall>h' u' c' r'. Exec h' u' c' r' \<in> set rest \<longrightarrow>
          c' \<noteq> newSessionCmd g \<and> c' \<noteq> killSessionCmd g)"
proof -
  let ?H = "sshHost g" and ?U = "sshUser g"
  let ?S = "snd (startMinecraftServer e g w)"
  have ntxt: "newSessionCmd g =
        ''tmux new-session -d -s '' @ tmuxSession g @ '' -c '' @ serverDir g @ '' '' @ [CHR 0x27] @
        ''bash '' @ startScript g @ '' 2>&1 | tee /tmp/mc-start-'' @ tmuxSession g @ ''.log'' @
        [CHR 0x27]"
    by (simp add: newSessionCmd_def startLogPath_def)
  have ktxt: "''tmux kill-session -t '' @ tmuxSession g @ '' 2>/dev/null || true'' = killSessionCmd g"
    by (simp add: killSessionCmd_def)
  have main: "\<exists>rk rt1 rt2 rest.
      newEvents w ?S =
        [WaitForSsh ?H ?U True,
         Exec ?H ?U (killSessionCmd g) rk,
         Exec ?H ?U (truncateCmd (logPath g)) rt1,
         Exec ?H ?U (truncateCmd (startLogPath g)) rt2,
         Exec h u (newSessionCmd g) r] @ rest \<and>
      (\<forall>h' u' c' r'. Exec h' u' c' r' \<in> set rest \<longrightarrow>
          c' \<noteq> newSessionCmd g \<and> c' \<noteq> killSessionCmd g)"
  proof (cases rule: start_cases[of e g w])
    case gate
    with assms show ?thesis by simp
  next
    case unreachable
    with assms show ?thesis by simp
  next
    case (refused rk rt1 rt2 rn)
    from assms have "h = ?H \<and> u = ?U \<and> r = rn"
      unfolding refused(2) by (simp add: loop_cmds_distinct kill_cmd_distinct[symmetric])
    then have "newEvents w ?S =
        [WaitForSsh ?H ?U True,
         Exec ?H ?U (killSessionCmd g) rk,
         Exec ?H ?U (truncateCmd (logPath g)) rt1,
         Exec ?H ?U (truncateCmd (startLogPath g)) rt2,
         Exec h u (newSessionCmd g) r] @ []"
      unfolding refused(2) by simp
    then show ?thesis by (intro exI[of _ rk] exI[of _ rt1] exI[of _ rt2] exI[of _ "[]"]) simp
  next
    case (polled rk rt1 rt2 rn w5 evs tl)
    let ?dl = "clock w5 + 900000"
    from readyLoop_shape[of e g ?dl w5] obtain evs' where
      tr: "trace (snd (readyLoop e g ?dl w5)) = trace w5 @ evs'"
      and cmds: "\<forall>h u c r. Exec h u c r \<in> set evs' \<longrightarrow>
           c = readyCheckCmd g \<or> c = aliveCheckCmd g \<or> c = catStartLogCmd g"
      by blast
    from tr polled(2) have e': "evs' = evs" by simp
    have tlk: "tl = [] \<or> (\<exists>d. tl = [WriteResource ''server'' (serverName g) d]) \<or>
        (\<exists>so. tl = [Exec ?H ?U (catStartLogCmd g) so])"
    proof (cases "fst (readyLoop e g ?dl w5)")
      case (Inl m)
      with polled(4) show ?thesis by simp
    next
      case (Inr b)
      with polled(5,6) show ?thesis by (cases b) auto
    qed
    have rest: "\<forall>h' u' c' r'. Exec h' u' c' r' \<in> set (evs @ tl) \<longrightarrow>
          c' \<noteq> newSessionCmd g \<and> c' \<noteq> killSessionCmd g"
    proof (intro allI impI)
      fix h' u' c' r'
      assume "Exec h' u' c' r' \<in> set (evs @ tl)"
      then have "Exec h' u' c' r' \<in> set evs \<or> Exec h' u' c' r' \<in> set tl" by simp
      then have "c' = readyCheckCmd g \<or> c' = aliveCheckCmd g \<or> c' = catStartLogCmd g"
        using cmds tlk unfolding e' by auto
      then show "c' \<noteq> newSessionCmd g \<and> c' \<noteq> killSessionCmd g"
        using loop_cmds_distinct[of g] kill_cmd_distinct[of g] by metis
    qed
    from assms have "Exec h u (newSessionCmd g) r \<in>
        set ([WaitForSsh ?H ?U True,
          Exec ?H ?U (killSessionCmd g) rk,
          Exec ?H ?U (truncateCmd (logPath g)) rt1,
          Exec ?H ?U (truncateCmd (startLogPath g)) rt2,
          Exec ?H ?U (newSessionCmd g) rn]) \<or>
        Exec h u (newSessionCmd g) r \<in> set (evs @ tl)"
      unfolding polled(3) set_append Un_iff .
    with rest have "h = ?H \<and> u = ?U \<and> r = rn"
      by (auto simp: loop_cmds_distinct kill_cmd_distinct[symmetric])
    then have "newEvents w ?S =
        [WaitForSsh ?H ?U True,
         Exec ?H ?U (killSessionCmd g) rk,
         Exec ?H ?U (truncateCmd (logPath g)) rt1,
         Exec ?H ?U (truncateCmd (startLogPath g)) rt2,
         Exec h u (newSessionCmd g) r] @ (evs @ tl)"
      unfolding polled(3) by simp
    with rest show ?thesis
      by (intro exI[of _ rk] exI[of _ rt1] exI[of _ rt2] exI[of _ "evs @ tl"]) simp
  qed
  show ?thesis unfolding ktxt using main ntxt by blast
qed

theorem start_kills_stale_session_first_witness:
  "Exec (sshHost demoArgs) (sshUser demoArgs) (newSessionCmd demoArgs) (out []) \<in>
     set (newEvents demoWorld
       (snd (startMinecraftServer (demoServer 0 1000000000 0 []) demoArgs demoWorld))) \<and>
   take 5 (newEvents demoWorld
       (snd (startMinecraftServer (demoServer 0 1000000000 0 []) demoArgs demoWorld))) =
     [WaitForSsh (sshHost demoArgs) (sshUser demoArgs) True,
      Exec (sshHost demoArgs) (sshUser demoArgs) ''tmux kill-session -t mons 2>/dev/null || true'' (out []),
      Exec (sshHost demoArgs) (sshUser demoArgs) (truncateCmd (logPath demoArgs)) (out []),
      Exec (sshHost demoArgs) (sshUser demoArgs) (truncateCmd (startLogPath demoArgs)) (out []),
      Exec (sshHost demoArgs) (sshUser demoArgs) (newSessionCmd demoArgs) (out [])] \<and>
   newSessionCmd demoArgs =
     ''tmux new-session -d -s mons -c ~/mons 'bash ./startserver.sh 2>&1 | tee /tmp/mc-start-mons.log'' @ [CHR 0x27]"
proof -
  let ?D = "demoServer 0 1000000000 0 []"
  let ?H = "sshHost demoArgs" and ?U = "sshUser demoArgs"
  let ?S = "startMinecraftServer ?D demoArgs demoWorld"
  obtain w5 w7 where k5: "clock w5 = 0"
    and t5: "trace w5 =
       [WaitForSsh ?H ?U True,
        Exec ?H ?U (killSessionCmd demoArgs) (out []),
        Exec ?H ?U (truncateCmd (logPath demoArgs)) (out []),
        Exec ?H ?U (truncateCmd (startLogPath demoArgs)) (out []),
        Exec ?H ?U (newSessionCmd demoArgs) (out [])]"
    and res: "?S =
       (case fst (readyLoop ?D demoArgs 900000 w5) of
          Inl msg \<Rightarrow> (Threw msg, snd (readyLoop ?D demoArgs 900000 w5))
        | Inr ready \<Rightarrow>
            if \<not> ready
            then (Threw (''Minecraft server did not become ready within 900s. start.sh output:'' @
                         [CHR 0x0A] @ ''Starting server'' @ [CHR 0x0A]), w7)
            else writeResource ''server'' (serverName demoArgs)
                   (no_data\<lparr>success := Some True, ip := Some ?H,
                      serverReady := Some True,
                      timestamp := Some (clock (snd (readyLoop ?D demoArgs 900000 w5)))\<rparr>)
                   (snd (readyLoop ?D demoArgs 900000 w5)))"
    by (rule demo_start[of 0 1000000000 0 "[]"])
  have lp: "readyLoop ?D demoArgs 900000 w5 =
      (Inr True, \<lparr>clock = clock w5, trace = trace w5 @
              [Exec ?H ?U (readyCheckCmd demoArgs) (out ''READY'')]\<rparr>)"
    by (subst demo_readyLoop_round) (simp_all add: k5)
  have "trace (snd ?S) = trace demoWorld @ (trace w5 @
      [Exec ?H ?U (readyCheckCmd demoArgs) (out ''READY''),
       WriteResource ''server'' (serverName demoArgs)
         (no_data\<lparr>success := Some True, ip := Some ?H, serverReady := Some True,
            timestamp := Some 0\<rparr>)])"
    unfolding res lp by (simp add: k5 demoWorld_def)
  then have ev: "newEvents demoWorld (snd ?S) = trace w5 @
      [Exec ?H ?U (readyCheckCmd demoArgs) (out ''READY''),
       WriteResource ''server'' (serverName demoArgs)
         (no_data\<lparr>success := Some True, ip := Some ?H, serverReady := Some True,
            timestamp := Some 0\<rparr>)]"
    by (rule newEvents_append)
  have m: "Exec ?H ?U (newSessionCmd demoArgs) (out []) \<in> set (newEvents demoWorld (snd ?S))"
    unfolding ev t5 by simp
  have kt: "''tmux kill-session -t '' @ tmuxSession demoArgs @ '' 2>/dev/null || true'' =
      ''tmux kill-session -t mons 2>/dev/null || true''"
    by (simp add: demoArgs_def)
  have nt: "''tmux new-session -d -s '' @ tmuxSession demoArgs @ '' -c '' @ serverDir demoArgs @
        '' '' @ [CHR 0x27] @ ''bash '' @ startScript demoArgs @ '' 2>&1 | tee /tmp/mc-start-'' @
        tmuxSession demoArgs @ ''.log'' @ [CHR 0x27] =
     ''tmux new-session -d -s mons -c ~/mons 'bash ./startserver.sh 2>&1 | tee /tmp/mc-start-mons.log'' @ [CHR 0x27]"
    by (simp add: demoArgs_def)
  from start_kills_stale_session_first[OF m] obtain rk rt1 rt2 rest where
    th: "newEvents demoWorld (snd ?S) =
        [WaitForSsh ?H ?U True,
         Exec ?H ?U (''tmux kill-session -t '' @ tmuxSession demoArgs @ '' 2>/dev/null || true'') rk,
         Exec ?H ?U (truncateCmd (logPath demoArgs)) rt1,
         Exec ?H ?U (truncateCmd (startLogPath demoArgs)) rt2,
         Exec ?H ?U (newSessionCmd demoArgs) (out [])] @ rest"
    and nm: "newSessionCmd demoArgs =
        ''tmux new-session -d -s '' @ tmuxSession demoArgs @ '' -c '' @ serverDir demoArgs @
        '' '' @ [CHR 0x27] @ ''bash '' @ startScript demoArgs @ '' 2>&1 | tee /tmp/mc-start-'' @
        tmuxSession demoArgs @ ''.log'' @ [CHR 0x27]"
    by blast
  from th[unfolded ev t5] have "rk = out [] \<and> rt1 = out [] \<and> rt2 = out []"
    by (auto simp: killSessionCmd_def)
  with th have tk: "take 5 (newEvents demoWorld (snd ?S)) =
     [WaitForSsh ?H ?U True,
      Exec ?H ?U ''tmux kill-session -t mons 2>/dev/null || true'' (out []),
      Exec ?H ?U (truncateCmd (logPath demoArgs)) (out []),
      Exec ?H ?U (truncateCmd (startLogPath demoArgs)) (out []),
      Exec ?H ?U (newSessionCmd demoArgs) (out [])]"
    unfolding kt by simp
  from nm have n': "newSessionCmd demoArgs =
     ''tmux new-session -d -s mons -c ~/mons 'bash ./startserver.sh 2>&1 | tee /tmp/mc-start-mons.log'' @ [CHR 0x27]"
    unfolding nt .
  from m tk n' show ?thesis by blast
qed

text \<open>
  The sample server never ready and its session alive at every check of the loop: the
  start times out at the deadline, after a last sleep.
\<close>

lemma demo_start_timeout:
  assumes "895000 < a" "895000 < b"
  shows "fst (startMinecraftServer (demoServer a b c l) demoArgs demoWorld) =
      Threw (''Minecraft server did not become ready within 900s. start.sh output:'' @
             [CHR 0x0A] @ ''Starting server'' @ [CHR 0x0A])"
    and "clock (snd (startMinecraftServer (demoServer a b c l) demoArgs demoWorld)) = 900000"
    and "\<exists>pre. newEvents demoWorld
            (snd (startMinecraftServer (demoServer a b c l) demoArgs demoWorld)) =
          pre @ [Sleep 5000, Exec (sshHost demoArgs) (sshUser demoArgs) (catStartLogCmd demoArgs)
                   (out ''Starting server'')]"
proof -
  let ?D = "demoServer a b c l"
  let ?H = "sshHost demoArgs" and ?U = "sshUser demoArgs"
  let ?S = "startMinecraftServer ?D demoArgs demoWorld"
  obtain w5 w7 where k5: "clock w5 = 0"
    and t5: "trace w5 =
       [WaitForSsh ?H ?U True,
        Exec ?H ?U (killSessionCmd demoArgs) (out []),
        Exec ?H ?U (truncateCmd (logPath demoArgs)) (out []),
        Exec ?H ?U (truncateCmd (startLogPath demoArgs)) (out []),
        Exec ?H ?U (newSessionCmd demoArgs) (out [])]"
    and t7: "trace w7 = trace (snd (readyLoop ?D demoArgs 900000 w5)) @
       [Exec ?H ?U (catStartLogCmd demoArgs) (out ''Starting server'')]"
    and k7: "clock w7 = clock (snd (readyLoop ?D demoArgs 900000 w5))"
    and res: "?S =
       (case fst (readyLoop ?D demoArgs 900000 w5) of
          Inl msg \<Rightarrow> (Threw msg, snd (readyLoop ?D demoArgs 900000 w5))
        | Inr ready \<Rightarrow>
            if \<not> ready
            then (Threw (''Minecraft server did not become ready within 900s. start.sh output:'' @
                         [CHR 0x0A] @ ''Starting server'' @ [CHR 0x0A]), w7)
            else writeResource ''server'' (serverName demoArgs)
                   (no_data\<lparr>success := Some True, ip := Some ?H,
                      serverReady := Some True,
                      timestamp := Some (clock (snd (readyLoop ?D demoArgs 900000 w5)))\<rparr>)
                   (snd (readyLoop ?D demoArgs 900000 w5)))"
    by (rule demo_start[of a b c l])
  have quiet: "\<forall>w'. clock w' + 5000 \<le> 900000 \<longrightarrow>
      trim (stdout (respond ?D w' (sshHost demoArgs) (sshUser demoArgs) (readyCheckCmd demoArgs))) \<noteq> ''READY'' \<and>
      trim (stdout (respond ?D w' (sshHost demoArgs) (sshUser demoArgs) (aliveCheckCmd demoArgs))) \<noteq> ''dead''"
    using assms by (simp add: demo_respond trim_out)
  have d: "5000 dvd (900000 - clock w5)" unfolding k5 by simp
  have le: "clock w5 \<le> 900000" unfolding k5 by simp
  from readyLoop_expires[OF demo_ideal quiet d le]
  have f: "fst (readyLoop ?D demoArgs 900000 w5) = Inr False"
    and k: "clock (snd (readyLoop ?D demoArgs 900000 w5)) = 900000"
    by simp_all
  have s: "?S = (Threw (''Minecraft server did not become ready within 900s. start.sh output:'' @
                         [CHR 0x0A] @ ''Starting server'' @ [CHR 0x0A]), w7)"
    unfolding res f by simp
  show "fst ?S = Threw (''Minecraft server did not become ready within 900s. start.sh output:'' @
             [CHR 0x0A] @ ''Starting server'' @ [CHR 0x0A])"
    unfolding s by simp
  show "clock (snd ?S) = 900000" unfolding s using k7 k by simp
  from readyLoop_shape[of ?D demoArgs 900000 w5] obtain evs where
    tr: "trace (snd (readyLoop ?D demoArgs 900000 w5)) = trace w5 @ evs"
    and sl: "fst (readyLoop ?D demoArgs 900000 w5) = Inr False \<and> clock w5 < 900000 \<longrightarrow>
        (\<exists>pre. evs = pre @ [Sleep 5000])"
    by blast
  from sl f k5 obtain pre where pre: "evs = pre @ [Sleep 5000]" by auto
  have "trace (snd ?S) = trace demoWorld @ ((trace w5 @ pre) @
      [Sleep 5000, Exec ?H ?U (catStartLogCmd demoArgs) (out ''Starting server'')])"
    unfolding s snd_conv t7 tr pre by (simp add: demoWorld_def)
  then have ex: "newEvents demoWorld (snd ?S) = (trace w5 @ pre) @
      [Sleep 5000, Exec ?H ?U (catStartLogCmd demoArgs) (out ''Starting server'')]"
    by (rule newEvents_append)
  show "\<exists>pre. newEvents demoWorld (snd ?S) =
          pre @ [Sleep 5000, Exec ?H ?U (catStartLogCmd demoArgs) (out ''Starting server'')]"
    by (rule exI[of _ "trace w5 @ pre"]) (rule ex)
qed

section \<open>Starting: a session that dies before the server is ready\<close>




section \<open>The two polling loops and the deadline\<close>

text \<open>
  Claim C3 as stated fails for the readiness loop of \<open>startMinecraftServer\<close>: it checks,
  then sleeps, and when the deadline has passed after a sleep it gives up without
  another check. On the sample host below the marker is in the log from 897 s on; the
  check at 895 s does not see it, the sleep ends at the deadline of 900 s, and the run
  throws the timeout error although a check at that moment would have found the server
  ready. The last two events of the run are the sleep and the reading of the start log.
\<close>

theorem start_no_check_after_last_sleep_counterexample:
  "fst (startMinecraftServer (demoServer 897000 1000000000 0 []) demoArgs demoWorld) =
      Threw (''Minecraft server did not become ready within 900s. start.sh output:'' @
             [CHR 0x0A] @ ''Starting server'' @ [CHR 0x0A]) \<and>
   clock (snd (startMinecraftServer (demoServer 897000 1000000000 0 []) demoArgs demoWorld)) =
      900000 \<and>
   last (butlast (newEvents demoWorld
      (snd (startMinecraftServer (demoServer 897000 1000000000 0 []) demoArgs demoWorld)))) =
      Sleep 5000 \<and>
   last (newEvents demoWorld
      (snd (startMinecraftServer (demoServer 897000 1000000000 0 []) demoArgs demoWorld))) =
      Exec (sshHost demoArgs) (sshUser demoArgs) (catStartLogCmd demoArgs) (out ''Starting server'') \<and>
   trim (stdout (respond (demoServer 897000 1000000000 0 [])
      (snd (startMinecraftServer (demoServer 897000 1000000000 0 []) demoArgs demoWorld))
      (sshHost demoArgs) (sshUser demoArgs) (readyCheckCmd demoArgs))) = ''READY''"
proof -
  let ?D = "demoServer 897000 1000000000 0 []"
  let ?S = "startMinecraftServer ?D demoArgs demoWorld"
  have a: "(895000::nat) < 897000" and b: "(895000::nat) < 1000000000" by simp_all
  note t = demo_start_timeout[OF a b, of 0 "[]"]
  from t(3) obtain pre where ev: "newEvents demoWorld (snd ?S) =
      pre @ [Sleep 5000, Exec (sshHost demoArgs) (sshUser demoArgs) (catStartLogCmd demoArgs)
                   (out ''Starting server'')]"
    by blast
  have l1: "last (newEvents demoWorld (snd ?S)) =
      Exec (sshHost demoArgs) (sshUser demoArgs) (catStartLogCmd demoArgs) (out ''Starting server'')"
    unfolding ev by simp
  have l2: "last (butlast (newEvents demoWorld (snd ?S))) = Sleep 5000"
    unfolding ev by (simp add: butlast_append)
  have r: "trim (stdout (respond ?D (snd ?S) (sshHost demoArgs) (sshUser demoArgs)
      (readyCheckCmd demoArgs))) = ''READY''"
    by (simp add: demo_respond t(2) trim_out)
  from t(1) t(2) l2 l1 r show ?thesis by (intro conjI)
qed

text \<open>
  Claim C3, amended. The liveness loop of \<open>stopMinecraftServer\<close> sleeps first and checks
  after waking: in a run that goes past the already-stopped checks there is at least one
  round, every sleep of the run is followed at once by a liveness check, also the sleep
  that crosses the deadline, and only the killing of the session and the writing of the
  result come after the last check. The readiness loop of \<open>startMinecraftServer\<close> checks
  first and sleeps afterwards: a run that throws the timeout error ends with a sleep of
  five seconds followed by nothing but the reading of the start log, whose output the
  error carries; no check is made after that sleep.
\<close>

theorem poll_loops_last_check:
  "(fst (stopMinecraftServer e g w) = Returned d \<and> alreadyStopped d = Some False \<longrightarrow>
      (\<exists>pre pid rs rk.
         newEvents w (snd (stopMinecraftServer e g w)) =
           pre @
           concat (map (\<lambda>r. [Sleep 3000, Exec (sshHost g) (sshUser g) (killCheckCmd pid) r]) rs) @
           [Exec (sshHost g) (sshUser g) (killSessionCmd g) rk,
            WriteResource ''server'' (serverName g) d] \<and>
         rs \<noteq> [] \<and> (\<forall>ms. Sleep ms \<notin> set pre))) \<and>
   (fst (startMinecraftServer e g w) =
      Threw (''Minecraft server did not become ready within 900s. start.sh output:'' @
             [CHR 0x0A] @ s) \<longrightarrow>
      (\<exists>pre so. s = stdout so \<and>
         newEvents w (snd (startMinecraftServer e g w)) =
           pre @ [Sleep 5000, Exec (sshHost g) (sshUser g) (catStartLogCmd g) so]))"
proof (intro conjI impI)
  assume h: "fst (stopMinecraftServer e g w) = Returned d \<and> alreadyStopped d = Some False"
  then have h1: "fst (stopMinecraftServer e g w) = Returned d"
    and h2: "alreadyStopped d = Some False" by simp_all
  obtain pre rs pid rk w5 w6 where
    ev: "newEvents w (snd (stopMinecraftServer e g w)) =
       pre @ concat (map (\<lambda>r. [Sleep 3000, Exec (sshHost g) (sshUser g) (killCheckCmd pid) r]) rs) @
       [Exec (sshHost g) (sshUser g) (killSessionCmd g) rk,
        WriteResource ''server'' (serverName g) d]"
    and pre: "pollAnswers pre = []"
    and nosleep: "\<forall>ms. Sleep ms \<notin> set pre"
    and ne: "rs \<noteq> []"
    and early: "\<forall>r\<in>set (butlast rs). trim (stdout r) \<noteq> ''stopped''"
    and last: "trim (stdout (last rs)) \<noteq> ''stopped'' \<longrightarrow> clock (w5::world) + 90000 \<le> clock (w6::world)"
    and to: "timedOut d = Some (clock w5 + 90000 \<le> clock w6)"
    and cl: "idealClock e \<longrightarrow> clock w5 = clock w \<and> clock w6 = clock w + 3000 * length rs \<and>
        clock (snd (stopMinecraftServer e g w)) = clock w6 \<and> clock w6 < clock w + 93000"
    and src: "\<forall>r\<in>set rs. \<exists>w'. r = respond e w' (sshHost g) (sshUser g) (killCheckCmd pid) \<and>
        (idealClock e \<longrightarrow> clock w' < clock w + 93000)"
    and pidv: "\<exists>w'. pid = (case split_on (CHR 0x0A)
                       (trim (stdout (respond e w' (sshHost g) (sshUser g) javaPidCmd))) of
                    [] \<Rightarrow> ''undefined'' | l # ls \<Rightarrow> l)"
    by (rule stop_running[OF h1 h2])
  show "\<exists>pre pid rs rk.
         newEvents w (snd (stopMinecraftServer e g w)) =
           pre @
           concat (map (\<lambda>r. [Sleep 3000, Exec (sshHost g) (sshUser g) (killCheckCmd pid) r]) rs) @
           [Exec (sshHost g) (sshUser g) (killSessionCmd g) rk,
            WriteResource ''server'' (serverName g) d] \<and>
         rs \<noteq> [] \<and> (\<forall>ms. Sleep ms \<notin> set pre)"
    by (rule exI[of _ pre], rule exI[of _ pid], rule exI[of _ rs], rule exI[of _ rk])
       (intro conjI ev ne nosleep)
next
  let ?H = "sshHost g" and ?U = "sshUser g"
  let ?S = "startMinecraftServer e g w"
  assume h: "fst ?S =
      Threw (''Minecraft server did not become ready within 900s. start.sh output:'' @
             [CHR 0x0A] @ s)"
  show "\<exists>pre so. s = stdout so \<and>
         newEvents w (snd ?S) = pre @ [Sleep 5000, Exec ?H ?U (catStartLogCmd g) so]"
  proof (cases rule: start_cases[of e g w])
    case gate
    with h show ?thesis by simp
  next
    case unreachable
    with h show ?thesis by simp
  next
    case (refused rk rt1 rt2 rn)
    with h show ?thesis by simp
  next
    case (polled rk rt1 rt2 rn w5 evs tl)
    let ?dl = "clock w5 + 900000"
    let ?R = "readyLoop e g ?dl w5"
    let ?P = "[WaitForSsh ?H ?U True,
          Exec ?H ?U (killSessionCmd g) rk,
          Exec ?H ?U (truncateCmd (logPath g)) rt1,
          Exec ?H ?U (truncateCmd (startLogPath g)) rt2,
          Exec ?H ?U (newSessionCmd g) rn]"
    from readyLoop_shape[of e g ?dl w5] obtain evs' where
      tr: "trace (snd ?R) = trace w5 @ evs'"
      and sl: "fst ?R = Inr False \<and> clock w5 < ?dl \<longrightarrow> (\<exists>pre. evs' = pre @ [Sleep 5000])"
      and thrown: "\<forall>m. fst ?R = Inl m \<longrightarrow>
           (\<exists>pre r ro. m = ''Server process exited before becoming ready. start.sh output:'' @
                    [CHR 0x0A] @ stdout ro \<and> trim (stdout r) = ''dead'' \<and>
               evs' = pre @ [Exec ?H ?U (aliveCheckCmd g) r, Exec ?H ?U (catStartLogCmd g) ro])"
      by blast
    from tr polled(2) have e': "evs' = evs" by simp
    have f: "fst ?R = Inr False"
    proof (cases "fst ?R")
      case (Inl m)
      from thrown Inl obtain pre r' ro where
        "m = ''Server process exited before becoming ready. start.sh output:'' @
                    [CHR 0x0A] @ stdout ro"
        and "trim (stdout r') = ''dead''"
        and "evs' = pre @ [Exec ?H ?U (aliveCheckCmd g) r', Exec ?H ?U (catStartLogCmd g) ro]"
        by blast
      moreover from polled(4) Inl have "fst ?S = Threw m" by simp
      ultimately show ?thesis using h by simp
    next
      case (Inr b)
      show ?thesis
      proof (cases b)
        case True
        with Inr polled(5) h show ?thesis by auto
      next
        case False
        with Inr show ?thesis by simp
      qed
    qed
    with sl obtain pre where pre: "evs = pre @ [Sleep 5000]" unfolding e' by auto
    from polled(6) f obtain so where
      fs: "fst ?S =
                 Threw (''Minecraft server did not become ready within 900s. start.sh output:'' @
                        [CHR 0x0A] @ stdout so)"
      and tl: "tl = [Exec ?H ?U (catStartLogCmd g) so]"
      by blast
    from h fs have 1: "s = stdout so" by simp
    have 2: "newEvents w (snd ?S) = (?P @ pre) @ [Sleep 5000, Exec ?H ?U (catStartLogCmd g) so]"
      unfolding polled(3) tl pre by simp
    show ?thesis
      by (rule exI[of _ "?P @ pre"], rule exI[of _ so]) (intro conjI 1 2)
  qed
qed

theorem poll_loops_last_check_witness:
  "fst (stopMinecraftServer (demoServer 0 1000000000 0 []) demoArgs demoWorld) =
     Returned (no_data\<lparr>success := Some True, alreadyStopped := Some False,
       timedOut := Some False, ip := Some (sshHost demoArgs), timestamp := Some 3000\<rparr>) \<and>
   alreadyStopped (no_data\<lparr>success := Some True, alreadyStopped := Some False,
       timedOut := Some False, ip := Some (sshHost demoArgs), timestamp := Some 3000\<rparr>) =
     Some False \<and>
   (\<exists>pre pid rs rk.
      newEvents demoWorld (snd (stopMinecraftServer (demoServer 0 1000000000 0 []) demoArgs demoWorld)) =
        pre @
        concat (map (\<lambda>r. [Sleep 3000,
                        Exec (sshHost demoArgs) (sshUser demoArgs) (killCheckCmd pid) r]) rs) @
        [Exec (sshHost demoArgs) (sshUser demoArgs) (killSessionCmd demoArgs) rk,
         WriteResource ''server'' (serverName demoArgs)
           (no_data\<lparr>success := Some True, alreadyStopped := Some False,
              timedOut := Some False, ip := Some (sshHost demoArgs), timestamp := Some 3000\<rparr>)] \<and>
      rs \<noteq> [] \<and> (\<forall>ms. Sleep ms \<notin> set pre)) \<and>
   fst (startMinecraftServer (demoServer 1000000000 1000000000 0 []) demoArgs demoWorld) =
     Threw (''Minecraft server did not become ready within 900s. start.sh output:'' @
            [CHR 0x0A] @ ''Starting server'' @ [CHR 0x0A]) \<and>
   (\<exists>pre so. ''Starting server'' @ [CHR 0x0A] = stdout so \<and>
      newEvents demoWorld
        (snd (startMinecraftServer (demoServer 1000000000 1000000000 0 []) demoArgs demoWorld)) =
      pre @ [Sleep 5000, Exec (sshHost demoArgs) (sshUser demoArgs) (catStartLogCmd demoArgs) so])"
proof -
  let ?E = "demoServer 0 1000000000 0 []"
  let ?N = "demoServer 1000000000 1000000000 0 []"
  let ?d = "no_data\<lparr>success := Some True, alreadyStopped := Some False,
       timedOut := Some False, ip := Some (sshHost demoArgs), timestamp := Some 3000\<rparr>"
  have pos: "(0::nat) < 1000000000" by simp
  obtain w5 w6 rk where k5: "clock w5 = 0"
    and w6: "w6 = pidLoop ?E demoArgs ''4242'' 90000 w5"
    and f: "fst (stopMinecraftServer ?E demoArgs demoWorld) =
       Returned (no_data\<lparr>success := Some True, alreadyStopped := Some False,
                timedOut := Some (90000 \<le> clock w6), ip := Some (sshHost demoArgs),
                timestamp := Some (clock w6)\<rparr>)"
    using demo_stop[OF pos, of 0 0 "[]"] by metis
  have s1: "pidLoop ?E demoArgs ''4242'' 90000 w5 =
      \<lparr>clock = clock w5 + 3000, trace = trace w5 @
         [Sleep 3000, Exec (sshHost demoArgs) (sshUser demoArgs) (killCheckCmd ''4242'')
            (out ''stopped'')]\<rparr>"
    by (subst demo_pidLoop_round) (simp_all add: k5)
  have k6: "clock w6 = 3000" unfolding w6 s1 by (simp add: k5)
  have f': "fst (stopMinecraftServer ?E demoArgs demoWorld) = Returned ?d"
    unfolding f k6 by simp
  have al: "alreadyStopped ?d = Some False" by (simp add: no_data_def)
  have a: "(895000::nat) < 1000000000" by simp
  note t = demo_start_timeout(1)[OF a a, of 0 "[]"]
  from poll_loops_last_check[of ?E demoArgs demoWorld ?d] f' al
  have 1: "\<exists>pre pid rs rk.
      newEvents demoWorld (snd (stopMinecraftServer ?E demoArgs demoWorld)) =
        pre @
        concat (map (\<lambda>r. [Sleep 3000,
                        Exec (sshHost demoArgs) (sshUser demoArgs) (killCheckCmd pid) r]) rs) @
        [Exec (sshHost demoArgs) (sshUser demoArgs) (killSessionCmd demoArgs) rk,
         WriteResource ''server'' (serverName demoArgs) ?d] \<and>
      rs \<noteq> [] \<and> (\<forall>ms. Sleep ms \<notin> set pre)"
    by blast
  from poll_loops_last_check[of ?N demoArgs demoWorld _ "''Starting server'' @ [CHR 0x0A]"] t
  have 2: "\<exists>pre so. ''Starting server'' @ [CHR 0x0A] = stdout so \<and>
      newEvents demoWorld (snd (startMinecraftServer ?N demoArgs demoWorld)) =
      pre @ [Sleep 5000, Exec (sshHost demoArgs) (sshUser demoArgs) (catStartLogCmd demoArgs) so]"
    by blast
  from f' al 1 t 2 show ?thesis by (intro conjI)
qed

end
